(* ===== verification/Prelude.thy ===== *)
theory Prelude
  imports Main "HOL-Library.Word" "HOL-Library.List_Lexorder" "HOL-Library.Char_ord"
begin

unbundle bit_operations_syntax

text \<open>
  What the components share: the C integer bounds, the list view of the two container
  families of the sources (the red-black trees of \<^verbatim>\<open>compat/tree.h\<close> and the tail queues of
  \<^verbatim>\<open>compat/queue.h\<close>), the interface of an ordered table and of a most-recently-used
  stack as locales, and the bit lemmas the flag words need.

  A red-black tree is read only through \<^verbatim>\<open>RB_FIND\<close>, \<^verbatim>\<open>RB_INSERT\<close>, \<^verbatim>\<open>RB_REMOVE\<close>,
  \<^verbatim>\<open>RB_NEXT\<close>, \<^verbatim>\<open>RB_PREV\<close>, \<^verbatim>\<open>RB_MIN\<close>, \<^verbatim>\<open>RB_MAX\<close> and \<^verbatim>\<open>RB_FOREACH\<close>, so it is represented by
  its in-order sequence; a tail queue is the list of its elements from head to tail.
\<close>

named_theorems table_simps \<open>equations of the ordered sequences\<close>
named_theorems flag_simps \<open>equations of the flag words\<close>

section \<open>C integers\<close>

type_synonym u32 = "32 word"
type_synonym u16 = "16 word"
type_synonym u8 = "8 word"

abbreviation int_max :: int where
  "int_max \<equiv> 2147483647"

abbreviation uint_max :: u32 where
  "uint_max \<equiv> - 1"

section \<open>Trees as in-order sequences\<close>

definition rb_find :: "('a \<Rightarrow> 'k) \<Rightarrow> 'k \<Rightarrow> 'a list \<Rightarrow> 'a option" where
  "rb_find key k xs = find (\<lambda>x. key x = k) xs"

fun rb_insert :: "('a \<Rightarrow> 'k::linorder) \<Rightarrow> 'a \<Rightarrow> 'a list \<Rightarrow> 'a list" where
  "rb_insert key x [] = [x]"
| "rb_insert key x (y # ys) =
     (if key x < key y then x # y # ys
      else if key x = key y then y # ys
      else y # rb_insert key x ys)"

definition rb_remove :: "('a \<Rightarrow> 'k) \<Rightarrow> 'k \<Rightarrow> 'a list \<Rightarrow> 'a list" where
  "rb_remove key k xs = filter (\<lambda>x. key x \<noteq> k) xs"

fun rb_next :: "('a \<Rightarrow> 'k) \<Rightarrow> 'k \<Rightarrow> 'a list \<Rightarrow> 'a option" where
  "rb_next key k [] = None"
| "rb_next key k [x] = None"
| "rb_next key k (x # y # xs) = (if key x = k then Some y else rb_next key k (y # xs))"

fun rb_prev :: "('a \<Rightarrow> 'k) \<Rightarrow> 'k \<Rightarrow> 'a list \<Rightarrow> 'a option" where
  "rb_prev key k [] = None"
| "rb_prev key k [x] = None"
| "rb_prev key k (x # y # xs) =
     (if key x = k then None else if key y = k then Some x else rb_prev key k (y # xs))"

fun rb_min :: "'a list \<Rightarrow> 'a option" where
  "rb_min [] = None"
| "rb_min (x # xs) = Some x"

definition rb_max :: "'a list \<Rightarrow> 'a option" where
  "rb_max xs = (if xs = [] then None else Some (last xs))"

definition rb_ordered :: "('a \<Rightarrow> 'k::linorder) \<Rightarrow> 'a list \<Rightarrow> bool" where
  "rb_ordered key xs \<longleftrightarrow> sorted_wrt (<) (map key xs)"

lemma rb_find_SomeD: "rb_find key k xs = Some x \<Longrightarrow> x \<in> set xs \<and> key x = k"
  by (auto simp: rb_find_def find_Some_iff)

lemma rb_find_None_iff [table_simps]: "rb_find key k xs = None \<longleftrightarrow> (\<forall>x \<in> set xs. key x \<noteq> k)"
  by (auto simp: rb_find_def find_None_iff)

lemma rb_ordered_Cons:
  "rb_ordered key (x # xs) \<longleftrightarrow> rb_ordered key xs \<and> (\<forall>y \<in> set xs. key x < key y)"
  by (auto simp: rb_ordered_def)

lemma rb_ordered_distinct: "rb_ordered key xs \<Longrightarrow> distinct (map key xs)"
  by (simp add: rb_ordered_def strict_sorted_iff)

lemma rb_ordered_inj:
  "rb_ordered key xs \<Longrightarrow> x \<in> set xs \<Longrightarrow> y \<in> set xs \<Longrightarrow> key x = key y \<Longrightarrow> x = y"
  by (drule rb_ordered_distinct) (auto simp: distinct_map inj_on_def)

lemma rb_find_Some_iff:
  assumes "rb_ordered key xs"
  shows "rb_find key k xs = Some x \<longleftrightarrow> x \<in> set xs \<and> key x = k"
proof (cases "rb_find key k xs")
  case None
  then have "\<forall>y \<in> set xs. key y \<noteq> k" by (simp add: table_simps)
  with None show ?thesis by auto
next
  case (Some y)
  then have "y \<in> set xs \<and> key y = k" by (rule rb_find_SomeD)
  with Some show ?thesis using rb_ordered_inj [OF assms] by auto
qed

lemma set_rb_insert [table_simps]:
  "set (rb_insert key x xs) =
     (if rb_find key (key x) xs = None then insert x (set xs) else set xs)"
  if "rb_ordered key xs"
  using that
proof (induction xs)
  case Nil
  then show ?case by (simp add: rb_find_def)
next
  case (Cons y ys)
  show ?case
  proof (cases "key x < key y")
    case True
    with Cons.prems have "rb_find key (key x) (y # ys) = None"
      by (auto simp: table_simps rb_ordered_def)
    with True show ?thesis by simp
  next
    case False
    with Cons show ?thesis by (auto simp: rb_find_def rb_ordered_def)
  qed
qed

lemma rb_ordered_insert: "rb_ordered key xs \<Longrightarrow> rb_ordered key (rb_insert key x xs)"
proof (induction xs)
  case Nil
  then show ?case by (simp add: rb_ordered_def)
next
  case (Cons y ys)
  then have ord: "rb_ordered key ys" by (simp add: rb_ordered_def)
  from Cons show ?case
    by (auto simp: rb_ordered_def set_rb_insert [OF ord] split: if_splits)
qed

lemma rb_insert_dup: "rb_ordered key xs \<Longrightarrow> rb_find key (key x) xs \<noteq> None \<Longrightarrow> rb_insert key x xs = xs"
proof (induction xs)
  case Nil
  then show ?case by (simp add: rb_find_def)
next
  case (Cons y ys)
  show ?case
  proof (cases "key x = key y")
    case False
    with Cons.prems have "rb_find key (key x) ys \<noteq> None"
      by (auto simp: rb_find_def split: if_splits)
    moreover from this have "key y < key x"
      using Cons.prems by (auto simp: rb_ordered_Cons dest!: rb_find_SomeD)
    ultimately show ?thesis using Cons by (auto simp: rb_ordered_Cons)
  qed simp
qed

lemma set_rb_remove [table_simps]: "set (rb_remove key k xs) = {x \<in> set xs. key x \<noteq> k}"
  by (auto simp: rb_remove_def)

lemma rb_ordered_remove: "rb_ordered key xs \<Longrightarrow> rb_ordered key (rb_remove key k xs)"
  by (auto simp: rb_ordered_def rb_remove_def sorted_wrt_map intro: sorted_wrt_filter)

lemma rb_ordered_append:
  "rb_ordered key (xs @ ys) \<longleftrightarrow>
     rb_ordered key xs \<and> rb_ordered key ys \<and> (\<forall>x \<in> set xs. \<forall>y \<in> set ys. key x < key y)"
  by (auto simp: rb_ordered_def sorted_wrt_append)

text \<open>Insertion at a known place: between the smaller and the larger elements.\<close>

lemma rb_insert_split:
  assumes "\<forall>y \<in> set xs. key y < key x" and "\<forall>y \<in> set ys. key x < key y"
  shows "rb_insert key x (xs @ ys) = xs @ x # ys"
  using assms
proof (induction xs)
  case Nil
  then show ?case by (cases ys) auto
next
  case (Cons a xs)
  then show ?case by auto
qed

lemma rb_next_append [table_simps]:
  "k \<notin> key ` set xs \<Longrightarrow> key x = k \<Longrightarrow>
     rb_next key k (xs @ x # ys) = (case ys of [] \<Rightarrow> None | y # _ \<Rightarrow> Some y)"
proof (induction xs)
  case Nil
  then show ?case by (cases ys) auto
next
  case (Cons a xs)
  then show ?case by (cases xs) auto
qed

lemma rb_prev_append [table_simps]:
  "k \<notin> key ` set xs \<Longrightarrow> key x = k \<Longrightarrow>
     rb_prev key k (xs @ x # ys) = (if xs = [] then None else Some (last xs))"
proof (induction xs)
  case Nil
  then show ?case by (cases ys) auto
next
  case (Cons a xs)
  then show ?case by (cases xs) auto
qed

lemma rb_next_in: "rb_next key k xs = Some y \<Longrightarrow> y \<in> set xs"
  by (induction key k xs rule: rb_next.induct) (auto split: if_splits)

lemma rb_prev_in: "rb_prev key k xs = Some y \<Longrightarrow> y \<in> set xs"
  by (induction key k xs rule: rb_prev.induct) (auto split: if_splits)

lemma rb_min_in: "rb_min xs = Some y \<Longrightarrow> y \<in> set xs"
  by (cases xs) auto

lemma rb_max_in: "rb_max xs = Some y \<Longrightarrow> y \<in> set xs"
  by (auto simp: rb_max_def split: if_splits)

section \<open>The interface of an ordered table\<close>

text \<open>
  What the users of a red-black tree rely on: lookup by key, insertion that never replaces
  (\<^verbatim>\<open>RB_INSERT\<close> returns the colliding node and leaves the tree alone), removal, and the
  in-order walk.
\<close>

locale ordered_table =
  fixes key :: "'a \<Rightarrow> 'k::linorder"
    and tfind :: "'k \<Rightarrow> 't \<Rightarrow> 'a option"
    and tinsert :: "'a \<Rightarrow> 't \<Rightarrow> 't"
    and tremove :: "'k \<Rightarrow> 't \<Rightarrow> 't"
    and inorder :: "'t \<Rightarrow> 'a list"
  assumes find_iff: "rb_ordered key (inorder t) \<Longrightarrow>
      tfind k t = Some x \<longleftrightarrow> x \<in> set (inorder t) \<and> key x = k"
    and insert_set: "rb_ordered key (inorder t) \<Longrightarrow> set (inorder (tinsert x t)) =
      (if tfind (key x) t = None then insert x (set (inorder t)) else set (inorder t))"
    and remove_set: "set (inorder (tremove k t)) = {x \<in> set (inorder t). key x \<noteq> k}"
    and ordered_insert: "rb_ordered key (inorder t) \<Longrightarrow> rb_ordered key (inorder (tinsert x t))"
    and ordered_remove: "rb_ordered key (inorder t) \<Longrightarrow> rb_ordered key (inorder (tremove k t))"
begin

lemma find_None: "rb_ordered key (inorder t) \<Longrightarrow>
    tfind k t = None \<longleftrightarrow> (\<forall>x \<in> set (inorder t). key x \<noteq> k)"
  using find_iff by (metis not_None_eq)

lemma find_insert: "rb_ordered key (inorder t) \<Longrightarrow> tfind (key x) t = None \<Longrightarrow>
    tfind k (tinsert x t) = (if k = key x then Some x else tfind k t)"
proof -
  assume ord: "rb_ordered key (inorder t)" and free: "tfind (key x) t = None"
  note ord' = ordered_insert [OF ord, of x]
  show ?thesis
  proof (cases "tfind k (tinsert x t)")
    case None
    then have "k \<noteq> key x" and "tfind k t = None"
      using free by (auto simp: find_None [OF ord'] find_None [OF ord] insert_set [OF ord])
    with None show ?thesis by simp
  next
    case (Some y)
    then have "y \<in> set (inorder (tinsert x t))" "key y = k"
      by (auto simp: find_iff [OF ord'])
    with free have "y = x \<or> tfind k t = Some y"
      by (auto simp: insert_set [OF ord] find_iff [OF ord])
    with Some \<open>key y = k\<close> free show ?thesis by auto
  qed
qed

lemma find_insert_same: "rb_ordered key (inorder t) \<Longrightarrow> tfind (key x) t = None \<Longrightarrow>
    tfind (key x) (tinsert x t) = Some x"
  by (simp add: find_insert)

lemma find_remove: "rb_ordered key (inorder t) \<Longrightarrow>
    tfind k (tremove k' t) = (if k = k' then None else tfind k t)"
proof -
  assume ord: "rb_ordered key (inorder t)"
  note ord' = ordered_remove [OF ord, of k']
  show ?thesis
  proof (cases "tfind k (tremove k' t)")
    case None
    then show ?thesis
      by (cases "tfind k t") (auto simp: find_None [OF ord'] remove_set find_iff [OF ord])
  next
    case (Some y)
    then show ?thesis
      using find_iff [OF ord, of k y] by (auto simp: find_iff [OF ord'] remove_set)
  qed
qed

lemma insert_remove_set: "rb_ordered key (inorder t) \<Longrightarrow> tfind (key x) t = Some x \<Longrightarrow>
    set (inorder (tinsert x (tremove (key x) t))) = set (inorder t)"
  by (auto simp: insert_set ordered_remove find_remove remove_set find_iff
      intro: rb_ordered_inj)

end

text \<open>The in-order sequences with the operations above are such a table, for every key.\<close>

interpretation rb: ordered_table key "rb_find key" "rb_insert key" "rb_remove key" "\<lambda>xs. xs" for key :: "'a \<Rightarrow> 'k::linorder"
  by unfold_locales (auto simp: rb_find_Some_iff table_simps rb_ordered_insert rb_ordered_remove)

lemma rb_find_map:
  "(\<And>x. key (f x) = key x) \<Longrightarrow> rb_find key k (map f xs) = map_option f (rb_find key k xs)"
  by (induction xs) (auto simp: rb_find_def)

lemma rb_ordered_map: "(\<And>x. key (f x) = key x) \<Longrightarrow> rb_ordered key (map f xs) = rb_ordered key xs"
  by (simp add: rb_ordered_def comp_def)

section \<open>The interface of a most-recently-used stack\<close>

text \<open>
  Sessions keep a stack of last windows and windows a stack of last panes. Both mark the
  members with a flag, and both push and remove have the same contract: removing is a
  no-op on an unmarked element, pushing moves the element to the head and marks it.
\<close>

locale mru_stack =
  fixes items :: "'s \<Rightarrow> 'p list"
    and marked :: "'s \<Rightarrow> 'p \<Rightarrow> bool"
    and live :: "'s \<Rightarrow> 'p \<Rightarrow> bool"
    and push :: "'p \<Rightarrow> 's \<Rightarrow> 's"
    and drop_item :: "'p \<Rightarrow> 's \<Rightarrow> 's"
  assumes items_drop: "live s p \<Longrightarrow>
      items (drop_item p s) = (if marked s p then remove1 p (items s) else items s)"
    and marked_drop: "live s p \<Longrightarrow> marked (drop_item p s) q = (marked s q \<and> q \<noteq> p)"
    and live_drop: "live s p \<Longrightarrow> live (drop_item p s) q = live s q"
    and push_eq_items: "live s p \<Longrightarrow> items (push p s) = p # items (drop_item p s)"
    and marked_push: "live s p \<Longrightarrow> live s q \<Longrightarrow> marked (push p s) q = (marked s q \<or> q = p)"
    and live_push: "live s p \<Longrightarrow> live (push p s) q = live s q"
begin

definition stack_ok :: "'s \<Rightarrow> bool" where
  "stack_ok s \<longleftrightarrow> distinct (items s) \<and> (\<forall>p \<in> set (items s). live s p) \<and>
     (\<forall>p. live s p \<longrightarrow> (marked s p \<longleftrightarrow> p \<in> set (items s)))"

lemma stack_ok_drop: "stack_ok s \<Longrightarrow> live s p \<Longrightarrow>
    stack_ok (drop_item p s) \<and> items (drop_item p s) = remove1 p (items s)"
  by (auto simp: stack_ok_def items_drop marked_drop live_drop remove1_idem)

lemma stack_ok_push: "stack_ok s \<Longrightarrow> live s p \<Longrightarrow>
    stack_ok (push p s) \<and> items (push p s) = p # remove1 p (items s)"
  using stack_ok_drop [of s p]
  by (auto simp: stack_ok_def push_eq_items marked_push live_push)

end

section \<open>Flag words\<close>

text \<open>The flags of a pane that are changed both from its window and by the input it reads.\<close>

definition PANE_REDRAW :: u32 where "PANE_REDRAW = 0x1"
definition PANE_CHANGED :: u32 where "PANE_CHANGED = 0x80"
definition PANE_STYLECHANGED :: u32 where "PANE_STYLECHANGED = 0x1000"
definition PANE_THEMECHANGED :: u32 where "PANE_THEMECHANGED = 0x2000"
definition PANE_UNSEENCHANGES :: u32 where "PANE_UNSEENCHANGES = 0x4000"

lemma flag_or_and [flag_simps]: "(f OR m) AND m = (m :: u32)"
  by (rule bit_word_eqI) (auto simp: bit_simps)

lemma flag_andnot_and [flag_simps]: "(f AND NOT m) AND m = (0 :: u32)"
  by (rule bit_word_eqI) (auto simp: bit_simps)

lemma flag_or_disjoint [flag_simps]: "m AND n = 0 \<Longrightarrow> (f OR m) AND n = f AND (n :: u32)"
  by (simp add: bit.conj_disj_distrib2)

lemma flag_andnot_disjoint [flag_simps]: "m AND n = 0 \<Longrightarrow> (f AND NOT m) AND n = f AND (n :: u32)"
proof (rule bit_word_eqI)
  fix i
  assume "m AND n = 0"
  then have "bit (m AND n) i = bit (0 :: u32) i" by simp
  then show "bit ((f AND NOT m) AND n) i = bit (f AND n) i"
    by (auto simp: bit_and_iff bit_not_iff dest: bit_imp_le_length)
qed

section \<open>Lists\<close>

lemma find_SomeD: "find P xs = Some x \<Longrightarrow> x \<in> set xs \<and> P x"
  by (auto simp: find_Some_iff)

lemma distinct_map_inj:
  "distinct (map f xs) \<Longrightarrow> x \<in> set xs \<Longrightarrow> y \<in> set xs \<Longrightarrow> f x = f y \<Longrightarrow> x = y"
  by (auto simp: distinct_map inj_on_def)

lemma find_distinct_map:
  "distinct (map f xs) \<Longrightarrow> find (\<lambda>x. f x = k) xs = Some x \<longleftrightarrow> x \<in> set xs \<and> f x = k"
  by (induction xs) auto

end
