(* ===== verification/Winlink.thy ===== *)
theory Winlink
  imports Prelude
begin

text \<open>
  The window links of \<^verbatim>\<open>windows/window.c\<close>: a session sees its windows through winlinks, which
  are kept in a tree ordered by index. A winlink is an object with an identity (its address,
  \<open>wl_ptr\<close>), because \<^verbatim>\<open>winlink_shuffle_up\<close> changes the index of a winlink that the session
  still points at through \<^verbatim>\<open>curw\<close> and through its stack of last windows.
\<close>

record winlink =
  wl_ptr :: nat
  wl_idx :: int
  wl_session :: "nat option"
  wl_window :: "nat option"
  wl_flags :: u32

type_synonym winlinks = "winlink list"

definition WINLINK_ALERTFLAGS :: u32 where "WINLINK_ALERTFLAGS = 7"
definition WINLINK_VISITED :: u32 where "WINLINK_VISITED = 8"

section \<open>Operations\<close>

definition winlink_find_by_window :: "winlinks \<Rightarrow> nat \<Rightarrow> winlink option" where
  "winlink_find_by_window wwl w = find (\<lambda>wl. wl_window wl = Some w) wwl"

definition winlink_find_by_window_id :: "winlinks \<Rightarrow> nat \<Rightarrow> winlink option" where
  "winlink_find_by_window_id wwl wid = find (\<lambda>wl. wl_window wl = Some wid) wwl"

text \<open>A negative index ends the process (\<^verbatim>\<open>fatalx\<close>): the callers below never pass one.\<close>

definition winlink_find_by_index :: "winlinks \<Rightarrow> int \<Rightarrow> winlink option" where
  "winlink_find_by_index wwl idx = rb_find wl_idx idx wwl"

text \<open>
  The loop of \<^verbatim>\<open>winlink_next_index\<close> from the current value \<open>i\<close>. Values outside the range
  of a non-negative C int cannot occur.
\<close>

function winlink_next_index_from :: "winlinks \<Rightarrow> int \<Rightarrow> int \<Rightarrow> int" where
  "winlink_next_index_from wwl idx i =
     (if \<not> (0 \<le> i \<and> i \<le> int_max \<and> 0 \<le> idx \<and> idx \<le> int_max) then - 1
      else if winlink_find_by_index wwl i = None then i
      else let j = (if i = int_max then 0 else i + 1)
           in if j = idx then - 1 else winlink_next_index_from wwl idx j)"
  by pat_completeness auto
termination
  by (relation "measure (\<lambda>(wwl, idx, i). nat (if idx \<le> i then int_max + 1 - i + idx else idx - i))")
    (auto simp: Let_def split: if_splits)

declare winlink_next_index_from.simps [simp del]

definition winlink_next_index :: "winlinks \<Rightarrow> int \<Rightarrow> int" where
  "winlink_next_index wwl idx = winlink_next_index_from wwl idx idx"

definition winlink_count :: "winlinks \<Rightarrow> nat" where
  "winlink_count wwl = length wwl"

text \<open>
  \<open>ptr\<close> is the address of the new zeroed object; the result is the new winlink and the
  tree, or \<open>None\<close> for the null result.
\<close>

definition winlink_add :: "nat \<Rightarrow> winlinks \<Rightarrow> int \<Rightarrow> (winlink \<times> winlinks) option" where
  "winlink_add ptr wwl idx =
     (let new = (\<lambda>i. \<lparr>wl_ptr = ptr, wl_idx = i, wl_session = None, wl_window = None,
                       wl_flags = 0\<rparr>)
      in if idx < 0 then
           (let i = winlink_next_index wwl (- idx - 1)
            in if i = - 1 then None else Some (new i, rb_insert wl_idx (new i) wwl))
         else if winlink_find_by_index wwl idx \<noteq> None then None
         else Some (new idx, rb_insert wl_idx (new idx) wwl))"

definition wl_deref :: "nat \<Rightarrow> winlinks \<Rightarrow> winlink option" where
  "wl_deref p wwl = find (\<lambda>wl. wl_ptr wl = p) wwl"

definition wl_update :: "nat \<Rightarrow> (winlink \<Rightarrow> winlink) \<Rightarrow> winlinks \<Rightarrow> winlinks" where
  "wl_update p f wwl = map (\<lambda>wl. if wl_ptr wl = p then f wl else wl) wwl"

definition winlink_next :: "winlinks \<Rightarrow> winlink \<Rightarrow> winlink option" where
  "winlink_next wwl wl = rb_next wl_idx (wl_idx wl) wwl"

definition winlink_previous :: "winlinks \<Rightarrow> winlink \<Rightarrow> winlink option" where
  "winlink_previous wwl wl = rb_prev wl_idx (wl_idx wl) wwl"

fun winlink_next_by_number :: "winlinks \<Rightarrow> winlink option \<Rightarrow> nat \<Rightarrow> winlink option" where
  "winlink_next_by_number wwl wl 0 = wl"
| "winlink_next_by_number wwl wl (Suc n) =
     winlink_next_by_number wwl
       (case wl of None \<Rightarrow> None
        | Some l \<Rightarrow> (case winlink_next wwl l of None \<Rightarrow> rb_min wwl | Some l' \<Rightarrow> Some l')) n"

fun winlink_previous_by_number :: "winlinks \<Rightarrow> winlink option \<Rightarrow> nat \<Rightarrow> winlink option" where
  "winlink_previous_by_number wwl wl 0 = wl"
| "winlink_previous_by_number wwl wl (Suc n) =
     winlink_previous_by_number wwl
       (case wl of None \<Rightarrow> None
        | Some l \<Rightarrow> (case winlink_previous wwl l of None \<Rightarrow> rb_max wwl | Some l' \<Rightarrow> Some l')) n"

text \<open>
  The stack of last windows. The flag of the winlink lives in the tree, the stack holds
  addresses, so the operations act on both.
\<close>

definition winlink_stack_remove :: "nat option \<Rightarrow> winlinks \<times> nat list \<Rightarrow> winlinks \<times> nat list" where
  "winlink_stack_remove wl st =
     (case st of (wwl, stack) \<Rightarrow>
      (case wl of None \<Rightarrow> (wwl, stack)
       | Some p \<Rightarrow>
          (case wl_deref p wwl of None \<Rightarrow> (wwl, stack)
           | Some l \<Rightarrow>
              if wl_flags l AND WINLINK_VISITED \<noteq> 0
              then (wl_update p (wl_flags_update (\<lambda>f. f AND NOT WINLINK_VISITED)) wwl,
                    remove1 p stack)
              else (wwl, stack))))"

definition winlink_stack_push :: "nat option \<Rightarrow> winlinks \<times> nat list \<Rightarrow> winlinks \<times> nat list" where
  "winlink_stack_push wl st =
     (case wl of None \<Rightarrow> st
      | Some p \<Rightarrow>
         (case winlink_stack_remove (Some p) st of (wwl, stack) \<Rightarrow>
            (wl_update p (wl_flags_update (\<lambda>f. f OR WINLINK_VISITED)) wwl, p # stack)))"

text \<open>The two loops of \<^verbatim>\<open>winlink_shuffle_up\<close>.\<close>

function shuffle_free :: "winlinks \<Rightarrow> int \<Rightarrow> int" where
  "shuffle_free wwl hi =
     (if hi < int_max \<and> winlink_find_by_index wwl hi \<noteq> None
      then shuffle_free wwl (hi + 1) else hi)"
  by pat_completeness auto
termination
  by (relation "measure (\<lambda>(wwl, hi). nat (int_max - hi))") auto

declare shuffle_free.simps [simp del]

function shuffle_move :: "winlinks \<Rightarrow> int \<Rightarrow> int \<Rightarrow> winlinks" where
  "shuffle_move wwl idx hi =
     (if hi > idx then
        (case winlink_find_by_index wwl (hi - 1) of
           None \<Rightarrow> wwl
         | Some wl \<Rightarrow>
             shuffle_move
               (rb_insert wl_idx (wl\<lparr>wl_idx := wl_idx wl + 1\<rparr>)
                  (rb_remove wl_idx (wl_idx wl) wwl)) idx (hi - 1))
      else wwl)"
  by pat_completeness auto
termination
  by (relation "measure (\<lambda>(wwl, idx, hi). nat (hi - idx))") auto

declare shuffle_move.simps [simp del]

text \<open>
  The outer \<open>None\<close> is the end of the process: \<open>wl->idx + 1\<close> overflows at the largest
  index, wraps to a negative index, and \<^verbatim>\<open>winlink_find_by_index\<close> calls \<^verbatim>\<open>fatalx\<close>.
  Otherwise the result is the returned index (\<open>-1\<close> for failure) and the new tree.
\<close>

definition winlink_shuffle_up :: "winlinks \<Rightarrow> winlink option \<Rightarrow> bool \<Rightarrow> (int \<times> winlinks) option" where
  "winlink_shuffle_up wwl wlo before =
     (case wlo of None \<Rightarrow> Some (- 1, wwl)
      | Some wl \<Rightarrow>
         if \<not> before \<and> wl_idx wl = int_max then None
         else
           (let idx = (if before then wl_idx wl else wl_idx wl + 1);
                hi = shuffle_free wwl idx
            in if hi = int_max then Some (- 1, wwl)
               else Some (idx, shuffle_move wwl idx hi)))"

section \<open>Well-formed trees of winlinks\<close>

definition winlinks_ok :: "winlinks \<Rightarrow> bool" where
  "winlinks_ok wwl \<longleftrightarrow> rb_ordered wl_idx wwl \<and> distinct (map wl_ptr wwl) \<and>
     (\<forall>wl \<in> set wwl. 0 \<le> wl_idx wl \<and> wl_idx wl \<le> int_max)"

text \<open>The index a winlink has after the indexes from \<open>idx\<close> up to \<open>hi - 1\<close> moved up.\<close>

definition bump :: "int \<Rightarrow> int \<Rightarrow> winlink \<Rightarrow> winlink" where
  "bump idx hi wl = (if idx \<le> wl_idx wl \<and> wl_idx wl < hi
     then wl\<lparr>wl_idx := wl_idx wl + 1\<rparr> else wl)"

interpretation wls: ordered_table wl_idx "\<lambda>k t. winlink_find_by_index t k"
  "rb_insert wl_idx" "rb_remove wl_idx" "\<lambda>t. t"
  by unfold_locales
    (auto simp: winlink_find_by_index_def rb_find_Some_iff table_simps
      rb_ordered_insert rb_ordered_remove)

lemma winlinks_ok_ordered: "winlinks_ok wwl \<Longrightarrow> rb_ordered wl_idx wwl"
  by (simp add: winlinks_ok_def)

lemma winlinks_ok_ptr_inj:
  "winlinks_ok wwl \<Longrightarrow> x \<in> set wwl \<Longrightarrow> y \<in> set wwl \<Longrightarrow> wl_ptr x = wl_ptr y \<Longrightarrow> x = y"
  by (auto simp: winlinks_ok_def intro: distinct_map_inj)

lemma used_index_iff: "winlink_find_by_index wwl i \<noteq> None \<longleftrightarrow> i \<in> wl_idx ` set wwl"
  by (auto simp: winlink_find_by_index_def table_simps)

lemma used_index_ex: "(\<exists>y. winlink_find_by_index wwl i = Some y) \<longleftrightarrow> i \<in> wl_idx ` set wwl"
  using used_index_iff [of wwl i] by simp

subsection \<open>The next free index\<close>

lemma winlink_next_index_from_result:
  assumes "0 \<le> i" "i \<le> int_max" "0 \<le> idx" "idx \<le> int_max"
    and "\<forall>k. 0 \<le> k \<and> k < (i - idx) mod (int_max + 1) \<longrightarrow>
           (idx + k) mod (int_max + 1) \<in> wl_idx ` set wwl"
  shows "(let r = winlink_next_index_from wwl idx i in
      (r = - 1 \<and> {0..int_max} \<subseteq> wl_idx ` set wwl) \<or>
      (0 \<le> r \<and> r \<le> int_max \<and> winlink_find_by_index wwl r = None \<and>
       (\<forall>k. 0 \<le> k \<and> k < (r - idx) mod (int_max + 1) \<longrightarrow>
          (idx + k) mod (int_max + 1) \<in> wl_idx ` set wwl)))"
  using assms
proof (induction wwl idx i rule: winlink_next_index_from.induct)
  case (1 wwl idx i)
  let ?M = "int_max + 1"
  show ?case
  proof (cases "winlink_find_by_index wwl i = None")
    case True
    with "1.prems" show ?thesis by (simp add: winlink_next_index_from.simps [of wwl idx i])
  next
    case False
    then have used: "i \<in> wl_idx ` set wwl" using used_index_iff by blast
    define j where "j = (if i = int_max then 0 else i + 1)"
    have d: "(idx + (i - idx) mod ?M) mod ?M = i"
      using "1.prems"(1,2) by (simp add: mod_add_right_eq)
    have dj: "(j - idx) mod ?M = ((i - idx) mod ?M + 1) mod ?M"
      using "1.prems"(1,2) unfolding j_def by (auto simp: mod_simps algebra_simps)
    have all: "\<forall>k. 0 \<le> k \<and> k < (i - idx) mod ?M + 1 \<longrightarrow> (idx + k) mod ?M \<in> wl_idx ` set wwl"
    proof (intro allI impI)
      fix k
      assume k: "0 \<le> k \<and> k < (i - idx) mod ?M + 1"
      show "(idx + k) mod ?M \<in> wl_idx ` set wwl"
      proof (cases "k = (i - idx) mod ?M")
        case True
        with d used show ?thesis by simp
      next
        case False
        with k "1.prems"(5) show ?thesis by auto
      qed
    qed
    show ?thesis
    proof (cases "j = idx")
      case True
      then have "((i - idx) mod ?M + 1) mod ?M = 0" using dj by simp
      moreover have "0 \<le> (i - idx) mod ?M" "(i - idx) mod ?M < ?M" by simp_all
      ultimately have full: "(i - idx) mod ?M + 1 = ?M" by (smt (verit) mod_pos_pos_trivial)
      have "{0..int_max} \<subseteq> wl_idx ` set wwl"
      proof
        fix n
        assume n: "n \<in> {0..int_max}"
        have "(idx + (n - idx) mod ?M) mod ?M = n" using n by (simp add: mod_add_right_eq)
        moreover have "0 \<le> (n - idx) mod ?M" "(n - idx) mod ?M < (i - idx) mod ?M + 1"
          unfolding full by simp_all
        ultimately show "n \<in> wl_idx ` set wwl" using all by metis
      qed
      with True False "1.prems" show ?thesis
        by (simp add: winlink_next_index_from.simps [of wwl idx i] j_def)
    next
      case neq: False
      have "0 \<le> j" "j \<le> int_max" using "1.prems"(1,2) by (auto simp: j_def)
      then have "(j - idx) mod ?M \<noteq> 0"
        using neq "1.prems"(3,4) by (smt (verit) mod_pos_pos_trivial mod_diff_left_eq minus_mod_eq_div_mult)
      then have "(j - idx) mod ?M = (i - idx) mod ?M + 1"
        using dj by (smt (verit) mod_pos_pos_trivial mod_self pos_mod_bound pos_mod_sign)
      with "1.IH" [OF _ False j_def neq] "1.prems" all \<open>0 \<le> j\<close> \<open>j \<le> int_max\<close>
      show ?thesis
        using False neq by (simp add: winlink_next_index_from.simps [of wwl idx i] flip: j_def)
    qed
  qed
qed

lemma winlinks_short: "winlinks_ok wwl \<Longrightarrow> int (length wwl) \<le> int_max \<Longrightarrow>
    \<not> {0..int_max} \<subseteq> wl_idx ` set wwl"
proof
  assume len: "int (length wwl) \<le> int_max" and all: "{0..int_max} \<subseteq> wl_idx ` set wwl"
  have "card {0..int_max} \<le> card (wl_idx ` set wwl)" by (rule card_mono [OF _ all]) simp
  also have "\<dots> \<le> card (set wwl)" by (rule card_image_le) simp
  also have "\<dots> \<le> length wwl" by (rule card_length)
  finally have "card {0..int_max} \<le> length wwl" .
  then show False using len by simp
qed

lemma winlink_next_index_first:
  assumes "winlinks_ok wwl" "int (length wwl) \<le> int_max" "0 \<le> idx" "idx \<le> int_max"
  shows "let r = winlink_next_index wwl idx in
      0 \<le> r \<and> r \<le> int_max \<and> winlink_find_by_index wwl r = None \<and>
      (\<forall>k. 0 \<le> k \<and> k < (r - idx) mod (int_max + 1) \<longrightarrow>
         winlink_find_by_index wwl ((idx + k) mod (int_max + 1)) \<noteq> None)"
proof -
  have start: "\<forall>k. 0 \<le> k \<and> k < (idx - idx) mod (int_max + 1) \<longrightarrow>
      (idx + k) mod (int_max + 1) \<in> wl_idx ` set wwl" by auto
  show ?thesis
    using winlink_next_index_from_result [OF assms(3,4,3,4) start] winlinks_short [OF assms(1,2)]
    by (simp add: winlink_next_index_def used_index_iff Let_def del: not_None_eq)
qed

subsection \<open>Adding a winlink\<close>

lemma winlink_add_Some:
  assumes "winlinks_ok wwl" "winlink_add ptr wwl idx = Some (wl, wwl')"
    "- int_max - 1 \<le> idx" "idx \<le> int_max"
  shows "winlink_find_by_index wwl (wl_idx wl) = None \<and> 0 \<le> wl_idx wl \<and> wl_idx wl \<le> int_max \<and>
     wwl' = rb_insert wl_idx wl wwl \<and> wl_ptr wl = ptr \<and> wl_window wl = None \<and> wl_session wl = None \<and>
     wl_flags wl = 0 \<and> (0 \<le> idx \<longrightarrow> wl_idx wl = idx)"
proof (cases "idx < 0")
  case True
  let ?i = "- idx - 1"
  have start: "\<forall>k. 0 \<le> k \<and> k < (?i - ?i) mod (int_max + 1) \<longrightarrow>
      (?i + k) mod (int_max + 1) \<in> wl_idx ` set wwl" by auto
  have range: "0 \<le> ?i" "?i \<le> int_max" using True assms(3) by auto
  show ?thesis
    using winlink_next_index_from_result [OF range range start] True assms(2)
    by (auto simp: winlink_add_def winlink_next_index_def Let_def split: if_splits)
next
  case False
  with assms(2,4) show ?thesis by (auto simp: winlink_add_def Let_def split: if_splits)
qed

lemma winlinks_ok_insert:
  assumes "winlinks_ok wwl" "winlink_find_by_index wwl (wl_idx wl) = None"
    "0 \<le> wl_idx wl" "wl_idx wl \<le> int_max" "wl_ptr wl \<notin> wl_ptr ` set wwl"
  shows "winlinks_ok (rb_insert wl_idx wl wwl)"
proof -
  have "set (rb_insert wl_idx wl wwl) = insert wl (set wwl)"
    using assms(1,2) wls.insert_set winlinks_ok_ordered by auto
  moreover have "length (rb_insert wl_idx wl wwl) = Suc (length wwl)"
    using assms(2) by (induction wwl) (auto simp: winlink_find_by_index_def rb_find_def)
  moreover have "distinct (map wl_ptr (rb_insert wl_idx wl wwl))"
    using assms(1,2,5) 
    by (auto simp: winlinks_ok_def)
      (metis calculation card_image card_insert_disjoint card_distinct distinct_card
        distinct_map finite_set image_insert length_map list.set_map finite_imageI)
  ultimately show ?thesis
    using assms wls.ordered_insert by (auto simp: winlinks_ok_def)
qed

subsection \<open>Shuffling indexes up\<close>

lemma bump_simps [simp]:
  "wl_ptr (bump a b wl) = wl_ptr wl" "wl_window (bump a b wl) = wl_window wl"
  "wl_flags (bump a b wl) = wl_flags wl" "wl_session (bump a b wl) = wl_session wl"
  by (simp_all add: bump_def)

lemma shuffle_free_ge: "n \<le> shuffle_free wwl n"
proof (induction wwl n rule: shuffle_free.induct)
  case (1 wwl n)
  then show ?case by (subst shuffle_free.simps) (auto intro: order_trans [rotated])
qed

lemma shuffle_free_used: "n \<le> i \<Longrightarrow> i < shuffle_free wwl n \<Longrightarrow> i \<in> wl_idx ` set wwl"
proof (induction wwl n rule: shuffle_free.induct)
  case (1 wwl n)
  show ?case
  proof (cases "n < int_max \<and> winlink_find_by_index wwl n \<noteq> None")
    case True
    then have eq: "shuffle_free wwl n = shuffle_free wwl (n + 1)"
      by (subst shuffle_free.simps) simp
    show ?thesis
    proof (cases "i = n")
      case True
      with \<open>n < int_max \<and> _\<close> show ?thesis using used_index_iff by blast
    next
      case False
      with "1.IH" [OF True] "1.prems" eq show ?thesis by simp
    qed
  next
    case False
    then have "shuffle_free wwl n = n" by (subst shuffle_free.simps) auto
    with "1.prems" show ?thesis by simp
  qed
qed

lemma shuffle_free_free:
  "n \<le> int_max \<Longrightarrow> shuffle_free wwl n \<noteq> int_max \<Longrightarrow>
     shuffle_free wwl n < int_max \<and> winlink_find_by_index wwl (shuffle_free wwl n) = None"
proof (induction wwl n rule: shuffle_free.induct)
  case (1 wwl n)
  show ?case
  proof (cases "n < int_max \<and> winlink_find_by_index wwl n \<noteq> None")
    case True
    then have eq: "shuffle_free wwl n = shuffle_free wwl (n + 1)"
      by (subst shuffle_free.simps) simp
    with "1.IH" [OF True] "1.prems" True show ?thesis by simp
  next
    case False
    then have "shuffle_free wwl n = n" by (subst shuffle_free.simps) auto
    with "1.prems" False show ?thesis by auto
  qed
qed

text \<open>One round of the moving loop is the bump of a single index.\<close>

lemma move_one:
  assumes "rb_ordered wl_idx wwl" "winlink_find_by_index wwl n = Some wl"
    and free: "winlink_find_by_index wwl (n + 1) = None"
  shows "rb_insert wl_idx (wl\<lparr>wl_idx := wl_idx wl + 1\<rparr>) (rb_remove wl_idx (wl_idx wl) wwl)
       = map (bump n (n + 1)) wwl"
proof -
  from assms(2) have wl: "wl \<in> set wwl" "wl_idx wl = n"
    using rb_find_SomeD unfolding winlink_find_by_index_def by fast+
  then obtain xs ys where split: "wwl = xs @ wl # ys" by (auto dest: split_list)
  with assms(1) wl have lo: "\<forall>y \<in> set xs. wl_idx y < n" and hi: "\<forall>y \<in> set ys. n < wl_idx y"
    by (auto simp: rb_ordered_append rb_ordered_Cons)
  from free split have "\<forall>y \<in> set ys. wl_idx y \<noteq> n + 1"
    by (auto simp: winlink_find_by_index_def table_simps)
  with hi have hi': "\<forall>y \<in> set ys. n + 1 < wl_idx y" by fastforce
  from lo hi wl have "\<forall>y \<in> set xs \<union> set ys. wl_idx y \<noteq> wl_idx wl" by auto
  then have "rb_remove wl_idx (wl_idx wl) wwl = xs @ ys"
    unfolding split rb_remove_def by (simp add: filter_id_conv)
  moreover have "rb_insert wl_idx (wl\<lparr>wl_idx := wl_idx wl + 1\<rparr>) (xs @ ys)
      = xs @ wl\<lparr>wl_idx := wl_idx wl + 1\<rparr> # ys"
    using lo hi' wl by (intro rb_insert_split) auto
  moreover have "map (bump n (n + 1)) wwl = xs @ wl\<lparr>wl_idx := wl_idx wl + 1\<rparr> # ys"
    using lo hi wl unfolding split by (auto simp: bump_def intro!: map_idI)
  ultimately show ?thesis by simp
qed

lemma rb_ordered_bump:
  assumes "rb_ordered wl_idx wwl" "winlink_find_by_index wwl hi = None"
  shows "rb_ordered wl_idx (map (bump n hi) wwl)"
proof -
  have "wl_idx (bump n hi x) < wl_idx (bump n hi y)"
    if "x \<in> set wwl" "y \<in> set wwl" "wl_idx x < wl_idx y" for x y
    using that assms(2) by (auto simp: bump_def winlink_find_by_index_def table_simps)
  then show ?thesis
    using assms(1) unfolding rb_ordered_def sorted_wrt_map map_map
    by (auto intro: sorted_wrt_mono_rel [rotated])
qed

lemma shuffle_move_eq:
  assumes "rb_ordered wl_idx wwl" "idx \<le> hi" "\<forall>i. idx \<le> i \<and> i < hi \<longrightarrow> i \<in> wl_idx ` set wwl"
    "winlink_find_by_index wwl hi = None"
  shows "shuffle_move wwl idx hi = map (bump idx hi) wwl"
  using assms
proof (induction wwl idx hi rule: shuffle_move.induct)
  case (1 wwl idx hi)
  show ?case
  proof (cases "hi > idx")
    case False
    then have "map (bump idx hi) wwl = wwl" by (intro map_idI) (auto simp: bump_def)
    with False show ?thesis by (simp add: shuffle_move.simps [of wwl idx hi])
  next
    case True
    with "1.prems"(3) obtain wl where wl: "winlink_find_by_index wwl (hi - 1) = Some wl"
      using used_index_ex by (metis le_add_diff_inverse2 zle_diff1_eq zless_add1_eq order_refl)
    let ?wwl = "map (bump (hi - 1) hi) wwl"
    have one: "rb_insert wl_idx (wl\<lparr>wl_idx := wl_idx wl + 1\<rparr>) (rb_remove wl_idx (wl_idx wl) wwl) = ?wwl"
      using move_one [OF "1.prems"(1) wl] "1.prems"(4) by simp
    have "rb_ordered wl_idx ?wwl" using rb_ordered_bump "1.prems"(1,4) by blast
    moreover have "\<forall>i. idx \<le> i \<and> i < hi - 1 \<longrightarrow> i \<in> wl_idx ` set ?wwl"
    proof (intro allI impI)
      fix i
      assume i: "idx \<le> i \<and> i < hi - 1"
      then obtain y where "y \<in> set wwl" "wl_idx y = i" using "1.prems"(3) by force
      with i show "i \<in> wl_idx ` set ?wwl" by (force simp: bump_def image_iff)
    qed
    moreover have "winlink_find_by_index ?wwl (hi - 1) = None"
      by (auto simp: winlink_find_by_index_def table_simps bump_def)
    ultimately have "shuffle_move ?wwl idx (hi - 1) = map (bump idx (hi - 1)) ?wwl"
      using "1.IH" [OF True wl] True one by simp
    moreover have "map (bump idx (hi - 1)) ?wwl = map (bump idx hi) wwl"
      using True by (auto simp: bump_def)
    ultimately show ?thesis
      using True wl one by (simp add: shuffle_move.simps [of wwl idx hi])
  qed
qed

text \<open>What a successful shuffle does to the tree, in one equation.\<close>

lemma winlink_shuffle_up_eq:
  assumes "winlinks_ok wwl" "wl \<in> set wwl" "winlink_shuffle_up wwl (Some wl) before = Some (idx, wwl')"
    "idx \<noteq> - 1"
  shows "idx = (if before then wl_idx wl else wl_idx wl + 1) \<and>
     shuffle_free wwl idx < int_max \<and>
     wwl' = map (bump idx (shuffle_free wwl idx)) wwl"
proof -
  let ?i = "if before then wl_idx wl else wl_idx wl + 1"
  from assms(1,2) have "wl_idx wl \<le> int_max" by (simp add: winlinks_ok_def)
  with assms(3,4) have le: "?i \<le> int_max" and ne: "shuffle_free wwl ?i \<noteq> int_max"
    and eq: "idx = ?i" "wwl' = shuffle_move wwl ?i (shuffle_free wwl ?i)"
    by (auto simp: winlink_shuffle_up_def Let_def split: if_splits)
  have "shuffle_move wwl ?i (shuffle_free wwl ?i) = map (bump ?i (shuffle_free wwl ?i)) wwl"
    using shuffle_free_free [OF le ne] shuffle_free_ge shuffle_free_used
    by (intro shuffle_move_eq winlinks_ok_ordered assms(1)) blast+
  with eq shuffle_free_free [OF le ne] show ?thesis by simp
qed

lemma winlinks_ok_bump:
  assumes "winlinks_ok wwl" "winlink_find_by_index wwl hi = None" "hi \<le> int_max" 
  shows "winlinks_ok (map (bump n hi) wwl)"
  using assms rb_ordered_bump [OF winlinks_ok_ordered [OF assms(1)] assms(2), of n]
  by (auto simp: winlinks_ok_def comp_def) (auto simp: bump_def)

lemma winlink_flag_facts [flag_simps, simp]:
  "WINLINK_VISITED \<noteq> 0" "WINLINK_ALERTFLAGS \<noteq> 0"
  "WINLINK_ALERTFLAGS AND WINLINK_VISITED = 0" "WINLINK_VISITED AND WINLINK_ALERTFLAGS = 0"
  by (simp_all add: WINLINK_VISITED_def WINLINK_ALERTFLAGS_def)

section \<open>The stack of last windows as a most-recently-used stack\<close>

lemma wl_update_simps [simp]:
  "map wl_ptr (wl_update p (wl_flags_update f) wwl) = map wl_ptr wwl"
  "map wl_idx (wl_update p (wl_flags_update f) wwl) = map wl_idx wwl"
  "map wl_window (wl_update p (wl_flags_update f) wwl) = map wl_window wwl"
  by (induction wwl) (auto simp: wl_update_def)

lemma wl_deref_update:
  "distinct (map wl_ptr wwl) \<Longrightarrow> (\<And>l. wl_ptr (f l) = wl_ptr l) \<Longrightarrow>
    wl_deref q (wl_update p f wwl) = (if q = p then map_option f (wl_deref p wwl) else wl_deref q wwl)"
  by (induction wwl) (auto simp: wl_deref_def wl_update_def)

definition wl_live :: "winlinks \<times> nat list \<Rightarrow> nat \<Rightarrow> bool" where
  "wl_live st p \<longleftrightarrow> distinct (map wl_ptr (fst st)) \<and> wl_deref p (fst st) \<noteq> None"

definition wl_marked :: "winlinks \<times> nat list \<Rightarrow> nat \<Rightarrow> bool" where
  "wl_marked st p \<longleftrightarrow>
     (case wl_deref p (fst st) of None \<Rightarrow> False | Some l \<Rightarrow> wl_flags l AND WINLINK_VISITED \<noteq> 0)"

lemma stack_remove_shape:
  assumes "wl_live st p"
  shows "winlink_stack_remove (Some p) st =
    (if wl_marked st p
     then (wl_update p (wl_flags_update (\<lambda>f. f AND NOT WINLINK_VISITED)) (fst st), remove1 p (snd st))
     else st)"
  using assms
  by (cases st) (auto simp: winlink_stack_remove_def wl_live_def wl_marked_def split: option.splits)

lemma stack_push_shape:
  "winlink_stack_push (Some p) st =
     (wl_update p (wl_flags_update (\<lambda>f. f OR WINLINK_VISITED)) (fst (winlink_stack_remove (Some p) st)),
      p # snd (winlink_stack_remove (Some p) st))"
  by (simp add: winlink_stack_push_def split: prod.splits)

lemma wl_live_update [simp]:
  "wl_live (wl_update p (wl_flags_update f) wwl, stack) q \<longleftrightarrow> wl_live (wwl, stack') q"
  by (auto simp: wl_live_def wl_deref_update split: if_splits)

interpretation lastw: mru_stack snd wl_marked wl_live
  "\<lambda>p. winlink_stack_push (Some p)" "\<lambda>p. winlink_stack_remove (Some p)"
proof unfold_locales
  fix s p q
  assume live: "wl_live s p"
  note shape = stack_remove_shape [OF live]
  show "snd (winlink_stack_remove (Some p) s) = (if wl_marked s p then remove1 p (snd s) else snd s)"
    by (simp add: shape)
  show live': "wl_live (winlink_stack_remove (Some p) s) q = wl_live s q" for q
    by (auto simp: shape wl_live_def wl_deref_update split: if_splits)
  show "wl_marked (winlink_stack_remove (Some p) s) q = (wl_marked s q \<and> q \<noteq> p)"
    using live by (auto simp: shape wl_marked_def wl_live_def wl_deref_update flag_simps
        split: option.splits)
  show "snd (winlink_stack_push (Some p) s) = p # snd (winlink_stack_remove (Some p) s)"
    by (simp add: stack_push_shape)
  show "wl_live (winlink_stack_push (Some p) s) q = wl_live s q"
    using live' [of q] by (auto simp: stack_push_shape wl_live_def wl_deref_update split: if_splits)
  show "wl_marked (winlink_stack_push (Some p) s) q = (wl_marked s q \<or> q = p)" if "wl_live s q"
    using live that
    by (auto simp: shape stack_push_shape wl_marked_def wl_live_def wl_deref_update flag_simps
        split: option.splits)
qed

section \<open>Properties\<close>

text \<open>
  C31. \<^verbatim>\<open>winlink_add\<close> keeps the tree well formed and adds exactly one unlinked winlink with the
  given address. With a non-negative index it fails exactly when that index is taken; with a
  negative one it never fails (a tree holds fewer than \<open>2\<^sup>3\<^sup>1\<close> winlinks) and takes the first
  free index in the cyclic order that starts at \<open>-idx - 1\<close>.
\<close>

theorem winlink_add_correct:
  assumes "winlinks_ok wwl" "int (length wwl) \<le> int_max" "ptr \<notin> wl_ptr ` set wwl"
    "- int_max - 1 \<le> idx" "idx \<le> int_max"
  shows "case winlink_add ptr wwl idx of
      None \<Rightarrow> 0 \<le> idx \<and> winlink_find_by_index wwl idx \<noteq> None
    | Some (wl, wwl') \<Rightarrow>
        winlinks_ok wwl' \<and> set wwl' = insert wl (set wwl) \<and> wl \<notin> set wwl \<and>
        wl_ptr wl = ptr \<and> wl_window wl = None \<and>
        winlink_find_by_index wwl' (wl_idx wl) = Some wl \<and>
        (0 \<le> idx \<longrightarrow> wl_idx wl = idx) \<and>
        (idx < 0 \<longrightarrow> (\<forall>k. 0 \<le> k \<and> k < (wl_idx wl - (- idx - 1)) mod (int_max + 1) \<longrightarrow>
           winlink_find_by_index wwl ((- idx - 1 + k) mod (int_max + 1)) \<noteq> None))"
proof (cases "winlink_add ptr wwl idx")
  case None
  with assms winlink_next_index_first [OF assms(1,2), of "- idx - 1"] show ?thesis
    by (auto simp: winlink_add_def Let_def split: if_splits)
next
  case (Some r)
  obtain wl wwl' where r: "r = (wl, wwl')" by (cases r)
  note add = winlink_add_Some [OF assms(1) Some [unfolded r] assms(4,5)]
  have "winlinks_ok wwl'" using add assms(1,3) winlinks_ok_insert by blast
  moreover have "set wwl' = insert wl (set wwl)" "winlink_find_by_index wwl' (wl_idx wl) = Some wl"
    using add wls.insert_set wls.find_insert_same winlinks_ok_ordered [OF assms(1)] by auto
  moreover have "idx < 0 \<longrightarrow> wl_idx wl = winlink_next_index wwl (- idx - 1)"
    using Some r by (auto simp: winlink_add_def Let_def split: if_splits)
  ultimately show ?thesis
    using Some r add assms winlink_next_index_first [OF assms(1,2), of "- idx - 1"]
    by (auto simp: Let_def)
qed

definition demo_wl :: "nat \<Rightarrow> int \<Rightarrow> nat \<Rightarrow> winlink" where
  "demo_wl p i w = \<lparr>wl_ptr = p, wl_idx = i, wl_session = Some 0, wl_window = Some w, wl_flags = 0\<rparr>"

theorem winlink_add_correct_witness:
  "winlink_add 9 [demo_wl 1 0 5, demo_wl 2 1 6] (- 1) =
     Some (\<lparr>wl_ptr = 9, wl_idx = 2, wl_session = None, wl_window = None, wl_flags = 0\<rparr>,
       [demo_wl 1 0 5, demo_wl 2 1 6,
        \<lparr>wl_ptr = 9, wl_idx = 2, wl_session = None, wl_window = None, wl_flags = 0\<rparr>]) \<and>
   winlinks_ok (snd (the (winlink_add 9 [demo_wl 1 0 5, demo_wl 2 1 6] (- 1))))"
proof -
  have run: "winlink_add 9 [demo_wl 1 0 5, demo_wl 2 1 6] (- 1) =
     Some (\<lparr>wl_ptr = 9, wl_idx = 2, wl_session = None, wl_window = None, wl_flags = 0\<rparr>,
       [demo_wl 1 0 5, demo_wl 2 1 6,
        \<lparr>wl_ptr = 9, wl_idx = 2, wl_session = None, wl_window = None, wl_flags = 0\<rparr>])"
    by (simp add: winlink_add_def winlink_next_index_def winlink_next_index_from.simps
        winlink_find_by_index_def rb_find_def demo_wl_def)
  have "winlinks_ok [demo_wl 1 0 5, demo_wl 2 1 6]"
    by (simp add: winlinks_ok_def rb_ordered_def demo_wl_def)
  then show ?thesis
    using winlink_add_correct [of "[demo_wl 1 0 5, demo_wl 2 1 6]" 9 "- 1"] run
    by (simp add: demo_wl_def)
qed

text \<open>
  C32. \<^verbatim>\<open>winlink_shuffle_up\<close> makes room without reordering: the objects, their windows and their
  order are the same afterwards, the returned index is the requested one and is free, and only
  the winlinks of the contiguous run that starts there have moved, each up by one.
\<close>

theorem winlink_shuffle_up_makes_room:
  assumes "winlinks_ok wwl" "wl \<in> set wwl" "winlink_shuffle_up wwl (Some wl) before = Some (idx, wwl')"
    "idx \<noteq> - 1"
  shows "idx = (if before then wl_idx wl else wl_idx wl + 1) \<and> winlinks_ok wwl' \<and>
     map wl_ptr wwl' = map wl_ptr wwl \<and> map wl_window wwl' = map wl_window wwl \<and>
     winlink_find_by_index wwl' idx = None \<and>
     (\<exists>hi. map wl_idx wwl' =
        map (\<lambda>i. if idx \<le> i \<and> i < hi then i + 1 else i) (map wl_idx wwl) \<and>
        {idx..<hi} \<subseteq> wl_idx ` set wwl)"
proof -
  let ?hi = "shuffle_free wwl idx"
  note eq = winlink_shuffle_up_eq [OF assms]
  have le: "idx \<le> int_max" using eq shuffle_free_ge [of idx wwl] by linarith
  have free: "winlink_find_by_index wwl ?hi = None" "?hi < int_max"
    using shuffle_free_free [OF le] eq by auto
  have "winlinks_ok wwl'" using winlinks_ok_bump [OF assms(1) free(1)] free(2) eq by simp
  moreover have "winlink_find_by_index wwl' idx = None"
    using free(1) shuffle_free_ge [of idx wwl] eq
    by (auto simp: winlink_find_by_index_def table_simps bump_def)
  moreover have "map wl_idx wwl' = map (\<lambda>i. if idx \<le> i \<and> i < ?hi then i + 1 else i) (map wl_idx wwl)"
    using eq by (auto simp: bump_def)
  moreover have "{idx..<?hi} \<subseteq> wl_idx ` set wwl" using shuffle_free_used by auto
  ultimately show ?thesis using eq by (auto simp: comp_def)
qed

theorem winlink_shuffle_up_makes_room_witness:
  "winlink_shuffle_up [demo_wl 1 0 5, demo_wl 2 1 6, demo_wl 3 4 7] (Some (demo_wl 1 0 5)) True =
     Some (0, [demo_wl 1 1 5, demo_wl 2 2 6, demo_wl 3 4 7]) \<and>
   winlinks_ok [demo_wl 1 1 5, demo_wl 2 2 6, demo_wl 3 4 7]"
proof -
  have run: "winlink_shuffle_up [demo_wl 1 0 5, demo_wl 2 1 6, demo_wl 3 4 7] (Some (demo_wl 1 0 5)) True =
     Some (0, [demo_wl 1 1 5, demo_wl 2 2 6, demo_wl 3 4 7])"
    by (simp add: winlink_shuffle_up_def shuffle_free.simps shuffle_move.simps rb_remove_def
        winlink_find_by_index_def rb_find_def demo_wl_def)
  have "winlinks_ok [demo_wl 1 0 5, demo_wl 2 1 6, demo_wl 3 4 7]"
    by (simp add: winlinks_ok_def rb_ordered_def demo_wl_def)
  from winlink_shuffle_up_makes_room [OF this _ run] run show ?thesis by simp
qed

end
