(* ===== verification/Utf8.thy ===== *)
theory Utf8
  imports Prelude
begin

text \<open>
  The packed characters of \<^verbatim>\<open>terminal/utf8.c\<close>. A cell keeps a character as a 32-bit
  \<^verbatim>\<open>utf8_char\<close>: up to three bytes are stored inline, longer ones are interned in a global
  table and stored as its index; five bits hold the size and three the width plus one. The
  table (\<^verbatim>\<open>utf8_data_tree\<close>, \<^verbatim>\<open>utf8_index_tree\<close>, \<^verbatim>\<open>utf8_next_index\<close>) is explicit state.
\<close>

record utf8_data =
  ud_data :: "u8 list"
  ud_have :: u8
  ud_size :: u8
  ud_width :: u8

record utf8_item =
  ui_index :: nat
  ui_data :: "u8 list"

record utf8_table =
  utf8_items :: "utf8_item list"
  utf8_next_index :: nat

datatype utf8_state = UTF8_MORE | UTF8_DONE | UTF8_ERROR

abbreviation UTF8_SIZE :: nat where "UTF8_SIZE \<equiv> 32"

section \<open>Operations\<close>

definition utf8_item_by_data :: "utf8_table \<Rightarrow> u8 list \<Rightarrow> nat \<Rightarrow> utf8_item option" where
  "utf8_item_by_data tab bytes n = find (\<lambda>ui. ui_data ui = take n bytes) (utf8_items tab)"

definition utf8_item_by_index :: "utf8_table \<Rightarrow> nat \<Rightarrow> utf8_item option" where
  "utf8_item_by_index tab i = find (\<lambda>ui. ui_index ui = i) (utf8_items tab)"

definition utf8_put_item :: "utf8_table \<Rightarrow> u8 list \<Rightarrow> nat \<Rightarrow> nat option \<times> utf8_table" where
  "utf8_put_item tab bytes n =
     (case utf8_item_by_data tab bytes n of
        Some ui \<Rightarrow> (Some (ui_index ui), tab)
      | None \<Rightarrow>
          if utf8_next_index tab = 0xffffff + 1 then (None, tab)
          else (Some (utf8_next_index tab),
                \<lparr>utf8_items = \<lparr>ui_index = utf8_next_index tab, ui_data = take n bytes\<rparr> # utf8_items tab,
                 utf8_next_index = utf8_next_index tab + 1\<rparr>))"

definition UTF8_GET_SIZE :: "u32 \<Rightarrow> u32" where
  "UTF8_GET_SIZE uc = drop_bit 24 uc AND 0x1f"

definition UTF8_GET_WIDTH :: "u32 \<Rightarrow> u32" where
  "UTF8_GET_WIDTH uc = drop_bit 29 uc - 1"

definition UTF8_SET_SIZE :: "u32 \<Rightarrow> u32" where
  "UTF8_SET_SIZE sz = push_bit 24 sz"

definition UTF8_SET_WIDTH :: "u32 \<Rightarrow> u32" where
  "UTF8_SET_WIDTH width = push_bit 29 (width + 1)"

text \<open>The failing exit of \<^verbatim>\<open>utf8_from_data\<close>.\<close>

definition utf8_from_data_fail :: "u8 \<Rightarrow> u32" where
  "utf8_from_data_fail width =
     (if width = 0 then UTF8_SET_SIZE 0 OR UTF8_SET_WIDTH 0
      else if width = 1 then UTF8_SET_SIZE 1 OR UTF8_SET_WIDTH 1 OR 0x20
      else UTF8_SET_SIZE 1 OR UTF8_SET_WIDTH 1 OR 0x2020)"

text \<open>\<open>None\<close> is the \<^verbatim>\<open>fatalx\<close> on an impossible width.\<close>

definition utf8_from_data :: "utf8_table \<Rightarrow> utf8_data \<Rightarrow> (utf8_state \<times> u32 \<times> utf8_table) option" where
  "utf8_from_data tab ud =
     (if ud_width ud > 2 then None
      else if unat (ud_size ud) > UTF8_SIZE then Some (UTF8_ERROR, utf8_from_data_fail (ud_width ud), tab)
      else
        (let pack = (\<lambda>index. UTF8_SET_SIZE (ucast (ud_size ud)) OR UTF8_SET_WIDTH (ucast (ud_width ud)) OR index)
         in if ud_size ud \<le> 3 then
              Some (UTF8_DONE,
                pack (push_bit 16 (ucast (ud_data ud ! 2)) OR push_bit 8 (ucast (ud_data ud ! 1)) OR
                      ucast (ud_data ud ! 0)), tab)
            else
              (case utf8_put_item tab (ud_data ud) (unat (ud_size ud)) of
                 (None, tab') \<Rightarrow> Some (UTF8_ERROR, utf8_from_data_fail (ud_width ud), tab')
               | (Some i, tab') \<Rightarrow> Some (UTF8_DONE, pack (word_of_nat i), tab'))))"

definition utf8_to_data :: "utf8_table \<Rightarrow> u32 \<Rightarrow> utf8_data" where
  "utf8_to_data tab uc =
     (let size = ucast (UTF8_GET_SIZE uc); n = unat (UTF8_GET_SIZE uc)
      in \<lparr>ud_data =
            (if size \<le> (3 :: u8) then
               [ucast (uc AND 0xff), ucast (drop_bit 8 uc AND 0xff), ucast (drop_bit 16 uc)] @
               replicate (UTF8_SIZE - 3) 0
             else
               (case utf8_item_by_index tab (unat (uc AND 0xffffff)) of
                  None \<Rightarrow> replicate n 0x20 @ replicate (UTF8_SIZE - n) 0
                | Some ui \<Rightarrow> take n (ui_data ui @ replicate UTF8_SIZE 0) @ replicate (UTF8_SIZE - n) 0)),
          ud_have = size, ud_size = size, ud_width = ucast (UTF8_GET_WIDTH uc)\<rparr>)"

definition utf8_build_one :: "u8 \<Rightarrow> u32" where
  "utf8_build_one ch = UTF8_SET_SIZE 1 OR UTF8_SET_WIDTH 1 OR ucast ch"

definition utf8_set :: "u8 \<Rightarrow> utf8_data" where
  "utf8_set ch = \<lparr>ud_data = ch # replicate (UTF8_SIZE - 1) 0, ud_have = 1, ud_size = 1, ud_width = 1\<rparr>"

definition utf8_copy :: "utf8_data \<Rightarrow> utf8_data" where
  "utf8_copy from = from\<lparr>ud_data := take (unat (ud_size from)) (ud_data from) @
     replicate (UTF8_SIZE - unat (ud_size from)) 0\<rparr>"

section \<open>The interning table\<close>

definition utf8_table_ok :: "utf8_table \<Rightarrow> bool" where
  "utf8_table_ok tab \<longleftrightarrow> utf8_next_index tab \<le> 0xffffff + 1 \<and>
     distinct (map ui_index (utf8_items tab)) \<and>
     (\<forall>ui \<in> set (utf8_items tab). ui_index ui < utf8_next_index tab)"

text \<open>Every index the old table resolves, the new one resolves to the same bytes.\<close>

definition utf8_table_le :: "utf8_table \<Rightarrow> utf8_table \<Rightarrow> bool" where
  "utf8_table_le tab tab' \<longleftrightarrow>
     (\<forall>i ui. utf8_item_by_index tab i = Some ui \<longrightarrow> utf8_item_by_index tab' i = Some ui)"

lemma utf8_put_item_ok:
  assumes "utf8_table_ok tab" "utf8_put_item tab bytes n = (r, tab')"
  shows "utf8_table_ok tab' \<and> utf8_table_le tab tab'"
  using assms
  by (fastforce simp: utf8_put_item_def utf8_table_ok_def utf8_table_le_def utf8_item_by_index_def
      find_distinct_map split: option.splits if_splits)

lemma utf8_put_item_lookup:
  assumes "utf8_table_ok tab" "utf8_put_item tab bytes n = (Some i, tab')"
  shows "i < 2 ^ 24 \<and> (\<exists>ui. utf8_item_by_index tab' i = Some ui \<and> ui_data ui = take n bytes)"
  using assms
  by (auto simp: utf8_put_item_def utf8_table_ok_def utf8_item_by_index_def utf8_item_by_data_def
      find_distinct_map dest!: find_SomeD split: option.splits if_splits)

section \<open>The packed word\<close>

lemma less_pow_bit: "x < 2 ^ n \<Longrightarrow> bit (x :: u32) i \<Longrightarrow> n < 32 \<Longrightarrow> i < n"
proof -
  assume "x < 2 ^ n" "bit x i" "n < 32"
  then have "x AND mask n = x" by (simp add: mask_eq_iff_w2p word_size)
  with \<open>bit x i\<close> have "bit (x AND mask n) i" by simp
  then show ?thesis by (simp add: bit_simps)
qed

lemma pack_fields:
  assumes "s < 32" "w \<le> 2" "x < 2 ^ 24"
  defines "uc \<equiv> UTF8_SET_SIZE s OR UTF8_SET_WIDTH w OR x"
  shows "UTF8_GET_SIZE uc = s" "UTF8_GET_WIDTH uc = w" "uc AND 0xffffff = x"
proof -
  have s: "bit s i \<Longrightarrow> i < 5" for i using less_pow_bit [of s 5 i] assms(1) by simp
  have x: "bit x i \<Longrightarrow> i < 24" for i using less_pow_bit [of x 24 i] assms(3) by simp
  have "w + 1 < 2 ^ 3" using assms(2) by unat_arith
  then have w: "bit (w + 1) i \<Longrightarrow> i < 3" for i using less_pow_bit [of "w + 1" 3 i] by simp
  have m5: "(0x1f :: u32) = mask 5" and m24: "(0xffffff :: u32) = mask 24"
    by (simp_all add: mask_eq_exp_minus_1)
  show "UTF8_GET_SIZE uc = s"
    unfolding UTF8_GET_SIZE_def uc_def UTF8_SET_SIZE_def UTF8_SET_WIDTH_def m5
    by (rule bit_word_eqI) (auto simp: bit_simps dest: s x w)
  have "drop_bit 29 uc = w + 1"
    unfolding uc_def UTF8_SET_SIZE_def UTF8_SET_WIDTH_def
    by (rule bit_word_eqI) (auto simp: bit_simps dest: s x w)
  then show "UTF8_GET_WIDTH uc = w" by (simp add: UTF8_GET_WIDTH_def)
  show "uc AND 0xffffff = x"
    unfolding uc_def UTF8_SET_SIZE_def UTF8_SET_WIDTH_def m24
    by (rule bit_word_eqI) (auto simp: bit_simps dest: x)
qed

lemma pack_bytes_less: "push_bit 16 (ucast (c :: u8)) OR push_bit 8 (ucast (b :: u8)) OR ucast (a :: u8) < (2 ^ 24 :: u32)"
proof -
  let ?x = "push_bit 16 (ucast c) OR push_bit 8 (ucast b) OR (ucast a :: u32)"
  have "?x AND mask 24 = ?x"
    by (rule bit_word_eqI) (auto simp: bit_simps dest: bit_imp_le_length)
  then show ?thesis by (subst (asm) mask_eq_iff_w2p) (simp_all add: word_size)
qed

lemma unpack_bytes:
  fixes a b c :: u8
  assumes "uc AND 0xffffff = push_bit 16 (ucast c) OR push_bit 8 (ucast b) OR (ucast a :: u32)"
  shows "ucast (uc AND 0xff) = a" "ucast (drop_bit 8 uc AND 0xff) = b" "ucast (drop_bit 16 uc) = c"
proof -
  have m8: "(0xff :: u32) = mask 8" and m24: "(0xffffff :: u32) = mask 24"
    by (simp_all add: mask_eq_exp_minus_1)
  have uc: "bit uc i = (bit c (i - 16) \<and> 16 \<le> i \<or> bit b (i - 8) \<and> 8 \<le> i \<or> bit a i)" if "i < 24" for i
    using arg_cong [OF assms, of "\<lambda>z. bit z i"] that by (auto simp: m24 bit_simps)
  show "ucast (uc AND 0xff) = a" "ucast (drop_bit 8 uc AND 0xff) = b" "ucast (drop_bit 16 uc) = c"
    unfolding m8 by (rule bit_word_eqI; auto simp: bit_simps uc dest: bit_imp_le_length)+
qed

section \<open>Properties\<close>

text \<open>The bytes a character is made of, padded as the buffer is.\<close>

definition utf8_data_ok :: "utf8_data \<Rightarrow> bool" where
  "utf8_data_ok ud \<longleftrightarrow> length (ud_data ud) = UTF8_SIZE \<and> ud_width ud \<le> 2 \<and>
     drop (if ud_size ud \<le> 3 then 3 else unat (ud_size ud)) (ud_data ud) =
       replicate (UTF8_SIZE - (if ud_size ud \<le> 3 then 3 else unat (ud_size ud))) 0"

lemma utf8_data_split:
  assumes "utf8_data_ok ud" "unat (ud_size ud) \<le> UTF8_SIZE"
  shows "ud_data ud = (if ud_size ud \<le> 3
     then [ud_data ud ! 0, ud_data ud ! 1, ud_data ud ! 2] @ replicate (UTF8_SIZE - 3) 0
     else take (unat (ud_size ud)) (ud_data ud) @ replicate (UTF8_SIZE - unat (ud_size ud)) 0)"
proof -
  let ?n = "if ud_size ud \<le> 3 then 3 else unat (ud_size ud)"
  have "ud_data ud = take ?n (ud_data ud) @ drop ?n (ud_data ud)" by simp
  also have "drop ?n (ud_data ud) = replicate (UTF8_SIZE - ?n) 0"
    using assms(1) unfolding utf8_data_ok_def by blast
  finally have eq: "ud_data ud = take ?n (ud_data ud) @ replicate (UTF8_SIZE - ?n) 0" .
  have "take 3 (ud_data ud) = [ud_data ud ! 0, ud_data ud ! 1, ud_data ud ! 2]"
    using assms(1) by (simp add: utf8_data_ok_def take_Suc_conv_app_nth numeral_3_eq_3 numeral_2_eq_2)
  then show ?thesis using eq by (simp split: if_splits)
qed

lemma ucast_u8_u32 [simp]: "ucast (ucast (x :: u8) :: u32) = x"
  by (rule bit_word_eqI) (auto simp: bit_simps)

lemma unat_ucast_u32 [simp]: "unat (ucast (x :: u8) :: u32) = unat x"
proof -
  have "unat x < 256" using unsigned_less [of x] by simp
  then show ?thesis by (simp add: unsigned_ucast_eq take_bit_nat_def)
qed

lemma utf8_fields:
  assumes "utf8_data_ok ud" "unat (ud_size ud) < UTF8_SIZE" "x < 2 ^ 24"
  shows "UTF8_GET_SIZE (UTF8_SET_SIZE (ucast (ud_size ud)) OR UTF8_SET_WIDTH (ucast (ud_width ud)) OR x)
      = ucast (ud_size ud)"
    "UTF8_GET_WIDTH (UTF8_SET_SIZE (ucast (ud_size ud)) OR UTF8_SET_WIDTH (ucast (ud_width ud)) OR x)
      = ucast (ud_width ud)"
    "(UTF8_SET_SIZE (ucast (ud_size ud)) OR UTF8_SET_WIDTH (ucast (ud_width ud)) OR x) AND 0xffffff = x"
proof -
  have "(ucast (ud_size ud) :: u32) < 32" using assms(2) by (simp add: word_less_nat_alt)
  moreover have "(ucast (ud_width ud) :: u32) \<le> 2"
    using assms(1) by (simp add: word_le_nat_alt utf8_data_ok_def)
  ultimately show "UTF8_GET_SIZE (UTF8_SET_SIZE (ucast (ud_size ud)) OR UTF8_SET_WIDTH (ucast (ud_width ud)) OR x)
      = ucast (ud_size ud)"
    "UTF8_GET_WIDTH (UTF8_SET_SIZE (ucast (ud_size ud)) OR UTF8_SET_WIDTH (ucast (ud_width ud)) OR x)
      = ucast (ud_width ud)"
    "(UTF8_SET_SIZE (ucast (ud_size ud)) OR UTF8_SET_WIDTH (ucast (ud_width ud)) OR x) AND 0xffffff = x"
    using pack_fields assms(3) by blast+
qed

lemma utf8_to_data_inline:
  assumes "UTF8_GET_SIZE uc = ucast (ud_size ud)" "UTF8_GET_WIDTH uc = ucast (ud_width ud)"
    "uc AND 0xffffff =
       push_bit 16 (ucast (ud_data ud ! 2)) OR push_bit 8 (ucast (ud_data ud ! 1)) OR ucast (ud_data ud ! 0)"
    "utf8_data_ok ud" "ud_size ud \<le> 3"
  shows "utf8_to_data tab uc = ud\<lparr>ud_have := ud_size ud\<rparr>"
proof -
  have "unat (ud_size ud) \<le> UTF8_SIZE" using assms(5) by (simp add: word_le_nat_alt)
  from utf8_data_split [OF assms(4) this] assms(5)
  have d: "[ud_data ud ! 0, ud_data ud ! 1, ud_data ud ! 2] @ replicate (UTF8_SIZE - 3) 0 = ud_data ud"
    by simp
  have "utf8_to_data tab uc = \<lparr>ud_data = ud_data ud, ud_have = ud_size ud, ud_size = ud_size ud,
      ud_width = ud_width ud\<rparr>"
    unfolding utf8_to_data_def Let_def assms(1,2) unpack_bytes [OF assms(3)] d
    using assms(5) by simp
  then show ?thesis using assms(4) by (simp add: utf8_data_ok_def)
qed

lemma utf8_to_data_interned:
  assumes "UTF8_GET_SIZE uc = ucast (ud_size ud)" "UTF8_GET_WIDTH uc = ucast (ud_width ud)"
    "utf8_item_by_index tab (unat (uc AND 0xffffff)) = Some ui"
    "ui_data ui = take (unat (ud_size ud)) (ud_data ud)"
    "utf8_data_ok ud" "\<not> ud_size ud \<le> 3" "unat (ud_size ud) \<le> UTF8_SIZE"
  shows "utf8_to_data tab uc = ud\<lparr>ud_have := ud_size ud\<rparr>"
proof -
  from utf8_data_split [OF assms(5,7)] assms(6)
  have d: "take (unat (ud_size ud)) (ud_data ud) @ replicate (UTF8_SIZE - unat (ud_size ud)) 0 = ud_data ud"
    by simp
  have "utf8_to_data tab uc = \<lparr>ud_data = ud_data ud, ud_have = ud_size ud, ud_size = ud_size ud,
      ud_width = ud_width ud\<rparr>"
    unfolding utf8_to_data_def Let_def assms(1,2)
    using assms(5,6,7) by (simp add: assms(3,4) d utf8_data_ok_def)
  then show ?thesis using assms(5) by (simp add: utf8_data_ok_def)
qed

lemma utf8_to_from:
  assumes "utf8_table_ok tab" "utf8_data_ok ud" "unat (ud_size ud) < UTF8_SIZE"
    "utf8_from_data tab ud = Some (UTF8_DONE, uc, tab')" "utf8_table_le tab' later"
  shows "utf8_to_data later uc = ud\<lparr>ud_have := ud_size ud\<rparr> \<and> utf8_table_ok tab' \<and> utf8_table_le tab tab'"
proof (cases "ud_size ud \<le> 3")
  case True
  let ?x = "push_bit 16 (ucast (ud_data ud ! 2)) OR push_bit 8 (ucast (ud_data ud ! 1)) OR
    (ucast (ud_data ud ! 0) :: u32)"
  from True assms have uc: "tab' = tab"
    "uc = UTF8_SET_SIZE (ucast (ud_size ud)) OR UTF8_SET_WIDTH (ucast (ud_width ud)) OR ?x"
    by (auto simp: utf8_from_data_def Let_def split: if_splits)
  note f = utf8_fields [OF assms(2,3) pack_bytes_less, folded uc(2)]
  from utf8_to_data_inline [OF f assms(2) True] uc assms(1) show ?thesis
    by (simp add: utf8_table_le_def)
next
  case False
  with assms(3,4) obtain i where put: "utf8_put_item tab (ud_data ud) (unat (ud_size ud)) = (Some i, tab')"
    and uc: "uc = UTF8_SET_SIZE (ucast (ud_size ud)) OR UTF8_SET_WIDTH (ucast (ud_width ud)) OR word_of_nat i"
    by (auto simp: utf8_from_data_def Let_def split: if_splits prod.splits option.splits)
  from utf8_put_item_lookup [OF assms(1) put] obtain ui where i: "i < 2 ^ 24"
    and ui: "utf8_item_by_index tab' i = Some ui" "ui_data ui = take (unat (ud_size ud)) (ud_data ud)"
    by blast
  have ni: "unat (word_of_nat i :: u32) = i" using i by (simp add: unat_of_nat)
  then have "(word_of_nat i :: u32) < 2 ^ 24" using i by (simp add: word_less_nat_alt)
  note f = utf8_fields [OF assms(2,3) this, folded uc]
  have "utf8_item_by_index later (unat (uc AND 0xffffff)) = Some ui"
    using ui(1) assms(5) f(3) ni by (simp add: utf8_table_le_def)
  from utf8_to_data_interned [OF f(1,2) this ui(2) assms(2) False] assms(3)
    utf8_put_item_ok [OF assms(1) put]
  show ?thesis by simp
qed

text \<open>
  C38. A character of fewer than 32 bytes survives packing: when \<^verbatim>\<open>utf8_from_data\<close> succeeds,
  \<^verbatim>\<open>utf8_to_data\<close> gives the same bytes, size and width back, with the table it left and with
  every later table.
\<close>

theorem utf8_roundtrip:
  assumes "utf8_table_ok tab" "utf8_data_ok ud" "unat (ud_size ud) < UTF8_SIZE"
    "utf8_from_data tab ud = Some (UTF8_DONE, uc, tab')" "utf8_table_le tab' later"
  shows "utf8_to_data later uc = ud\<lparr>ud_have := ud_size ud\<rparr> \<and> utf8_table_ok tab' \<and> utf8_table_le tab tab'"
  by (rule utf8_to_from [OF assms])

definition demo_ud :: utf8_data where
  "demo_ud = \<lparr>ud_data = [0xf0, 0x9f, 0x98, 0x80] @ replicate 28 0, ud_have = 4, ud_size = 4, ud_width = 2\<rparr>"

definition demo_tab :: utf8_table where
  "demo_tab = \<lparr>utf8_items = [], utf8_next_index = 0\<rparr>"

theorem utf8_roundtrip_witness:
  "utf8_to_data (snd (snd (the (utf8_from_data demo_tab demo_ud))))
     (fst (snd (the (utf8_from_data demo_tab demo_ud)))) = demo_ud"
proof -
  obtain uc tab' where run: "utf8_from_data demo_tab demo_ud = Some (UTF8_DONE, uc, tab')"
    by (simp add: utf8_from_data_def demo_ud_def utf8_put_item_def utf8_item_by_data_def demo_tab_def Let_def)
  have "utf8_table_ok demo_tab" by (simp add: demo_tab_def utf8_table_ok_def)
  moreover have "utf8_data_ok demo_ud" by (simp add: demo_ud_def utf8_data_ok_def)
  moreover have "unat (ud_size demo_ud) < UTF8_SIZE" by (simp add: demo_ud_def)
  moreover have "utf8_table_le tab' tab'" by (simp add: utf8_table_le_def)
  ultimately have "utf8_to_data tab' uc = demo_ud\<lparr>ud_have := ud_size demo_ud\<rparr>"
    using utf8_roundtrip [OF _ _ _ run] by blast
  then have "utf8_to_data tab' uc = demo_ud" by (simp add: demo_ud_def)
  with run show ?thesis by (simp only: option.sel fst_conv snd_conv)
qed

text \<open>
  The bound of 32 bytes is needed: \<^verbatim>\<open>utf8_from_data\<close> accepts a character of exactly 32 bytes,
  whose size does not fit the five bits of the size field. It reports success, but the packed
  character reads back with size 0 and a width of 2 instead of 1.
\<close>

theorem utf8_size_32_lost:
  fixes bytes :: "u8 list"
  assumes "length bytes = UTF8_SIZE"
  defines "ud \<equiv> \<lparr>ud_data = bytes, ud_have = 32, ud_size = 32, ud_width = 1\<rparr>"
  shows "\<exists>uc tab'. utf8_from_data demo_tab ud = Some (UTF8_DONE, uc, tab') \<and>
     ud_size (utf8_to_data tab' uc) = 0 \<and> ud_width (utf8_to_data tab' uc) = 2"
  by (simp add: ud_def utf8_from_data_def utf8_put_item_def utf8_item_by_data_def demo_tab_def
      utf8_to_data_def UTF8_GET_SIZE_def UTF8_GET_WIDTH_def UTF8_SET_SIZE_def UTF8_SET_WIDTH_def Let_def)

theorem utf8_size_32_lost_witness:
  "\<exists>uc tab'. utf8_from_data demo_tab
       \<lparr>ud_data = replicate 32 0x61, ud_have = 32, ud_size = 32, ud_width = 1\<rparr> = Some (UTF8_DONE, uc, tab') \<and>
     ud_size (utf8_to_data tab' uc) = 0"
  using utf8_size_32_lost [of "replicate 32 0x61"] by auto

end
