(* ===== verification/Utf8_Decode.thy ===== *)
theory Utf8_Decode
  imports Utf8 "HOL-Library.Monad_Syntax"
begin

text \<open>
  Reading strings as UTF-8, \<^verbatim>\<open>terminal/utf8.c\<close>, with \<^verbatim>\<open>vis\<close> of \<^verbatim>\<open>compat/vis.c\<close> and \<^verbatim>\<open>clean_name\<close> of
  \<^verbatim>\<open>core/tmux.c\<close>. A C string is the list of its bytes without the final NUL. Every loop over a
  string has the same shape: open a sequence, append bytes while more are wanted, and when no valid
  character comes out step back to the byte after the first. \<open>None\<close> is a \<^verbatim>\<open>fatalx\<close>. The C library's
  \<^verbatim>\<open>mbtowc\<close> and \<^verbatim>\<open>wcwidth\<close> are parameters; \<^verbatim>\<open>char\<close> is signed.
\<close>

record utf8_env =
  utf8_no_width :: bool
  utf8_width_cache :: "(u32 \<times> nat) list"
  mbtowc :: "u8 list \<Rightarrow> u32 option"
  wcwidth :: "u32 \<Rightarrow> int"

section \<open>One character\<close>

definition ud_zero :: utf8_data where
  "ud_zero = \<lparr>ud_data = replicate UTF8_SIZE 0, ud_have = 0, ud_size = 0, ud_width = 0\<rparr>"

definition utf8_towc :: "utf8_env \<Rightarrow> utf8_data \<Rightarrow> u32 option" where
  "utf8_towc env ud = mbtowc env (take (unat (ud_size ud)) (ud_data ud))"

definition utf8_find_in_width_cache :: "utf8_env \<Rightarrow> u32 \<Rightarrow> nat option" where
  "utf8_find_in_width_cache env wc = map_of (utf8_width_cache env) wc"

definition utf8_width :: "utf8_env \<Rightarrow> utf8_data \<Rightarrow> nat option" where
  "utf8_width env ud =
     do { wc \<leftarrow> utf8_towc env ud;
          case utf8_find_in_width_cache env wc of
            Some w \<Rightarrow> Some w
          | None \<Rightarrow>
              (let w0 = wcwidth env wc;
                   w = (if w0 < 0 then (if wc \<ge> 0x80 \<and> wc \<le> 0x9f then 0 else 1) else w0)
               in if w \<ge> 0 \<and> w \<le> 0xff then Some (nat w) else None) }"

definition utf8_append :: "utf8_env \<Rightarrow> utf8_data \<Rightarrow> u8 \<Rightarrow> (utf8_state \<times> utf8_data) option" where
  "utf8_append env ud ch =
     (if ud_have ud \<ge> ud_size ud then None
      else if unat (ud_size ud) > UTF8_SIZE then None
      else
        (let ud1 = (if ud_have ud \<noteq> 0 \<and> ch AND 0xc0 \<noteq> 0x80 then ud\<lparr>ud_width := 0xff\<rparr> else ud);
             ud2 = ud1\<lparr>ud_data := (ud_data ud1)[unat (ud_have ud1) := ch], ud_have := ud_have ud1 + 1\<rparr>
         in if ud_have ud2 \<noteq> ud_size ud2 then Some (UTF8_MORE, ud2)
            else if utf8_no_width env then Some (UTF8_DONE, ud2)
            else if ud_width ud2 = 0xff then Some (UTF8_ERROR, ud2)
            else
              (case utf8_width env ud2 of
                 None \<Rightarrow> Some (UTF8_ERROR, ud2)
               | Some w \<Rightarrow> Some (UTF8_DONE, ud2\<lparr>ud_width := word_of_nat w\<rparr>))))"

definition utf8_open :: "utf8_env \<Rightarrow> u8 \<Rightarrow> (utf8_state \<times> utf8_data) option" where
  "utf8_open env ch =
     (let start = (\<lambda>n. map_option (\<lambda>(_, ud). (UTF8_MORE, ud)) (utf8_append env (ud_zero\<lparr>ud_size := n\<rparr>) ch))
      in if ch \<ge> 0xc2 \<and> ch \<le> 0xdf then start 2
         else if ch \<ge> 0xe0 \<and> ch \<le> 0xef then start 3
         else if ch \<ge> 0xf0 \<and> ch \<le> 0xf4 then start 4
         else Some (UTF8_ERROR, ud_zero))"

text \<open>The inner loop: append bytes while more are wanted. The bytes not read are left.\<close>

fun append_more :: "utf8_env \<Rightarrow> utf8_state \<Rightarrow> utf8_data \<Rightarrow> u8 list \<Rightarrow> (utf8_state \<times> utf8_data \<times> u8 list) option" where
  "append_more env m ud [] = Some (m, ud, [])"
| "append_more env m ud (ch # s) =
     (if m = UTF8_MORE then do { (m', ud') \<leftarrow> utf8_append env ud ch; append_more env m' ud' s }
      else Some (m, ud, ch # s))"

text \<open>
  The head of every loop: \<open>Some (m, ud, rest)\<close> when a sequence was opened, where \<open>rest\<close> follows it
  when \<open>m\<close> is \<open>UTF8_DONE\<close>. Otherwise the code steps back over the \<^verbatim>\<open>ud.have\<close> bytes read, which is to
  the start again (\<open>read_back\<close> below).
\<close>

definition utf8_read :: "utf8_env \<Rightarrow> u8 \<Rightarrow> u8 list \<Rightarrow> (utf8_state \<times> utf8_data \<times> u8 list) option option" where
  "utf8_read env ch s =
     do { (m, ud) \<leftarrow> utf8_open env ch;
          if m = UTF8_MORE then map_option Some (append_more env m ud s) else Some None }"

lemma append_more_shorter:
  "append_more env m ud s = Some (m', ud', rest) \<Longrightarrow> length rest \<le> length s"
  by (induction env m ud s rule: append_more.induct) (force split: if_splits option.splits simp: bind_eq_Some_conv)+

lemma read_shorter: "utf8_read env ch s = Some (Some (m, ud, rest)) \<Longrightarrow> length rest < Suc (length s)"
  by (auto simp: utf8_read_def bind_eq_Some_conv split: if_splits dest!: append_more_shorter)

section \<open>Strings\<close>

function utf8_isvalid :: "utf8_env \<Rightarrow> u8 list \<Rightarrow> bool option" where
  "utf8_isvalid env [] = Some True"
| "utf8_isvalid env (ch # s) =
     (case utf8_read env ch s of
        None \<Rightarrow> None
      | Some (Some (UTF8_DONE, ud, rest)) \<Rightarrow> utf8_isvalid env rest
      | Some (Some _) \<Rightarrow> Some False
      | Some None \<Rightarrow> if sint ch < 0x20 \<or> sint ch > 0x7e then Some False else utf8_isvalid env s)"
  by pat_completeness auto

termination by (relation "measure (length \<circ> snd)") (auto dest: read_shorter)

function utf8_fromcstr_loop :: "utf8_env \<Rightarrow> u8 list \<Rightarrow> utf8_data list option" where
  "utf8_fromcstr_loop env [] = Some []"
| "utf8_fromcstr_loop env (ch # s) =
     (case utf8_read env ch s of
        None \<Rightarrow> None
      | Some (Some (UTF8_DONE, ud, rest)) \<Rightarrow> map_option ((#) ud) (utf8_fromcstr_loop env rest)
      | Some _ \<Rightarrow> map_option ((#) (utf8_set ch)) (utf8_fromcstr_loop env s))"
  by pat_completeness auto

termination by (relation "measure (length \<circ> snd)") (auto dest: read_shorter)

text \<open>The array of characters ends with one of size 0.\<close>

definition utf8_fromcstr :: "utf8_env \<Rightarrow> u8 list \<Rightarrow> utf8_data list option" where
  "utf8_fromcstr env s = map_option (\<lambda>uds. uds @ [ud_zero]) (utf8_fromcstr_loop env s)"

fun utf8_tocstr :: "utf8_data list \<Rightarrow> u8 list" where
  "utf8_tocstr [] = []"
| "utf8_tocstr (ud # uds) =
     (if ud_size ud = 0 then [] else take (unat (ud_size ud)) (ud_data ud) @ utf8_tocstr uds)"

fun utf8_strlen :: "utf8_data list \<Rightarrow> nat" where
  "utf8_strlen [] = 0"
| "utf8_strlen (ud # uds) = (if ud_size ud = 0 then 0 else Suc (utf8_strlen uds))"

text \<open>\<open>n\<close> is \<open>-1\<close> for all of the string.\<close>

fun strwidth_from :: "int \<Rightarrow> int \<Rightarrow> u32 \<Rightarrow> utf8_data list \<Rightarrow> u32" where
  "strwidth_from n i width [] = width"
| "strwidth_from n i width (ud # uds) =
     (if ud_size ud = 0 then width
      else if n \<noteq> - 1 \<and> n = i then width
      else strwidth_from n (i + 1) (width + ucast (ud_width ud)) uds)"

definition utf8_strwidth :: "utf8_data list \<Rightarrow> int \<Rightarrow> u32" where
  "utf8_strwidth uds n = strwidth_from n 0 0 uds"

function cstrwidth_from :: "utf8_env \<Rightarrow> u32 \<Rightarrow> u8 list \<Rightarrow> u32 option" where
  "cstrwidth_from env width [] = Some width"
| "cstrwidth_from env width (ch # s) =
     (case utf8_read env ch s of
        None \<Rightarrow> None
      | Some (Some (UTF8_DONE, ud, rest)) \<Rightarrow> cstrwidth_from env (width + ucast (ud_width ud)) rest
      | Some _ \<Rightarrow> cstrwidth_from env (if sint ch > 0x1f \<and> sint ch \<noteq> 0x7f then width + 1 else width) s)"
  by pat_completeness auto

termination by (relation "measure (length \<circ> snd \<circ> snd)") (auto dest: read_shorter)

definition utf8_cstrwidth :: "utf8_env \<Rightarrow> u8 list \<Rightarrow> u32 option" where
  "utf8_cstrwidth env s = cstrwidth_from env 0 s"

definition utf8_padcstr :: "utf8_env \<Rightarrow> u8 list \<Rightarrow> u32 \<Rightarrow> u8 list option" where
  "utf8_padcstr env s width =
     do { n \<leftarrow> utf8_cstrwidth env s;
          if n \<ge> width then Some s else Some (s @ replicate (unat (width - n)) 0x20) }"

definition utf8_rpadcstr :: "utf8_env \<Rightarrow> u8 list \<Rightarrow> u32 \<Rightarrow> u8 list option" where
  "utf8_rpadcstr env s width =
     do { n \<leftarrow> utf8_cstrwidth env s;
          if n \<ge> width then Some s else Some (replicate (unat (width - n)) 0x20 @ s) }"

definition utf8_cstrhas :: "utf8_env \<Rightarrow> u8 list \<Rightarrow> utf8_data \<Rightarrow> bool option" where
  "utf8_cstrhas env s ud =
     do { copy \<leftarrow> utf8_fromcstr env s;
          Some (list_ex (\<lambda>u. ud_size u = ud_size ud \<and>
              take (unat (ud_size u)) (ud_data u) = take (unat (ud_size u)) (ud_data ud)) (takeWhile (\<lambda>u. ud_size u \<noteq> 0) copy)) }"

function utf8_sanitize :: "utf8_env \<Rightarrow> u8 list \<Rightarrow> u8 list option" where
  "utf8_sanitize env [] = Some []"
| "utf8_sanitize env (ch # s) =
     (case utf8_read env ch s of
        None \<Rightarrow> None
      | Some (Some (UTF8_DONE, ud, rest)) \<Rightarrow> map_option ((@) (replicate (unat (ud_width ud)) 0x5f)) (utf8_sanitize env rest)
      | Some _ \<Rightarrow> map_option ((#) (if sint ch > 0x1f \<and> sint ch < 0x7f then ch else 0x5f)) (utf8_sanitize env s))"
  by pat_completeness auto

termination by (relation "measure (length \<circ> snd)") (auto dest: read_shorter)

section \<open>Visual encoding\<close>

abbreviation VIS_OCTAL :: u32 where "VIS_OCTAL \<equiv> 0x01"
abbreviation VIS_CSTYLE :: u32 where "VIS_CSTYLE \<equiv> 0x02"
abbreviation VIS_SP :: u32 where "VIS_SP \<equiv> 0x04"
abbreviation VIS_TAB :: u32 where "VIS_TAB \<equiv> 0x08"
abbreviation VIS_NL :: u32 where "VIS_NL \<equiv> 0x10"
abbreviation VIS_SAFE :: u32 where "VIS_SAFE \<equiv> 0x20"
abbreviation VIS_NOSLASH :: u32 where "VIS_NOSLASH \<equiv> 0x40"
abbreviation VIS_GLOB :: u32 where "VIS_GLOB \<equiv> 0x100"
abbreviation VIS_DQ :: u32 where "VIS_DQ \<equiv> 0x200"
abbreviation VIS_ALL :: u32 where "VIS_ALL \<equiv> 0x400"

definition isgraph :: "u8 \<Rightarrow> bool" where
  "isgraph c \<longleftrightarrow> c \<ge> 0x21 \<and> c \<le> 0x7e"

definition isoctal :: "u8 \<Rightarrow> bool" where
  "isoctal c \<longleftrightarrow> c \<ge> 0x30 \<and> c \<le> 0x37"

text \<open>The first test excludes the bytes that are negative as an \<^verbatim>\<open>int\<close>.\<close>

definition isvisible :: "u8 \<Rightarrow> u32 \<Rightarrow> bool" where
  "isvisible c f \<longleftrightarrow> (c = 0x5c \<or> f AND VIS_ALL = 0) \<and>
     (c < 0x80 \<and> (c \<notin> {0x2a, 0x3f, 0x5b, 0x23} \<or> f AND VIS_GLOB = 0) \<and> isgraph c \<or>
      f AND VIS_SP = 0 \<and> c = 0x20 \<or> f AND VIS_TAB = 0 \<and> c = 0x09 \<or> f AND VIS_NL = 0 \<and> c = 0x0a \<or>
      f AND VIS_SAFE \<noteq> 0 \<and> (c = 0x08 \<or> c = 0x07 \<or> c = 0x0d \<or> isgraph c))"

definition vis_cstyle :: "u8 \<Rightarrow> u8 \<Rightarrow> u8 list option" where
  "vis_cstyle c nextc =
     (if c = 0x0a then Some [0x5c, 0x6e] else if c = 0x0d then Some [0x5c, 0x72]
      else if c = 0x08 then Some [0x5c, 0x62] else if c = 0x07 then Some [0x5c, 0x61]
      else if c = 0x0b then Some [0x5c, 0x76] else if c = 0x09 then Some [0x5c, 0x74]
      else if c = 0x0c then Some [0x5c, 0x66] else if c = 0x20 then Some [0x5c, 0x73]
      else if c = 0 then Some ([0x5c, 0x30] @ (if isoctal nextc then [0x30, 0x30] else []))
      else None)"

definition vis :: "u8 \<Rightarrow> u32 \<Rightarrow> u8 \<Rightarrow> u8 list" where
  "vis c f nextc =
     (if isvisible c f then
        (if c = 0x22 \<and> f AND VIS_DQ \<noteq> 0 \<or> c = 0x5c \<and> f AND VIS_NOSLASH = 0 then [0x5c] else []) @ [c]
      else
        (case (if f AND VIS_CSTYLE \<noteq> 0 then vis_cstyle c nextc else None) of
           Some bs \<Rightarrow> bs
         | None \<Rightarrow>
             if c AND 0x7f = 0x20 \<or> f AND VIS_OCTAL \<noteq> 0 \<or> f AND VIS_GLOB \<noteq> 0 \<and> c \<in> {0x2a, 0x3f, 0x5b, 0x23} then
               [0x5c, (drop_bit 6 c AND 7) + 0x30, (drop_bit 3 c AND 7) + 0x30, (c AND 7) + 0x30]
             else
               (let c' = c AND 0x7f
                in (if f AND VIS_NOSLASH = 0 then [0x5c] else []) @ (if c AND 0x80 \<noteq> 0 then [0x4d] else []) @
                   (if c' < 0x20 \<or> c' = 0x7f then [0x5e, if c' = 0x7f then 0x3f else c' + 0x40] else [0x2d, c']))))"

definition isalpha :: "u8 \<Rightarrow> bool" where
  "isalpha c \<longleftrightarrow> c \<ge> 0x41 \<and> c \<le> 0x5a \<or> c \<ge> 0x61 \<and> c \<le> 0x7a"

definition strvis_one :: "u32 \<Rightarrow> u8 \<Rightarrow> u8 list \<Rightarrow> u8 list" where
  "strvis_one f ch s =
     (if f AND VIS_DQ \<noteq> 0 \<and> ch = 0x24 \<and> s \<noteq> [] then
        (if isalpha (hd s) \<or> hd s = 0x5f \<or> hd s = 0x7b then [0x5c] else []) @ [0x24]
      else vis ch f (case s of [] \<Rightarrow> 0 | c # _ \<Rightarrow> c))"

function utf8_strvis :: "utf8_env \<Rightarrow> u32 \<Rightarrow> u8 list \<Rightarrow> u8 list option" where
  "utf8_strvis env f [] = Some []"
| "utf8_strvis env f (ch # s) =
     (case utf8_read env ch s of
        None \<Rightarrow> None
      | Some (Some (UTF8_DONE, ud, rest)) \<Rightarrow>
          map_option ((@) (take (unat (ud_size ud)) (ud_data ud))) (utf8_strvis env f rest)
      | Some _ \<Rightarrow> map_option ((@) (strvis_one f ch s)) (utf8_strvis env f s))"
  by pat_completeness auto

termination by (relation "measure (length \<circ> snd \<circ> snd)") (auto dest: read_shorter)

text \<open>Names of sessions, windows and buffers; \<open>forbid\<close> are the characters to replace.\<close>

definition clean_name :: "utf8_env \<Rightarrow> u8 list \<Rightarrow> u8 list \<Rightarrow> u8 list option option" where
  "clean_name env name forbid =
     (if name = [] then Some None
      else
        do { valid \<leftarrow> utf8_isvalid env name;
             if \<not> valid then Some None
             else
               do { out \<leftarrow> utf8_strvis env (VIS_OCTAL OR VIS_CSTYLE OR VIS_TAB OR VIS_NL)
                              (map (\<lambda>c. if c \<in> set forbid then 0x5f else c) name);
                    Some (Some out) } })"

section \<open>Reading loses no byte\<close>

text \<open>The bytes appended so far, and room for the rest.\<close>

definition ud_holds :: "utf8_data \<Rightarrow> u8 list \<Rightarrow> bool" where
  "ud_holds ud bytes \<longleftrightarrow> length (ud_data ud) = UTF8_SIZE \<and> ud_size ud \<le> 4 \<and> ud_have ud \<le> ud_size ud \<and>
     take (unat (ud_have ud)) (ud_data ud) = bytes"

lemma append_holds:
  assumes "ud_holds ud bytes" "ud_have ud < ud_size ud"
  shows "\<exists>m ud'. utf8_append env ud ch = Some (m, ud') \<and> ud_holds ud' (bytes @ [ch]) \<and> ud_size ud' = ud_size ud \<and>
    ud_have ud' = ud_have ud + 1 \<and> (m = UTF8_MORE \<longleftrightarrow> ud_have ud' \<noteq> ud_size ud)"
proof -
  let ?h = "ud_have ud"
  have s: "unat (ud_size ud) \<le> 4" using assms(1) by (simp add: ud_holds_def word_le_nat_alt)
  have h: "unat ?h < unat (ud_size ud)" using assms(2) by (simp add: word_less_nat_alt)
  with s have "unat ?h < 4" by linarith
  then have h1: "unat (?h + 1) = Suc (unat ?h)" by (simp add: unat_word_ariths)
  have data: "take (Suc (unat ?h)) ((ud_data ud)[unat ?h := ch]) = bytes @ [ch]"
    using assms(1) h s by (simp add: ud_holds_def take_Suc_conv_app_nth)
  have le: "?h + 1 \<le> ud_size ud" using h h1 by (simp add: word_le_nat_alt)
  have "\<not> ud_size ud \<le> ?h" "\<not> UTF8_SIZE < unat (ud_size ud)" using h s by (simp_all add: word_le_nat_alt)
  then have "\<exists>m ud'. utf8_append env ud ch = Some (m, ud') \<and> ud_data ud' = (ud_data ud)[unat ?h := ch] \<and>
      ud_have ud' = ?h + 1 \<and> ud_size ud' = ud_size ud \<and> (m = UTF8_MORE \<longleftrightarrow> ?h + 1 \<noteq> ud_size ud)"
    by (simp add: utf8_append_def Let_def split: option.split)
  then show ?thesis using assms(1) data le h1 unfolding ud_holds_def by (metis length_list_update)
qed

lemma append_more_holds:
  assumes "ud_holds ud bytes" "m = UTF8_MORE \<longleftrightarrow> ud_have ud \<noteq> ud_size ud"
  shows "\<exists>m' ud' rest bs. append_more env m ud s = Some (m', ud', rest) \<and> ud_holds ud' (bytes @ bs) \<and> s = bs @ rest \<and>
    ud_size ud' = ud_size ud \<and> (m' = UTF8_MORE \<longleftrightarrow> ud_have ud' \<noteq> ud_size ud')"
  using assms
proof (induction s arbitrary: m ud bytes)
  case Nil
  then show ?case by (intro exI [of _ m] exI [of _ ud] exI [of _ "[]"]) simp
next
  case (Cons ch s)
  show ?case
  proof (cases "m = UTF8_MORE")
    case True
    with Cons.prems have "ud_have ud < ud_size ud" by (simp add: ud_holds_def order.strict_iff_order)
    from append_holds [OF Cons.prems(1) this, of env ch] obtain m1 ud1 where ud1:
      "utf8_append env ud ch = Some (m1, ud1)" "ud_holds ud1 (bytes @ [ch])" "ud_size ud1 = ud_size ud"
      "m1 = UTF8_MORE \<longleftrightarrow> ud_have ud1 \<noteq> ud_size ud1"
      by auto
    from Cons.IH [OF ud1(2,4)] obtain m' ud' rest bs where
      "append_more env m1 ud1 s = Some (m', ud', rest) \<and> ud_holds ud' ((bytes @ [ch]) @ bs) \<and> s = bs @ rest \<and>
      ud_size ud' = ud_size ud1 \<and> (m' = UTF8_MORE \<longleftrightarrow> ud_have ud' \<noteq> ud_size ud')"
      by blast
    with True ud1 have "append_more env m ud (ch # s) = Some (m', ud', rest) \<and> ud_holds ud' (bytes @ ch # bs) \<and>
        ch # s = (ch # bs) @ rest \<and> ud_size ud' = ud_size ud \<and> (m' = UTF8_MORE \<longleftrightarrow> ud_have ud' \<noteq> ud_size ud')"
      by auto
    then show ?thesis by blast
  next
    case False
    with Cons.prems show ?thesis by (intro exI [of _ m] exI [of _ ud] exI [of _ "ch # s"] exI [of _ "[]"]) simp
  qed
qed

lemma open_holds:
  "utf8_open env ch = Some (UTF8_ERROR, ud_zero) \<or>
   (\<exists>ud. utf8_open env ch = Some (UTF8_MORE, ud) \<and> ud_holds ud [ch] \<and> ud_have ud \<noteq> ud_size ud \<and> ud_size ud \<noteq> 0)"
proof -
  have start: "\<exists>ud. map_option (\<lambda>(_, ud). (UTF8_MORE, ud)) (utf8_append env (ud_zero\<lparr>ud_size := n\<rparr>) ch) = Some (UTF8_MORE, ud) \<and>
      ud_holds ud [ch] \<and> ud_have ud \<noteq> ud_size ud \<and> ud_size ud \<noteq> 0"
    if "n = 2 \<or> n = 3 \<or> n = 4" for n
  proof -
    have "ud_holds (ud_zero\<lparr>ud_size := n\<rparr>) []" "ud_have (ud_zero\<lparr>ud_size := n\<rparr>) < ud_size (ud_zero\<lparr>ud_size := n\<rparr>)"
      using that by (auto simp: ud_holds_def ud_zero_def)
    from append_holds [OF this, of env ch] show ?thesis using that by (auto simp: ud_zero_def)
  qed
  show ?thesis
  proof (cases "utf8_open env ch = Some (UTF8_ERROR, ud_zero)")
    case False
    then obtain n where "n = 2 \<or> n = 3 \<or> n = 4"
        "utf8_open env ch = map_option (\<lambda>(_, ud). (UTF8_MORE, ud)) (utf8_append env (ud_zero\<lparr>ud_size := n\<rparr>) ch)"
      by (auto simp: utf8_open_def Let_def split: if_splits)
    with start [of n] show ?thesis by auto
  qed simp
qed

text \<open>
  Reading from a string never fails; a sequence that was opened has kept its bytes, so that stepping
  back over them, when they are no character, is stepping back to where the reading began.
\<close>

lemma read_holds:
  "utf8_read env ch s = Some None \<or>
   (\<exists>m ud rest bs. utf8_read env ch s = Some (Some (m, ud, rest)) \<and> ud_holds ud bs \<and> ch # s = bs @ rest \<and>
      ud_size ud \<noteq> 0 \<and> (m = UTF8_DONE \<longrightarrow> ud_have ud = ud_size ud))"
  using open_holds [of env ch]
proof (elim disjE exE conjE)
  fix ud
  assume o: "utf8_open env ch = Some (UTF8_MORE, ud)" "ud_holds ud [ch]" "ud_have ud \<noteq> ud_size ud" "ud_size ud \<noteq> 0"
  from append_more_holds [OF o(2), of UTF8_MORE env s] o(3) obtain m' ud' rest bs where
    "append_more env UTF8_MORE ud s = Some (m', ud', rest)" "ud_holds ud' ([ch] @ bs)" "s = bs @ rest"
    "ud_size ud' = ud_size ud" "m' = UTF8_MORE \<longleftrightarrow> ud_have ud' \<noteq> ud_size ud'"
    by blast
  then have "utf8_read env ch s = Some (Some (m', ud', rest)) \<and> ud_holds ud' (ch # bs) \<and> ch # s = (ch # bs) @ rest \<and>
      ud_size ud' \<noteq> 0 \<and> (m' = UTF8_DONE \<longrightarrow> ud_have ud' = ud_size ud')"
    using o by (auto simp: utf8_read_def)
  then show ?thesis by blast
qed (simp add: utf8_read_def)

lemma read_back:
  "utf8_read env ch s = Some (Some (m, ud, rest)) \<Longrightarrow> ch # s = take (unat (ud_have ud)) (ch # s) @ rest"
proof -
  assume r: "utf8_read env ch s = Some (Some (m, ud, rest))"
  with read_holds [of env ch s] obtain bs where bs: "ud_holds ud bs" "ch # s = bs @ rest" by auto
  then have "length bs = unat (ud_have ud)"
    by (auto simp: ud_holds_def word_le_nat_alt)
  with bs(2) show ?thesis by simp
qed

lemma read_done:
  assumes "utf8_read env ch s = Some (Some (UTF8_DONE, ud, rest))"
  shows "take (unat (ud_size ud)) (ud_data ud) @ rest = ch # s" "ud_size ud \<noteq> 0"
  using read_holds [of env ch s] assms by (auto simp: ud_holds_def)

lemma fromcstr_loop_bytes:
  "\<exists>uds. utf8_fromcstr_loop env s = Some uds \<and> utf8_tocstr (uds @ [ud_zero]) = s"
proof (induction env s rule: utf8_fromcstr_loop.induct)
  case (1 env)
  then show ?case by (simp add: ud_zero_def)
next
  case (2 env ch s)
  have one: "utf8_tocstr (utf8_set ch # uds) = ch # utf8_tocstr uds" for uds by (simp add: utf8_set_def)
  from read_holds [of env ch s] consider "utf8_read env ch s = Some None"
    | m ud rest where "utf8_read env ch s = Some (Some (m, ud, rest))" by blast
  then show ?case
  proof cases
    case 1
    then show ?thesis using 2(1) [OF 1] one by (cases "utf8_fromcstr_loop env s") auto
  next
    case r: (2 m ud rest)
    show ?thesis
    proof (cases m)
      case UTF8_DONE
      with 2(3) [OF r refl refl _ refl] have "\<exists>uds. utf8_fromcstr_loop env rest = Some uds \<and> utf8_tocstr (uds @ [ud_zero]) = rest"
        by simp
      with r UTF8_DONE read_done [of env ch s ud rest] show ?thesis by auto
    next
      case UTF8_MORE
      with 2(2) [OF r refl refl] r one show ?thesis by auto
    next
      case UTF8_ERROR
      with 2(4) [OF r refl refl] r one show ?thesis by auto
    qed
  qed
qed

text \<open>
  C12. Splitting a string into characters and putting them together gives the string back, byte for
  byte, whatever the bytes are and whatever the C library says of their widths: no reading of a
  string runs into a \<^verbatim>\<open>fatalx\<close>, and a sequence that is cut short or is not UTF-8 is kept as single
  bytes.
\<close>

theorem utf8_fromcstr_tocstr: "\<exists>uds. utf8_fromcstr env s = Some uds \<and> utf8_tocstr uds = s"
  using fromcstr_loop_bytes [of env s] by (auto simp: utf8_fromcstr_def)

end
