(* ===== verification/Grid.thy ===== *)
theory Grid
  imports Utf8
begin

text \<open>
  The grid of \<^verbatim>\<open>screen/grid.c\<close>: an array of lines, the first \<^verbatim>\<open>hsize\<close> of them history, the next
  \<^verbatim>\<open>sy\<close> the visible screen. A line is an array of packed cell entries with a side array of
  extended entries. Arrays are lists (\<^verbatim>\<open>cellsize\<close> and \<^verbatim>\<open>extdsize\<close> are their lengths); freeing a
  line's arrays has no counterpart. Sizes and positions are natural numbers, colours, links
  and flags keep their machine width. \<open>None\<close> as the result of an operation is \<^verbatim>\<open>fatalx\<close>.
\<close>

abbreviation GRID_FLAG_FG256 :: u8 where "GRID_FLAG_FG256 \<equiv> 0x1"
abbreviation GRID_FLAG_BG256 :: u8 where "GRID_FLAG_BG256 \<equiv> 0x2"
abbreviation GRID_FLAG_PADDING :: u8 where "GRID_FLAG_PADDING \<equiv> 0x4"
abbreviation GRID_FLAG_EXTENDED :: u8 where "GRID_FLAG_EXTENDED \<equiv> 0x8"
abbreviation GRID_FLAG_CLEARED :: u8 where "GRID_FLAG_CLEARED \<equiv> 0x40"
abbreviation GRID_FLAG_TAB :: u8 where "GRID_FLAG_TAB \<equiv> 0x80"

abbreviation GRID_LINE_WRAPPED :: u32 where "GRID_LINE_WRAPPED \<equiv> 0x1"
abbreviation GRID_LINE_EXTENDED :: u32 where "GRID_LINE_EXTENDED \<equiv> 0x2"
abbreviation GRID_LINE_DEAD :: u32 where "GRID_LINE_DEAD \<equiv> 0x4"

abbreviation GRID_HISTORY :: u32 where "GRID_HISTORY \<equiv> 0x1"

abbreviation COLOUR_FLAG_256 :: u32 where "COLOUR_FLAG_256 \<equiv> 0x01000000"
abbreviation COLOUR_FLAG_RGB :: u32 where "COLOUR_FLAG_RGB \<equiv> 0x02000000"

definition COLOUR_DEFAULT :: "u32 \<Rightarrow> bool" where
  "COLOUR_DEFAULT c \<longleftrightarrow> c = 8 \<or> c = 9"

section \<open>Data\<close>

record grid_cell =
  gc_data :: utf8_data
  gc_attr :: u16
  gc_flags :: u8
  gc_fg :: u32
  gc_bg :: u32
  gc_us :: u32
  gc_link :: u32

record grid_extd_entry =
  gee_data :: u32
  gee_attr :: u16
  gee_flags :: u8
  gee_fg :: u32
  gee_bg :: u32
  gee_us :: u32
  gee_link :: u32

text \<open>The union of an entry: the offset of its extended entry, or the cell itself.\<close>

datatype gce_union =
    Offset nat
  | Data (gce_attr: u8) (gce_fg: u8) (gce_bg: u8) (gce_char: u8)

record grid_cell_entry =
  gce_u :: gce_union
  gce_flags :: u8

record grid_line =
  celldata :: "grid_cell_entry list"
  cellused :: nat
  extddata :: "grid_extd_entry list"
  gl_flags :: u32
  gl_time :: nat

record grid =
  gd_flags :: u32
  gd_sx :: nat
  gd_sy :: nat
  hscrolled :: nat
  hsize :: nat
  hlimit :: nat
  linedata :: "grid_line list"

abbreviation cellsize :: "grid_line \<Rightarrow> nat" where
  "cellsize gl \<equiv> length (celldata gl)"

abbreviation extdsize :: "grid_line \<Rightarrow> nat" where
  "extdsize gl \<equiv> length (extddata gl)"

definition zero_line :: grid_line where
  "zero_line = \<lparr>celldata = [], cellused = 0, extddata = [], gl_flags = 0, gl_time = 0\<rparr>"

definition zero_entry :: grid_cell_entry where
  "zero_entry = \<lparr>gce_u = Data 0 0 0 0, gce_flags = 0\<rparr>"

definition grid_default_cell :: grid_cell where
  "grid_default_cell = \<lparr>gc_data = \<lparr>ud_data = 0x20 # replicate 31 0, ud_have = 0, ud_size = 1, ud_width = 1\<rparr>,
     gc_attr = 0, gc_flags = 0, gc_fg = 8, gc_bg = 8, gc_us = 8, gc_link = 0\<rparr>"

definition grid_padding_cell :: grid_cell where
  "grid_padding_cell = \<lparr>gc_data = \<lparr>ud_data = 0x21 # replicate 31 0, ud_have = 0, ud_size = 0, ud_width = 0\<rparr>,
     gc_attr = 0, gc_flags = GRID_FLAG_PADDING, gc_fg = 8, gc_bg = 8, gc_us = 8, gc_link = 0\<rparr>"

definition grid_cleared_cell :: grid_cell where
  "grid_cleared_cell = \<lparr>gc_data = \<lparr>ud_data = 0x20 # replicate 31 0, ud_have = 0, ud_size = 1, ud_width = 1\<rparr>,
     gc_attr = 0, gc_flags = GRID_FLAG_CLEARED, gc_fg = 8, gc_bg = 8, gc_us = 8, gc_link = 0\<rparr>"

definition grid_cleared_entry :: grid_cell_entry where
  "grid_cleared_entry = \<lparr>gce_u = Data 0 8 8 0x20, gce_flags = GRID_FLAG_CLEARED\<rparr>"

section \<open>Cells and entries\<close>

definition grid_store_cell :: "grid_cell \<Rightarrow> u8 \<Rightarrow> grid_cell_entry" where
  "grid_store_cell gc c =
     \<lparr>gce_u = Data (ucast (gc_attr gc)) (ucast (gc_fg gc AND 0xff)) (ucast (gc_bg gc AND 0xff)) c,
      gce_flags = (gc_flags gc AND NOT GRID_FLAG_CLEARED)
        OR (if gc_fg gc AND COLOUR_FLAG_256 \<noteq> 0 then GRID_FLAG_FG256 else 0)
        OR (if gc_bg gc AND COLOUR_FLAG_256 \<noteq> 0 then GRID_FLAG_BG256 else 0)\<rparr>"

definition grid_need_extended_cell :: "grid_cell_entry \<Rightarrow> grid_cell \<Rightarrow> bool" where
  "grid_need_extended_cell gce gc \<longleftrightarrow>
     gce_flags gce AND GRID_FLAG_EXTENDED \<noteq> 0 \<or>
     gc_attr gc > 0xff \<or>
     ud_size (gc_data gc) > 1 \<or> ud_width (gc_data gc) > 1 \<or>
     gc_fg gc AND COLOUR_FLAG_RGB \<noteq> 0 \<or> gc_bg gc AND COLOUR_FLAG_RGB \<noteq> 0 \<or>
     gc_us gc \<noteq> 8 \<or> gc_link gc \<noteq> 0 \<or>
     gc_flags gc AND GRID_FLAG_TAB \<noteq> 0"

text \<open>The new slot of the side array is uninitialised memory, which the caller overwrites.\<close>

definition blank_extd :: grid_extd_entry where
  "blank_extd = \<lparr>gee_data = 0, gee_attr = 0, gee_flags = 0, gee_fg = 0, gee_bg = 0, gee_us = 0, gee_link = 0\<rparr>"

definition grid_get_extended_cell :: "grid_line \<Rightarrow> u8 \<Rightarrow> grid_line \<times> grid_cell_entry" where
  "grid_get_extended_cell gl flags =
     (gl\<lparr>extddata := extddata gl @ [blank_extd]\<rparr>,
      \<lparr>gce_u = Offset (extdsize gl), gce_flags = flags OR GRID_FLAG_EXTENDED\<rparr>)"

fun gce_offset :: "gce_union \<Rightarrow> nat" where
  "gce_offset (Offset n) = n"
| "gce_offset (Data a f b c) = unat a + 256 * unat f + 65536 * unat b + 16777216 * unat c"

fun gce_bytes :: "gce_union \<Rightarrow> u8 \<times> u8 \<times> u8 \<times> u8" where
  "gce_bytes (Offset n) = (word_of_nat n, word_of_nat (n div 256), word_of_nat (n div 65536),
     word_of_nat (n div 16777216))"
| "gce_bytes (Data a f b c) = (a, f, b, c)"

text \<open>
  Store \<open>gc\<close> as the extended entry of \<open>gce\<close>; the result is the table, the line and the entry.
\<close>

definition grid_extended_cell ::
  "utf8_table \<Rightarrow> grid_line \<Rightarrow> grid_cell_entry \<Rightarrow> grid_cell \<Rightarrow>
     (utf8_table \<times> grid_line \<times> grid_cell_entry) option" where
  "grid_extended_cell tab gl gce gc =
     (let flags = gc_flags gc AND NOT GRID_FLAG_CLEARED;
          (gl1, gce1) = (if gce_flags gce AND GRID_FLAG_EXTENDED = 0
                         then grid_get_extended_cell gl flags else (gl, gce));
          off = gce_offset (gce_u gce1)
      in if gce_flags gce AND GRID_FLAG_EXTENDED \<noteq> 0 \<and> off \<ge> extdsize gl then None
         else
           (case (if gc_flags gc AND GRID_FLAG_TAB \<noteq> 0
                  then Some (ucast (ud_width (gc_data gc)), tab)
                  else map_option snd (utf8_from_data tab (gc_data gc))) of
              None \<Rightarrow> None
            | Some (uc, tab') \<Rightarrow>
                Some (tab',
                  gl1\<lparr>gl_flags := gl_flags gl1 OR GRID_LINE_EXTENDED,
                      extddata := (extddata gl1)[off :=
                        \<lparr>gee_data = uc, gee_attr = gc_attr gc, gee_flags = flags, gee_fg = gc_fg gc,
                         gee_bg = gc_bg gc, gee_us = gc_us gc, gee_link = gc_link gc\<rparr>]\<rparr>,
                  gce1)))"

definition grid_set_tab :: "grid_cell \<Rightarrow> u8 \<Rightarrow> grid_cell" where
  "grid_set_tab gc width = gc\<lparr>
     gc_flags := (gc_flags gc OR GRID_FLAG_TAB) AND NOT GRID_FLAG_PADDING,
     gc_data := \<lparr>ud_data = replicate (unat width) 0x20 @ replicate (UTF8_SIZE - unat width) 0,
                 ud_have = width, ud_size = width, ud_width = width\<rparr>\<rparr>"

definition grid_get_cell1 :: "utf8_table \<Rightarrow> grid_line \<Rightarrow> nat \<Rightarrow> grid_cell" where
  "grid_get_cell1 tab gl px =
     (let gce = celldata gl ! px
      in if gce_flags gce AND GRID_FLAG_EXTENDED \<noteq> 0 then
           (let off = gce_offset (gce_u gce)
            in if off \<ge> extdsize gl then grid_default_cell
               else
                 (let gee = extddata gl ! off;
                      gc = \<lparr>gc_data = utf8_to_data tab (gee_data gee), gc_attr = gee_attr gee,
                            gc_flags = gee_flags gee, gc_fg = gee_fg gee, gc_bg = gee_bg gee,
                            gc_us = gee_us gee, gc_link = gee_link gee\<rparr>
                  in if gee_flags gee AND GRID_FLAG_TAB \<noteq> 0
                     then grid_set_tab gc (ucast (gee_data gee)) else gc))
         else
           (case gce_bytes (gce_u gce) of (a, f, b, c) \<Rightarrow>
                \<lparr>gc_data = utf8_set c, gc_attr = ucast a,
                 gc_flags = gce_flags gce AND NOT (GRID_FLAG_FG256 OR GRID_FLAG_BG256),
                 gc_fg = ucast f OR (if gce_flags gce AND GRID_FLAG_FG256 \<noteq> 0 then COLOUR_FLAG_256 else 0),
                 gc_bg = ucast b OR (if gce_flags gce AND GRID_FLAG_BG256 \<noteq> 0 then COLOUR_FLAG_256 else 0),
                 gc_us = 8, gc_link = 0\<rparr>))"

definition grid_cells_look_equal :: "grid_cell \<Rightarrow> grid_cell \<Rightarrow> bool" where
  "grid_cells_look_equal gc1 gc2 \<longleftrightarrow>
     gc_fg gc1 = gc_fg gc2 \<and> gc_bg gc1 = gc_bg gc2 \<and> gc_attr gc1 = gc_attr gc2 \<and>
     gc_flags gc1 AND NOT GRID_FLAG_CLEARED = gc_flags gc2 AND NOT GRID_FLAG_CLEARED \<and>
     gc_link gc1 = gc_link gc2"

definition grid_cells_equal :: "grid_cell \<Rightarrow> grid_cell \<Rightarrow> bool" where
  "grid_cells_equal gc1 gc2 \<longleftrightarrow>
     grid_cells_look_equal gc1 gc2 \<and>
     ud_width (gc_data gc1) = ud_width (gc_data gc2) \<and>
     ud_size (gc_data gc1) = ud_size (gc_data gc2) \<and>
     take (unat (ud_size (gc_data gc1))) (ud_data (gc_data gc1)) =
       take (unat (ud_size (gc_data gc1))) (ud_data (gc_data gc2))"

section \<open>Lines\<close>

text \<open>
  Free up unused extended cells: the loop over the entries, with the next free index and the
  new side array so far.
\<close>

fun compact_cells ::
  "grid_extd_entry list \<Rightarrow> grid_cell_entry list \<Rightarrow> grid_extd_entry list \<Rightarrow>
     grid_cell_entry list \<times> grid_extd_entry list" where
  "compact_cells old [] new = ([], new)"
| "compact_cells old (gce # gces) new =
     (if gce_flags gce AND GRID_FLAG_EXTENDED \<noteq> 0
      then (case compact_cells old gces (new @ [old ! gce_offset (gce_u gce)]) of
              (gces', new') \<Rightarrow> (gce\<lparr>gce_u := Offset (length new)\<rparr> # gces', new'))
      else (case compact_cells old gces new of (gces', new') \<Rightarrow> (gce # gces', new')))"

definition grid_compact_line :: "grid_line \<Rightarrow> grid_line" where
  "grid_compact_line gl =
     (if extddata gl = [] then gl
      else if \<forall>gce \<in> set (celldata gl). gce_flags gce AND GRID_FLAG_EXTENDED = 0
      then gl\<lparr>extddata := []\<rparr>
      else (case compact_cells (extddata gl) (celldata gl) [] of
              (gces, gees) \<Rightarrow> gl\<lparr>celldata := gces, extddata := gees\<rparr>))"

definition utf8_empty :: utf8_table where
  "utf8_empty = \<lparr>utf8_items = [], utf8_next_index = 0\<rparr>"

text \<open>
  \<^verbatim>\<open>grid_clear_cell\<close>. The cleared cell is a single byte, so storing it neither interns
  anything nor fails; \<open>None\<close> below cannot happen (\<open>grid_clear_cell_total\<close>).
\<close>

definition clear_extended :: "grid_line \<Rightarrow> nat \<Rightarrow> grid_cell_entry \<Rightarrow> u32 \<Rightarrow> grid_line" where
  "clear_extended gl px gce bg =
     (case grid_extended_cell utf8_empty gl gce grid_cleared_cell of
        None \<Rightarrow> gl
      | Some (_, gl', gce') \<Rightarrow>
          gl'\<lparr>celldata := (celldata gl')[px := gce'],
              extddata := (if bg \<noteq> 8
                then (extddata gl')[gce_offset (gce_u gce') :=
                       (extddata gl' ! gce_offset (gce_u gce'))\<lparr>gee_bg := bg\<rparr>]
                else extddata gl')\<rparr>)"

definition grid_clear_cell :: "grid_line \<Rightarrow> nat \<Rightarrow> u32 \<Rightarrow> bool \<Rightarrow> grid_line" where
  "grid_clear_cell gl px bg moved =
     (let gce = celldata gl ! px;
          old_offset = gce_offset (gce_u gce);
          had_extd = (gce_flags gce AND GRID_FLAG_EXTENDED \<noteq> 0)
      in if \<not> moved \<and> had_extd \<and> old_offset < extdsize gl then
           clear_extended gl px
             \<lparr>gce_u = Offset old_offset, gce_flags = GRID_FLAG_CLEARED OR GRID_FLAG_EXTENDED\<rparr> bg
         else if bg \<noteq> 8 then
           if bg AND COLOUR_FLAG_RGB \<noteq> 0 then
             (case grid_get_extended_cell gl GRID_FLAG_CLEARED of (gl1, gce1) \<Rightarrow>
                clear_extended gl1 px gce1 bg)
           else
             gl\<lparr>celldata := (celldata gl)[px :=
                 \<lparr>gce_u = Data 0 8 (ucast bg) 0x20,
                  gce_flags = GRID_FLAG_CLEARED OR
                    (if bg AND COLOUR_FLAG_256 \<noteq> 0 then GRID_FLAG_BG256 else 0)\<rparr>]\<rparr>
         else gl\<lparr>celldata := (celldata gl)[px := grid_cleared_entry]\<rparr>)"

text \<open>The part of \<^verbatim>\<open>grid_expand_line\<close> that acts on the line; \<open>gsx\<close> is the grid's width.\<close>

definition expand_to :: "nat \<Rightarrow> nat \<Rightarrow> nat" where
  "expand_to gsx sx =
     (if sx < gsx div 4 then gsx div 4
      else if sx < gsx div 2 then gsx div 2
      else if gsx > sx then gsx else sx)"

definition grid_expand_line :: "nat \<Rightarrow> grid_line \<Rightarrow> nat \<Rightarrow> u32 \<Rightarrow> grid_line" where
  "grid_expand_line gsx gl sx bg =
     (if sx \<le> cellsize gl then gl
      else let n = expand_to gsx sx
           in fold (\<lambda>xx gl. grid_clear_cell gl xx bg False) [cellsize gl..<n]
                (gl\<lparr>celldata := celldata gl @ replicate (n - cellsize gl) zero_entry\<rparr>))"

definition empty_line :: "nat \<Rightarrow> u32 \<Rightarrow> grid_line" where
  "empty_line gsx bg = (if COLOUR_DEFAULT bg then zero_line else grid_expand_line gsx zero_line gsx bg)"

section \<open>The grid\<close>

abbreviation set_line :: "nat \<Rightarrow> grid_line \<Rightarrow> grid \<Rightarrow> grid" where
  "set_line py gl gd \<equiv> gd\<lparr>linedata := (linedata gd)[py := gl]\<rparr>"

text \<open>\<^verbatim>\<open>xreallocarray\<close> of the line array (fresh slots are written before they are read) and \<^verbatim>\<open>memmove\<close>.\<close>

definition resize_lines :: "nat \<Rightarrow> grid_line list \<Rightarrow> grid_line list" where
  "resize_lines n ls = take n ls @ replicate (n - length ls) zero_line"

definition move_lines :: "nat \<Rightarrow> nat \<Rightarrow> nat \<Rightarrow> grid_line list \<Rightarrow> grid_line list" where
  "move_lines dst src n ls = take dst ls @ take n (drop src ls) @ drop (dst + n) ls"

definition grid_adjust_lines :: "grid \<Rightarrow> nat \<Rightarrow> grid" where
  "grid_adjust_lines gd lines = gd\<lparr>linedata := resize_lines lines (linedata gd)\<rparr>"

definition grid_empty_line :: "grid \<Rightarrow> nat \<Rightarrow> u32 \<Rightarrow> grid" where
  "grid_empty_line gd py bg = set_line py (empty_line (gd_sx gd) bg) gd"

definition grid_check_y :: "grid \<Rightarrow> nat \<Rightarrow> bool" where
  "grid_check_y gd py \<longleftrightarrow> py < hsize gd + gd_sy gd"

definition grid_create :: "nat \<Rightarrow> nat \<Rightarrow> nat \<Rightarrow> grid" where
  "grid_create sx sy hl =
     \<lparr>gd_flags = (if hl \<noteq> 0 then GRID_HISTORY else 0), gd_sx = sx, gd_sy = sy, hscrolled = 0,
      hsize = 0, hlimit = hl, linedata = replicate sy zero_line\<rparr>"

definition grid_peek_line :: "grid \<Rightarrow> nat \<Rightarrow> grid_line option" where
  "grid_peek_line gd py = (if grid_check_y gd py then Some (linedata gd ! py) else None)"

definition grid_get_cell :: "utf8_table \<Rightarrow> grid \<Rightarrow> nat \<Rightarrow> nat \<Rightarrow> grid_cell" where
  "grid_get_cell tab gd px py =
     (if \<not> grid_check_y gd py \<or> px \<ge> cellsize (linedata gd ! py) then grid_default_cell
      else grid_get_cell1 tab (linedata gd ! py) px)"

definition grid_compare :: "utf8_table \<Rightarrow> grid \<Rightarrow> grid \<Rightarrow> bool" where
  "grid_compare tab ga gb \<longleftrightarrow>
     gd_sx ga \<noteq> gd_sx gb \<or> gd_sy ga \<noteq> gd_sy gb \<or>
     (\<exists>yy \<in> set [0..<gd_sy ga].
        cellsize (linedata ga ! yy) \<noteq> cellsize (linedata gb ! yy) \<or>
        (\<exists>xx \<in> set [0..<cellsize (linedata ga ! yy)].
           \<not> grid_cells_equal (grid_get_cell tab ga xx yy) (grid_get_cell tab gb xx yy)))"

definition grid_trim_history :: "grid \<Rightarrow> nat \<Rightarrow> grid" where
  "grid_trim_history gd ny =
     (let remaining = hsize gd + gd_sy gd - ny; ls = linedata gd
      in gd\<lparr>linedata := take remaining (drop ny ls) @ replicate ny zero_line @ drop (remaining + ny) ls\<rparr>)"

definition grid_collect_history :: "grid \<Rightarrow> bool \<Rightarrow> grid" where
  "grid_collect_history gd all =
     (if hsize gd = 0 \<or> hsize gd < hlimit gd then gd
      else
        (let ny0 = (if all then hsize gd - hlimit gd else hlimit gd div 10);
             ny1 = (if ny0 < 1 then 1 else ny0);
             ny = (if ny1 > hsize gd then hsize gd else ny1);
             gd1 = grid_trim_history gd ny;
             h = hsize gd - ny
         in gd1\<lparr>hsize := h, hscrolled := (if hscrolled gd > h then h else hscrolled gd)\<rparr>))"

text \<open>Freeing a line drops its arrays and leaves its other fields.\<close>

definition grid_free_line :: "grid \<Rightarrow> nat \<Rightarrow> grid" where
  "grid_free_line gd py = set_line py ((linedata gd ! py)\<lparr>celldata := [], extddata := []\<rparr>) gd"

definition grid_remove_history :: "grid \<Rightarrow> nat \<Rightarrow> grid" where
  "grid_remove_history gd ny =
     (if ny > hsize gd then gd
      else (fold (\<lambda>yy gd. grid_free_line gd (hsize gd + gd_sy gd - 1 - yy)) [0..<ny] gd)
             \<lparr>hsize := hsize gd - ny\<rparr>)"

definition grid_scroll_history :: "nat \<Rightarrow> grid \<Rightarrow> u32 \<Rightarrow> grid" where
  "grid_scroll_history now gd bg =
     (let yy = hsize gd + gd_sy gd;
          gd1 = grid_empty_line (gd\<lparr>linedata := resize_lines (yy + 1) (linedata gd)\<rparr>) yy bg;
          gl = (grid_compact_line (linedata gd1 ! hsize gd))\<lparr>gl_time := now\<rparr>
      in gd1\<lparr>hscrolled := hscrolled gd + 1,
             linedata := (linedata gd1)[hsize gd := gl],
             hsize := hsize gd + 1\<rparr>)"

definition grid_clear_history :: "grid \<Rightarrow> grid" where
  "grid_clear_history gd =
     (let gd1 = grid_trim_history gd (hsize gd)
      in gd1\<lparr>hscrolled := 0, hsize := 0, linedata := resize_lines (gd_sy gd) (linedata gd1)\<rparr>)"

definition grid_scroll_history_region :: "nat \<Rightarrow> grid \<Rightarrow> nat \<Rightarrow> nat \<Rightarrow> u32 \<Rightarrow> grid" where
  "grid_scroll_history_region now gd upper lower bg =
     (let yy = hsize gd + gd_sy gd;
          l0 = resize_lines (yy + 1) (linedata gd);
          l1 = move_lines (hsize gd + 1) (hsize gd) (gd_sy gd) l0;
          u = upper + 1; l = lower + 1;
          l2 = l1[hsize gd := (l1 ! u)\<lparr>gl_time := now\<rparr>];
          l3 = move_lines u (u + 1) (l - u) l2;
          gd1 = grid_empty_line (gd\<lparr>linedata := l3\<rparr>) l bg
      in gd1\<lparr>hscrolled := hscrolled gd + 1, hsize := hsize gd + 1\<rparr>)"

section \<open>Writing cells\<close>

text \<open>Store one cell into an already expanded line.\<close>

definition line_set_cell :: "utf8_table \<Rightarrow> grid_line \<Rightarrow> nat \<Rightarrow> grid_cell \<Rightarrow> (utf8_table \<times> grid_line) option" where
  "line_set_cell tab gl px gc =
     (let gce = celldata gl ! px
      in if grid_need_extended_cell gce gc then
           (case grid_extended_cell tab gl gce gc of
              None \<Rightarrow> None
            | Some (tab', gl', gce') \<Rightarrow> Some (tab', gl'\<lparr>celldata := (celldata gl')[px := gce']\<rparr>))
         else Some (tab, gl\<lparr>celldata := (celldata gl)[px := grid_store_cell gc (ud_data (gc_data gc) ! 0)]\<rparr>))"

definition grid_set_cell :: "utf8_table \<Rightarrow> grid \<Rightarrow> nat \<Rightarrow> nat \<Rightarrow> grid_cell \<Rightarrow> (utf8_table \<times> grid) option" where
  "grid_set_cell tab gd px py gc =
     (if \<not> grid_check_y gd py then Some (tab, gd)
      else
        (let gl = grid_expand_line (gd_sx gd) (linedata gd ! py) (px + 1) 8;
             gl1 = gl\<lparr>cellused := (if px + 1 > cellused gl then px + 1 else cellused gl)\<rparr>
         in case line_set_cell tab gl1 px gc of
              None \<Rightarrow> None
            | Some (tab', gl2) \<Rightarrow> Some (tab', set_line py gl2 gd)))"

definition grid_set_padding :: "utf8_table \<Rightarrow> grid \<Rightarrow> nat \<Rightarrow> nat \<Rightarrow> (utf8_table \<times> grid) option" where
  "grid_set_padding tab gd px py = grid_set_cell tab gd px py grid_padding_cell"

text \<open>
  The loop of \<^verbatim>\<open>grid_set_cells\<close> over the characters from position \<open>px\<close>; in the extended case
  the packed character of the cell is replaced by the one of the string.
\<close>

fun line_set_cells ::
  "utf8_table \<Rightarrow> grid_line \<Rightarrow> nat \<Rightarrow> grid_cell \<Rightarrow> u8 list \<Rightarrow> (utf8_table \<times> grid_line) option" where
  "line_set_cells tab gl px gc [] = Some (tab, gl)"
| "line_set_cells tab gl px gc (c # cs) =
     (let gce = celldata gl ! px
      in if grid_need_extended_cell gce gc then
           (case grid_extended_cell tab gl gce gc of
              None \<Rightarrow> None
            | Some (tab', gl', gce') \<Rightarrow>
                (let off = gce_offset (gce_u gce')
                 in line_set_cells tab'
                      (gl'\<lparr>celldata := (celldata gl')[px := gce'],
                           extddata := (extddata gl')[off := (extddata gl' ! off)\<lparr>gee_data := utf8_build_one c\<rparr>]\<rparr>)
                      (px + 1) gc cs))
         else line_set_cells tab (gl\<lparr>celldata := (celldata gl)[px := grid_store_cell gc c]\<rparr>) (px + 1) gc cs)"

definition grid_set_cells ::
  "utf8_table \<Rightarrow> grid \<Rightarrow> nat \<Rightarrow> nat \<Rightarrow> grid_cell \<Rightarrow> u8 list \<Rightarrow> (utf8_table \<times> grid) option" where
  "grid_set_cells tab gd px py gc cs =
     (if \<not> grid_check_y gd py then Some (tab, gd)
      else
        (let slen = length cs;
             gl = grid_expand_line (gd_sx gd) (linedata gd ! py) (px + slen) 8;
             gl1 = gl\<lparr>cellused := (if px + slen > cellused gl then px + slen else cellused gl)\<rparr>
         in case line_set_cells tab gl1 px gc cs of
              None \<Rightarrow> None
            | Some (tab', gl2) \<Rightarrow> Some (tab', set_line py gl2 gd)))"

definition unwrap_line :: "grid_line \<Rightarrow> grid_line" where
  "unwrap_line gl = gl\<lparr>gl_flags := gl_flags gl AND NOT GRID_LINE_WRAPPED\<rparr>"

definition unwrap_before :: "nat \<Rightarrow> grid \<Rightarrow> grid" where
  "unwrap_before py gd =
     (if py \<noteq> 0 then set_line (py - 1) (unwrap_line (linedata gd ! (py - 1))) gd else gd)"

definition grid_clear_lines :: "grid \<Rightarrow> nat \<Rightarrow> nat \<Rightarrow> u32 \<Rightarrow> grid" where
  "grid_clear_lines gd py ny bg =
     (if ny = 0 \<or> \<not> grid_check_y gd py \<or> \<not> grid_check_y gd (py + ny - 1) then gd
      else unwrap_before py (fold (\<lambda>yy gd. grid_empty_line gd yy bg) [py..<py + ny] gd))"

definition clear_in_line :: "nat \<Rightarrow> grid_line \<Rightarrow> nat \<Rightarrow> nat \<Rightarrow> u32 \<Rightarrow> grid_line" where
  "clear_in_line gsx gl px nx bg =
     (let sx = (if gsx > cellsize gl then cellsize gl else gsx)
      in if COLOUR_DEFAULT bg \<and> px > sx then gl
         else
           (let ox = (if COLOUR_DEFAULT bg \<and> px + nx > sx then sx - px else nx)
            in fold (\<lambda>xx gl. grid_clear_cell gl xx bg False) [px..<px + ox]
                 (grid_expand_line gsx gl (px + ox) 8)))"

definition grid_clear :: "grid \<Rightarrow> nat \<Rightarrow> nat \<Rightarrow> nat \<Rightarrow> nat \<Rightarrow> u32 \<Rightarrow> grid" where
  "grid_clear gd px py nx ny bg =
     (if nx = 0 \<or> ny = 0 then gd
      else if px = 0 \<and> nx = gd_sx gd then grid_clear_lines gd py ny bg
      else if \<not> grid_check_y gd py \<or> \<not> grid_check_y gd (py + ny - 1) then gd
      else fold (\<lambda>yy gd. set_line yy (clear_in_line (gd_sx gd) (linedata gd ! yy) px nx bg) gd)
             [py..<py + ny] gd)"

definition grid_move_lines :: "grid \<Rightarrow> nat \<Rightarrow> nat \<Rightarrow> nat \<Rightarrow> u32 \<Rightarrow> grid" where
  "grid_move_lines gd dy py ny bg =
     (if ny = 0 \<or> py = dy \<or> \<not> grid_check_y gd py \<or> \<not> grid_check_y gd (py + ny - 1) \<or>
         \<not> grid_check_y gd dy \<or> \<not> grid_check_y gd (dy + ny - 1) then gd
      else
        (let gd1 = unwrap_before dy gd;
             gd2 = gd1\<lparr>linedata := move_lines dy py ny (linedata gd1)\<rparr>;
             gd3 = fold (\<lambda>yy gd. if yy < dy \<or> yy \<ge> dy + ny then grid_empty_line gd yy bg else gd)
                     [py..<py + ny] gd2
         in if py \<noteq> 0 \<and> (py < dy \<or> py \<ge> dy + ny) then unwrap_before py gd3 else gd3))"

definition grid_move_cells :: "grid \<Rightarrow> nat \<Rightarrow> nat \<Rightarrow> nat \<Rightarrow> nat \<Rightarrow> u32 \<Rightarrow> grid" where
  "grid_move_cells gd dx px py nx bg =
     (if nx = 0 \<or> px = dx \<or> \<not> grid_check_y gd py then gd
      else
        (let gl = grid_expand_line (gd_sx gd)
                    (grid_expand_line (gd_sx gd) (linedata gd ! py) (px + nx) 8) (dx + nx) 8;
             cs = celldata gl;
             gl1 = gl\<lparr>celldata := take dx cs @ take nx (drop px cs) @ drop (dx + nx) cs,
                      cellused := (if dx + nx > cellused gl then dx + nx else cellused gl)\<rparr>;
             gl2 = fold (\<lambda>xx gl. if xx \<ge> dx \<and> xx < dx + nx then gl else grid_clear_cell gl xx bg True)
                     [px..<px + nx] gl1
         in set_line py gl2 gd))"

text \<open>Both grids should be big enough: \<open>dy\<close> and \<open>sy\<close> are within them.\<close>

definition grid_duplicate_lines :: "grid \<Rightarrow> nat \<Rightarrow> grid \<Rightarrow> nat \<Rightarrow> nat \<Rightarrow> grid" where
  "grid_duplicate_lines dst dy src sy ny =
     (let ny1 = (if dy + ny > hsize dst + gd_sy dst then hsize dst + gd_sy dst - dy else ny);
          ny2 = (if sy + ny1 > hsize src + gd_sy src then hsize src + gd_sy src - sy else ny1)
      in fold (\<lambda>yy dst. set_line (dy + yy) (linedata src ! (sy + yy)) dst) [0..<ny2] dst)"

section \<open>Positions over wrapped lines\<close>

fun wrap_loop :: "grid_line list \<Rightarrow> nat \<Rightarrow> nat \<Rightarrow> nat \<times> nat" where
  "wrap_loop [] ax ay = (ax, ay)"
| "wrap_loop (gl # gls) ax ay =
     (if gl_flags gl AND GRID_LINE_WRAPPED \<noteq> 0 then wrap_loop gls (ax + cellused gl) ay
      else wrap_loop gls 0 (ay + 1))"

text \<open>\<open>None\<close> is the column \<^verbatim>\<open>UINT_MAX\<close>: past the end of the line.\<close>

definition grid_wrap_position :: "grid \<Rightarrow> nat \<Rightarrow> nat \<Rightarrow> nat option \<times> nat" where
  "grid_wrap_position gd px py =
     (case wrap_loop (take py (linedata gd)) 0 0 of (ax, ay) \<Rightarrow>
        (if px \<ge> cellused (linedata gd ! py) then None else Some (ax + px), ay))"

fun unwrap_row :: "grid_line list \<Rightarrow> nat \<Rightarrow> nat \<Rightarrow> nat \<Rightarrow> nat \<Rightarrow> nat" where
  "unwrap_row ls 0 yy ay wy = yy"
| "unwrap_row ls (Suc n) yy ay wy =
     (if ay = wy then yy
      else unwrap_row ls n (yy + 1)
             (if gl_flags (ls ! yy) AND GRID_LINE_WRAPPED = 0 then ay + 1 else ay) wy)"

text \<open>
  The two inner loops, over the lines from the found row on. They run off the array when the
  last line is marked as wrapped, which is the result \<open>None\<close>.
\<close>

fun unwrap_end :: "grid_line list \<Rightarrow> nat \<Rightarrow> (nat \<times> nat) option" where
  "unwrap_end [] yy = None"
| "unwrap_end (gl # gls) yy =
     (if gl_flags gl AND GRID_LINE_WRAPPED \<noteq> 0 then unwrap_end gls (yy + 1) else Some (cellused gl, yy))"

fun unwrap_col :: "grid_line list \<Rightarrow> nat \<Rightarrow> nat \<Rightarrow> (nat \<times> nat) option" where
  "unwrap_col [] wx yy = None"
| "unwrap_col (gl # gls) wx yy =
     (if gl_flags gl AND GRID_LINE_WRAPPED \<noteq> 0 \<and> \<not> wx < cellused gl
      then unwrap_col gls (wx - cellused gl) (yy + 1) else Some (wx, yy))"

definition grid_unwrap_position :: "grid \<Rightarrow> nat option \<Rightarrow> nat \<Rightarrow> (nat \<times> nat) option" where
  "grid_unwrap_position gd wx wy =
     (let yy = unwrap_row (linedata gd) (hsize gd + gd_sy gd - 1) 0 0 wy
      in case wx of None \<Rightarrow> unwrap_end (drop yy (linedata gd)) yy
         | Some x \<Rightarrow> unwrap_col (drop yy (linedata gd)) x yy)"

text \<open>The loop of \<^verbatim>\<open>grid_line_length\<close>, which walks back over the blank cells.\<close>

fun line_length_loop :: "utf8_table \<Rightarrow> grid \<Rightarrow> nat \<Rightarrow> nat \<Rightarrow> nat" where
  "line_length_loop tab gd py 0 = 0"
| "line_length_loop tab gd py (Suc px) =
     (let gc = grid_get_cell tab gd px py
      in if gc_flags gc AND GRID_FLAG_PADDING \<noteq> 0 \<or> ud_size (gc_data gc) \<noteq> 1 \<or> ud_data (gc_data gc) ! 0 \<noteq> 0x20
         then Suc px else line_length_loop tab gd py px)"

definition grid_line_length :: "utf8_table \<Rightarrow> grid \<Rightarrow> nat \<Rightarrow> nat" where
  "grid_line_length tab gd py =
     (let n = cellsize (linedata gd ! py)
      in line_length_loop tab gd py (if n > gd_sx gd then gd_sx gd else n))"

end
