(* ===== verification/Grid_Facts.thy ===== *)
theory Grid_Facts
  imports Grid
begin

text \<open>
  What the grid operations keep and do: the invariant on lines and grids, the history as a
  queue of lines (scrolling, collecting, clearing, duplicating), reading back a written cell,
  compaction as the identity on cells, and the round trip of wrapped positions.
\<close>

section \<open>Well-formed lines and grids\<close>

definition entry_ok :: "nat \<Rightarrow> grid_cell_entry \<Rightarrow> bool" where
  "entry_ok n gce \<longleftrightarrow>
     (if gce_flags gce AND GRID_FLAG_EXTENDED \<noteq> 0 then \<exists>k < n. gce_u gce = Offset k
      else \<exists>a f b c. gce_u gce = Data a f b c)"

definition line_ok :: "grid_line \<Rightarrow> bool" where
  "line_ok gl \<longleftrightarrow> cellused gl \<le> cellsize gl \<and> (\<forall>gce \<in> set (celldata gl). entry_ok (extdsize gl) gce)"

definition grid_ok :: "grid \<Rightarrow> bool" where
  "grid_ok gd \<longleftrightarrow> hsize gd + gd_sy gd \<le> length (linedata gd) \<and>
     (\<forall>gl \<in> set (take (hsize gd + gd_sy gd) (linedata gd)). line_ok gl)"

text \<open>The two parts of a grid.\<close>

definition history :: "grid \<Rightarrow> grid_line list" where
  "history gd = take (hsize gd) (linedata gd)"

definition visible :: "grid \<Rightarrow> grid_line list" where
  "visible gd = take (gd_sy gd) (drop (hsize gd) (linedata gd))"

lemma grid_lines_split: "take (hsize gd + gd_sy gd) (linedata gd) = history gd @ visible gd"
  by (simp add: history_def visible_def take_add)

lemma grid_ok_parts:
  "grid_ok gd \<longleftrightarrow> hsize gd + gd_sy gd \<le> length (linedata gd) \<and>
     (\<forall>gl \<in> set (history gd). line_ok gl) \<and> (\<forall>gl \<in> set (visible gd). line_ok gl)"
  by (auto simp: grid_ok_def grid_lines_split)

lemma length_history [simp]: "grid_ok gd \<Longrightarrow> length (history gd) = hsize gd"
  by (simp add: grid_ok_def history_def)

lemma length_visible [simp]: "grid_ok gd \<Longrightarrow> length (visible gd) = gd_sy gd"
  by (auto simp: grid_ok_def visible_def)

lemma line_ok_zero [simp]: "line_ok zero_line"
  by (simp add: line_ok_def zero_line_def)

lemma line_ok_time [simp]: "line_ok (gl\<lparr>gl_time := t\<rparr>) = line_ok gl"
  by (simp add: line_ok_def)

lemma line_ok_flags [simp]: "line_ok (gl\<lparr>gl_flags := f\<rparr>) = line_ok gl"
  by (simp add: line_ok_def)

lemma line_ok_unwrap [simp]: "line_ok (unwrap_line gl) = line_ok gl"
  by (simp add: unwrap_line_def)

lemma grid_ok_create: "grid_ok (grid_create sx sy hl)"
  by (auto simp: grid_ok_def grid_create_def)

section \<open>Clearing cells and expanding lines\<close>

lemma entry_ok_mono: "entry_ok n gce \<Longrightarrow> n \<le> m \<Longrightarrow> entry_ok m gce"
  by (fastforce simp: entry_ok_def)

lemma entry_ok_zero [simp]: "entry_ok n zero_entry"
  by (simp add: entry_ok_def zero_entry_def)

lemma entry_ok_cleared [simp]: "entry_ok n grid_cleared_entry"
  by (simp add: entry_ok_def grid_cleared_entry_def)

lemma entry_ok_offset: "k < n \<Longrightarrow> f AND GRID_FLAG_EXTENDED \<noteq> 0 \<Longrightarrow> entry_ok n \<lparr>gce_u = Offset k, gce_flags = f\<rparr>"
  by (simp add: entry_ok_def)

lemma utf8_from_cleared: "utf8_from_data tab (gc_data grid_cleared_cell) =
    Some (UTF8_DONE, UTF8_SET_SIZE 1 OR UTF8_SET_WIDTH 1 OR 0x20, tab)"
  by (simp add: utf8_from_data_def grid_cleared_cell_def Let_def)

lemma grid_clear_cell_total:
  assumes "gce_flags gce AND GRID_FLAG_EXTENDED = 0 \<or> gce_offset (gce_u gce) < extdsize gl"
  shows "grid_extended_cell tab gl gce grid_cleared_cell \<noteq> None"
  using assms utf8_from_cleared [of tab]
  by (auto simp: grid_extended_cell_def Let_def grid_get_extended_cell_def grid_cleared_cell_def)

lemma clear_extended_shape:
  assumes "gce_flags gce AND GRID_FLAG_EXTENDED \<noteq> 0" "gce_offset (gce_u gce) < extdsize gl"
  shows "\<exists>es. length es = extdsize gl \<and>
     clear_extended gl px gce bg =
       gl\<lparr>celldata := (celldata gl)[px := gce], gl_flags := gl_flags gl OR GRID_LINE_EXTENDED, extddata := es\<rparr>"
  using assms utf8_from_cleared [of utf8_empty]
  by (intro exI [of _ "extddata (clear_extended gl px gce bg)"])
    (auto simp: clear_extended_def grid_extended_cell_def Let_def grid_cleared_cell_def)

lemma line_ok_set:
  assumes "line_ok gl" "length es \<ge> extdsize gl" "entry_ok (length es) gce"
  shows "line_ok (gl\<lparr>celldata := (celldata gl)[px := gce], gl_flags := f, extddata := es\<rparr>)"
  using assms by (auto simp: line_ok_def entry_ok_mono dest!: subsetD [OF set_update_subset_insert])

lemma grid_clear_cell_shape:
  "\<exists>gce f es. grid_clear_cell gl px bg moved =
      gl\<lparr>celldata := (celldata gl)[px := gce], gl_flags := f, extddata := es\<rparr> \<and>
      extdsize gl \<le> length es \<and> entry_ok (length es) gce"
proof (cases "\<not> moved \<and> gce_flags (celldata gl ! px) AND GRID_FLAG_EXTENDED \<noteq> 0 \<and>
    gce_offset (gce_u (celldata gl ! px)) < extdsize gl")
  case True
  let ?gce = "\<lparr>gce_u = Offset (gce_offset (gce_u (celldata gl ! px))),
      gce_flags = GRID_FLAG_CLEARED OR GRID_FLAG_EXTENDED\<rparr>"
  obtain es where "length es = extdsize gl" "clear_extended gl px ?gce bg =
      gl\<lparr>celldata := (celldata gl)[px := ?gce], gl_flags := gl_flags gl OR GRID_LINE_EXTENDED, extddata := es\<rparr>"
    using clear_extended_shape [of ?gce gl px bg] True by auto
  moreover have "grid_clear_cell gl px bg moved = clear_extended gl px ?gce bg"
    using True by (simp add: grid_clear_cell_def Let_def)
  moreover have "entry_ok (length es) ?gce" using True calculation(1) by (intro entry_ok_offset) auto
  ultimately show ?thesis by (metis order_refl)
next
  case False
  show ?thesis
  proof (cases "bg \<noteq> 8 \<and> bg AND COLOUR_FLAG_RGB \<noteq> 0")
    case rgb: True
    let ?gl = "gl\<lparr>extddata := extddata gl @ [blank_extd]\<rparr>"
    let ?gce = "\<lparr>gce_u = Offset (extdsize gl), gce_flags = GRID_FLAG_CLEARED OR GRID_FLAG_EXTENDED\<rparr>"
    obtain es where es: "length es = extdsize ?gl" "clear_extended ?gl px ?gce bg =
        ?gl\<lparr>celldata := (celldata ?gl)[px := ?gce], gl_flags := gl_flags ?gl OR GRID_LINE_EXTENDED, extddata := es\<rparr>"
      using clear_extended_shape [of ?gce ?gl px bg] by auto
    moreover have "grid_clear_cell gl px bg moved = clear_extended ?gl px ?gce bg"
      using False rgb by (auto simp: grid_clear_cell_def Let_def grid_get_extended_cell_def)
    moreover have "entry_ok (length es) ?gce" using es(1) by (intro entry_ok_offset) auto
    ultimately show ?thesis by (intro exI [of _ ?gce] exI conjI) auto
  next
    case plain: False
    define gce where "gce = (if bg \<noteq> 8 then \<lparr>gce_u = Data 0 8 (ucast bg) 0x20,
        gce_flags = GRID_FLAG_CLEARED OR (if bg AND COLOUR_FLAG_256 \<noteq> 0 then GRID_FLAG_BG256 else 0)\<rparr>
      else grid_cleared_entry)"
    have "grid_clear_cell gl px bg moved =
        gl\<lparr>celldata := (celldata gl)[px := gce], gl_flags := gl_flags gl, extddata := extddata gl\<rparr>"
      using False plain by (auto simp: grid_clear_cell_def Let_def gce_def)
    moreover have "entry_ok (extdsize gl) gce" by (simp add: gce_def entry_ok_def grid_cleared_entry_def)
    ultimately show ?thesis by (metis order_refl)
  qed
qed

lemma grid_clear_cell_keeps [simp]:
  "cellsize (grid_clear_cell gl px bg moved) = cellsize gl"
  "cellused (grid_clear_cell gl px bg moved) = cellused gl"
  using grid_clear_cell_shape [of gl px bg moved] by auto

lemma line_ok_clear_cell: "line_ok gl \<Longrightarrow> line_ok (grid_clear_cell gl px bg moved)"
  using grid_clear_cell_shape [of gl px bg moved] line_ok_set [of gl] by metis

lemma fold_clear_keeps:
  "cellsize (fold (\<lambda>xx gl. grid_clear_cell gl xx bg m) xs gl) = cellsize gl"
  "cellused (fold (\<lambda>xx gl. grid_clear_cell gl xx bg m) xs gl) = cellused gl"
  "line_ok gl \<Longrightarrow> line_ok (fold (\<lambda>xx gl. grid_clear_cell gl xx bg m) xs gl)"
  by (induction xs arbitrary: gl) (simp_all add: line_ok_clear_cell)

lemma expand_to_ge: "sx \<le> expand_to gsx sx"
  by (auto simp: expand_to_def)

lemma line_ok_grow: "line_ok gl \<Longrightarrow> line_ok (gl\<lparr>celldata := celldata gl @ replicate n zero_entry\<rparr>)"
  by (auto simp: line_ok_def)

lemma grid_expand_line_facts:
  "line_ok gl \<Longrightarrow> line_ok (grid_expand_line gsx gl sx bg)"
  "sx \<le> cellsize (grid_expand_line gsx gl sx bg)"
  "cellsize gl \<le> cellsize (grid_expand_line gsx gl sx bg)"
  "cellused (grid_expand_line gsx gl sx bg) = cellused gl"
  using expand_to_ge [of sx gsx]
  by (auto simp: grid_expand_line_def Let_def fold_clear_keeps line_ok_grow)

lemma line_ok_empty [simp]: "line_ok (empty_line gsx bg)"
  by (simp add: empty_line_def grid_expand_line_facts)

section \<open>The history as a queue of lines\<close>

lemma trim_history_parts:
  assumes "grid_ok gd" "ny \<le> hsize gd"
  shows "length (linedata (grid_trim_history gd ny)) = length (linedata gd)"
    "take (hsize gd - ny) (linedata (grid_trim_history gd ny)) = drop ny (history gd)"
    "take (gd_sy gd) (drop (hsize gd - ny) (linedata (grid_trim_history gd ny))) = visible gd"
proof -
  let ?r = "hsize gd + gd_sy gd - ny"
  from assms have len: "?r + ny \<le> length (linedata gd)" "ny \<le> hsize gd" by (auto simp: grid_ok_def)
  then show "length (linedata (grid_trim_history gd ny)) = length (linedata gd)"
    by (auto simp: grid_trim_history_def Let_def)
  show "take (hsize gd - ny) (linedata (grid_trim_history gd ny)) = drop ny (history gd)"
    using len by (auto simp: grid_trim_history_def Let_def history_def drop_take min_def)
  show "take (gd_sy gd) (drop (hsize gd - ny) (linedata (grid_trim_history gd ny))) = visible gd"
    using len by (auto simp: grid_trim_history_def Let_def visible_def drop_take min_def)
qed

lemma collect_history_eq:
  assumes "grid_ok gd"
  shows "\<exists>ny \<le> hsize gd. history (grid_collect_history gd all) = drop ny (history gd) \<and>
    visible (grid_collect_history gd all) = visible gd \<and>
    hsize (grid_collect_history gd all) = hsize gd - ny \<and>
    length (linedata (grid_collect_history gd all)) = length (linedata gd) \<and>
    gd_sy (grid_collect_history gd all) = gd_sy gd \<and> gd_sx (grid_collect_history gd all) = gd_sx gd \<and>
    hlimit (grid_collect_history gd all) = hlimit gd \<and>
    (all \<longrightarrow> hsize gd - ny \<le> hlimit gd \<and> (hlimit gd < hsize gd \<longrightarrow> hsize gd - ny = hlimit gd)) \<and>
    (\<not> all \<and> 0 < hsize gd \<and> hlimit gd \<le> hsize gd \<longrightarrow> 0 < ny)"
proof (cases "hsize gd = 0 \<or> hsize gd < hlimit gd")
  case True
  then show ?thesis by (intro exI [of _ 0]) (auto simp: grid_collect_history_def)
next
  case False
  define ny0 where "ny0 = (if all then hsize gd - hlimit gd else hlimit gd div 10)"
  define ny where "ny = (if (if ny0 < 1 then 1 else ny0) > hsize gd then hsize gd else (if ny0 < 1 then 1 else ny0))"
  have le: "ny \<le> hsize gd" by (simp add: ny_def)
  have eq: "grid_collect_history gd all = (grid_trim_history gd ny)\<lparr>hsize := hsize gd - ny,
      hscrolled := (if hscrolled gd > hsize gd - ny then hsize gd - ny else hscrolled gd)\<rparr>"
    using False by (simp add: grid_collect_history_def Let_def ny_def ny0_def)
  have frame: "gd_sy (grid_trim_history gd n) = gd_sy gd" "gd_sx (grid_trim_history gd n) = gd_sx gd"
    "hlimit (grid_trim_history gd n) = hlimit gd" for n
    by (simp_all add: grid_trim_history_def Let_def)
  have num: "all \<longrightarrow> hsize gd - ny \<le> hlimit gd \<and> (hlimit gd < hsize gd \<longrightarrow> hsize gd - ny = hlimit gd)" "0 < ny"
    using False by (auto simp: ny_def ny0_def)
  show ?thesis
    using le num trim_history_parts [OF assms le] frame
    by (intro exI [of _ ny]) (auto simp: eq history_def visible_def)
qed

lemma grid_ok_collect: "grid_ok gd \<Longrightarrow> grid_ok (grid_collect_history gd all)"
proof -
  assume ok: "grid_ok gd"
  from collect_history_eq [OF ok, of all] obtain ny where
    "history (grid_collect_history gd all) = drop ny (history gd)"
    "visible (grid_collect_history gd all) = visible gd"
    "hsize (grid_collect_history gd all) = hsize gd - ny"
    "length (linedata (grid_collect_history gd all)) = length (linedata gd)"
    "gd_sy (grid_collect_history gd all) = gd_sy gd"
    by blast
  then show ?thesis using ok by (auto simp: grid_ok_parts dest!: in_set_dropD)
qed

lemma clear_history_eq:
  assumes "grid_ok gd"
  shows "history (grid_clear_history gd) = [] \<and> visible (grid_clear_history gd) = visible gd \<and>
    linedata (grid_clear_history gd) = visible gd \<and> gd_sy (grid_clear_history gd) = gd_sy gd \<and>
    gd_sx (grid_clear_history gd) = gd_sx gd \<and> hlimit (grid_clear_history gd) = hlimit gd"
  using trim_history_parts [OF assms order_refl] length_visible [OF assms] assms
  by (auto simp: grid_clear_history_def Let_def history_def visible_def resize_lines_def grid_ok_def
      grid_trim_history_def min_def)

lemma grid_ok_clear_history: "grid_ok gd \<Longrightarrow> grid_ok (grid_clear_history gd)"
  using clear_history_eq [of gd] length_visible [of gd]
  by (auto simp: grid_ok_parts) (auto simp: grid_clear_history_def Let_def)

lemma resize_lines_last: "n \<le> length ls \<Longrightarrow> (resize_lines (Suc n) ls)[n := x] = take n ls @ [x]"
  by (cases "n = length ls") (auto simp: resize_lines_def take_Suc_conv_app_nth list_update_append)

lemma line_parts:
  assumes "grid_ok gd"
  shows "take (hsize gd + gd_sy gd) (linedata gd) = history gd @ visible gd"
    "length (history gd) = hsize gd" "length (visible gd) = gd_sy gd"
  using assms by (simp_all add: grid_lines_split)

lemma scroll_history_eq:
  assumes "grid_ok gd" "0 < gd_sy gd"
  shows "history (grid_scroll_history now gd bg) =
      history gd @ [(grid_compact_line (hd (visible gd)))\<lparr>gl_time := now\<rparr>] \<and>
    visible (grid_scroll_history now gd bg) = tl (visible gd) @ [empty_line (gd_sx gd) bg] \<and>
    hsize (grid_scroll_history now gd bg) = hsize gd + 1 \<and>
    gd_sy (grid_scroll_history now gd bg) = gd_sy gd \<and>
    length (linedata (grid_scroll_history now gd bg)) = hsize gd + gd_sy gd + 1"
proof -
  let ?yy = "hsize gd + gd_sy gd"
  obtain v vs where vis: "visible gd = v # vs"
    using length_visible [OF assms(1)] assms(2) by (cases "visible gd") auto
  have len: "?yy \<le> length (linedata gd)" using assms(1) by (simp add: grid_ok_def)
  note lp = line_parts [OF assms(1)]
  have lvs: "length vs + 1 = gd_sy gd" using lp(3) vis by simp
  have "(resize_lines (?yy + 1) (linedata gd))[?yy := empty_line (gd_sx gd) bg]
      = history gd @ v # vs @ [empty_line (gd_sx gd) bg]"
    using len lp vis by (simp add: resize_lines_last)
  then have eq: "grid_scroll_history now gd bg = gd\<lparr>hscrolled := hscrolled gd + 1,
      linedata := history gd @ (grid_compact_line v)\<lparr>gl_time := now\<rparr> # vs @ [empty_line (gd_sx gd) bg],
      hsize := hsize gd + 1\<rparr>"
    using lp(2) by (simp add: grid_scroll_history_def grid_empty_line_def Let_def nth_append list_update_append)
  show ?thesis
    using lp(2) lvs vis by (simp add: eq history_def visible_def)
qed

section \<open>Compaction\<close>

abbreviation is_ext :: "grid_cell_entry \<Rightarrow> bool" where
  "is_ext gce \<equiv> gce_flags gce AND GRID_FLAG_EXTENDED \<noteq> 0"

text \<open>The entry \<open>g'\<close> with the side array \<open>new\<close> stands for \<open>g\<close> with the side array \<open>old\<close>.\<close>

definition same_entry ::
  "grid_extd_entry list \<Rightarrow> grid_extd_entry list \<Rightarrow> grid_cell_entry \<Rightarrow> grid_cell_entry \<Rightarrow> bool" where
  "same_entry old new g g' \<longleftrightarrow> gce_flags g' = gce_flags g \<and>
     (if is_ext g then \<exists>k < length new. gce_u g' = Offset k \<and> new ! k = old ! gce_offset (gce_u g)
      else g' = g)"

lemma same_entry_extend: "same_entry old new g g' \<Longrightarrow> same_entry old (new @ ext) g g'"
  by (fastforce simp: same_entry_def nth_append)

lemma compact_cells_spec:
  "compact_cells old gces new = (gces', new') \<Longrightarrow>
     (\<exists>ext. new' = new @ ext \<and> length ext = length (filter is_ext gces)) \<and>
     list_all2 (same_entry old new') gces gces'"
proof (induction old gces new arbitrary: gces' new' rule: compact_cells.induct)
  case (1 old new)
  then show ?case by simp
next
  case (2 old gce gces new)
  show ?case
  proof (cases "is_ext gce")
    case True
    let ?e = "old ! gce_offset (gce_u gce)"
    obtain rest where rest: "compact_cells old gces (new @ [?e]) = (rest, new')"
      "gces' = gce\<lparr>gce_u := Offset (length new)\<rparr> # rest"
      using "2.prems" True by (auto split: prod.splits)
    from "2.IH"(1) [OF True rest(1)] obtain ext where ext: "new' = (new @ [?e]) @ ext"
      "length ext = length (filter is_ext gces)" "list_all2 (same_entry old new') gces rest"
      by blast
    have "same_entry old new' gce (gce\<lparr>gce_u := Offset (length new)\<rparr>)"
      using True ext(1) by (simp add: same_entry_def nth_append)
    with ext True rest show ?thesis by (auto intro!: exI [of _ "?e # ext"])
  next
    case False
    obtain rest where rest: "compact_cells old gces new = (rest, new')" "gces' = gce # rest"
      using "2.prems" False by (auto split: prod.splits)
    have "same_entry old new' gce gce" using False by (simp add: same_entry_def)
    with "2.IH"(2) [OF _ rest(1)] False rest(2) show ?thesis by simp
  qed
qed

lemma grid_compact_line_spec:
  "celldata gl = [] \<or> extddata gl = [] \<or> 
     list_all2 (same_entry (extddata gl) (extddata (grid_compact_line gl))) (celldata gl)
       (celldata (grid_compact_line gl)) \<and>
     extdsize (grid_compact_line gl) = length (filter is_ext (celldata gl)) \<and>
     cellused (grid_compact_line gl) = cellused gl \<and> gl_flags (grid_compact_line gl) = gl_flags gl"
proof -
  obtain gces gees where run: "compact_cells (extddata gl) (celldata gl) [] = (gces, gees)"
    by (cases "compact_cells (extddata gl) (celldata gl) []")
  note spec = compact_cells_spec [OF run]
  have none: "list_all2 (same_entry old new) gs gs" if "\<forall>g \<in> set gs. \<not> is_ext g" for old new gs
    using that by (auto simp: list_all2_same same_entry_def)
  show ?thesis
  proof (cases "\<forall>g \<in> set (celldata gl). gce_flags g AND GRID_FLAG_EXTENDED = 0")
    case True
    then have "filter is_ext (celldata gl) = []" by (simp add: filter_empty_conv)
    with True none show ?thesis by (auto simp: grid_compact_line_def)
  next
    case False
    with run spec show ?thesis by (auto simp: grid_compact_line_def)
  qed
qed

lemma entry_ok_same: "same_entry old new g g' \<Longrightarrow> entry_ok (length old) g \<Longrightarrow> entry_ok (length new) g'"
  by (auto simp: same_entry_def entry_ok_def split: if_splits)

lemma line_ok_compact: "line_ok gl \<Longrightarrow> line_ok (grid_compact_line gl)"
proof -
  assume ok: "line_ok gl"
  consider "celldata gl = []" | "extddata gl = []"
    | "list_all2 (same_entry (extddata gl) (extddata (grid_compact_line gl))) (celldata gl)
        (celldata (grid_compact_line gl))" "cellused (grid_compact_line gl) = cellused gl"
    using grid_compact_line_spec [of gl] by blast
  then show ?thesis
  proof cases
    case 1
    with ok show ?thesis by (auto simp: grid_compact_line_def line_ok_def)
  next
    case 2
    with ok show ?thesis by (simp add: grid_compact_line_def)
  next
    case 3
    from 3(1) have "cellsize (grid_compact_line gl) = cellsize gl" by (simp add: list_all2_lengthD)
    moreover have "entry_ok (extdsize (grid_compact_line gl)) g" if "g \<in> set (celldata (grid_compact_line gl))" for g
      using that 3(1) ok entry_ok_same by (fastforce simp: line_ok_def list_all2_conv_all_nth in_set_conv_nth)
    ultimately show ?thesis using 3(2) ok by (simp add: line_ok_def)
  qed
qed

lemma get_cell1_same:
  assumes "same_entry (extddata gl) (extddata gl') (celldata gl ! px) (celldata gl' ! px)"
    "entry_ok (extdsize gl) (celldata gl ! px)"
  shows "grid_get_cell1 tab gl' px = grid_get_cell1 tab gl px"
  using assms by (auto simp: same_entry_def entry_ok_def grid_get_cell1_def Let_def split: if_splits)

lemma grid_compact_line_get:
  assumes "line_ok gl" "px < cellsize gl"
  shows "grid_get_cell1 tab (grid_compact_line gl) px = grid_get_cell1 tab gl px"
proof -
  consider "extddata gl = []"
    | "list_all2 (same_entry (extddata gl) (extddata (grid_compact_line gl))) (celldata gl)
        (celldata (grid_compact_line gl))"
    using grid_compact_line_spec [of gl] assms(2) by force
  then show ?thesis
  proof cases
    case 1
    then show ?thesis by (simp add: grid_compact_line_def)
  next
    case 2
    with assms show ?thesis
      by (intro get_cell1_same) (auto simp: list_all2_conv_all_nth line_ok_def)
  qed
qed

section \<open>Every operation keeps the invariant\<close>

lemma grid_ok_set_line: "grid_ok gd \<Longrightarrow> line_ok gl \<Longrightarrow> grid_ok (set_line py gl gd)"
  by (auto simp: grid_ok_def take_update_swap dest!: subsetD [OF set_update_subset_insert])

lemma grid_ok_nth: "grid_ok gd \<Longrightarrow> py < hsize gd + gd_sy gd \<Longrightarrow> line_ok (linedata gd ! py)"
  by (auto simp: grid_ok_def all_set_conv_all_nth)

lemma grid_ok_scroll: "grid_ok gd \<Longrightarrow> 0 < gd_sy gd \<Longrightarrow> grid_ok (grid_scroll_history now gd bg)"
proof -
  assume ok: "grid_ok gd" and sy: "0 < gd_sy gd"
  obtain v vs where vis: "visible gd = v # vs"
    using length_visible [OF ok] sy by (cases "visible gd") auto
  note eq = scroll_history_eq [OF ok sy, of now bg]
  show ?thesis using ok eq vis
    by (auto simp: grid_ok_parts line_ok_compact)
qed


lemma grid_ok_fold:
  assumes "grid_ok gd" "\<And>x gd. x \<in> set xs \<Longrightarrow> grid_ok gd \<Longrightarrow> grid_ok (f x gd)"
  shows "grid_ok (fold f xs gd)"
  using assms by (induction xs arbitrary: gd) auto

lemma grid_ok_fold_frame:
  assumes "grid_ok gd" "\<And>x gd. x \<in> set xs \<Longrightarrow> grid_ok gd \<Longrightarrow> P gd \<Longrightarrow> grid_ok (f x gd) \<and> P (f x gd)" "P gd"
  shows "grid_ok (fold f xs gd) \<and> P (fold f xs gd)"
  using assms by (induction xs arbitrary: gd) auto

lemma grid_ok_empty_line: "grid_ok gd \<Longrightarrow> grid_ok (grid_empty_line gd py bg)"
  by (simp add: grid_empty_line_def grid_ok_set_line)

lemma grid_ok_unwrap_before:
  "grid_ok gd \<Longrightarrow> py \<le> hsize gd + gd_sy gd \<Longrightarrow> grid_ok (unwrap_before py gd)"
  by (auto simp: unwrap_before_def intro!: grid_ok_set_line grid_ok_nth)

lemma empty_line_frame [simp]:
  "hsize (grid_empty_line gd py bg) = hsize gd" "gd_sy (grid_empty_line gd py bg) = gd_sy gd"
  "gd_sx (grid_empty_line gd py bg) = gd_sx gd"
  "length (linedata (grid_empty_line gd py bg)) = length (linedata gd)"
  by (simp_all add: grid_empty_line_def)

lemma unwrap_before_frame [simp]:
  "hsize (unwrap_before py gd) = hsize gd" "gd_sy (unwrap_before py gd) = gd_sy gd"
  "gd_sx (unwrap_before py gd) = gd_sx gd"
  "length (linedata (unwrap_before py gd)) = length (linedata gd)"
  by (simp_all add: unwrap_before_def)

lemma grid_ok_clear_lines: "grid_ok gd \<Longrightarrow> grid_ok (grid_clear_lines gd py ny bg)"
proof (cases "ny = 0 \<or> \<not> grid_check_y gd py \<or> \<not> grid_check_y gd (py + ny - 1)")
  case False
  assume ok: "grid_ok gd"
  let ?gd = "fold (\<lambda>yy gd. grid_empty_line gd yy bg) [py..<py + ny] gd"
  have "grid_ok ?gd \<and> hsize ?gd + gd_sy ?gd = hsize gd + gd_sy gd"
    by (rule grid_ok_fold_frame [OF ok]) (simp_all add: grid_ok_empty_line)
  with False show ?thesis
    by (auto simp: grid_clear_lines_def grid_check_y_def intro!: grid_ok_unwrap_before)
qed (auto simp: grid_clear_lines_def)

lemma line_ok_clear_in_line: "line_ok gl \<Longrightarrow> line_ok (clear_in_line gsx gl px nx bg)"
  by (auto simp: clear_in_line_def Let_def intro!: fold_clear_keeps grid_expand_line_facts)

lemma grid_ok_clear: "grid_ok gd \<Longrightarrow> grid_ok (grid_clear gd px py nx ny bg)"
proof -
  assume ok: "grid_ok gd"
  let ?f = "\<lambda>yy gd. set_line yy (clear_in_line (gd_sx gd) (linedata gd ! yy) px nx bg) gd"
  have "grid_ok (fold ?f [py..<py + ny] gd)" if "ny \<noteq> 0" "grid_check_y gd (py + ny - 1)"
  proof -
    have "grid_ok (fold ?f [py..<py + ny] gd) \<and>
        hsize (fold ?f [py..<py + ny] gd) + gd_sy (fold ?f [py..<py + ny] gd) = hsize gd + gd_sy gd"
      using that
      by (intro grid_ok_fold_frame [OF ok])
        (auto simp: grid_check_y_def intro!: grid_ok_set_line line_ok_clear_in_line grid_ok_nth)
    then show ?thesis by blast
  qed
  with ok show ?thesis by (auto simp: grid_clear_def grid_ok_clear_lines)
qed

lemma grid_ok_lines_eq:
  "grid_ok gd \<Longrightarrow> length ls = length (linedata gd) \<Longrightarrow>
     \<forall>gl \<in> set (take (hsize gd + gd_sy gd) ls). line_ok gl \<Longrightarrow> grid_ok (gd\<lparr>linedata := ls\<rparr>)"
  by (simp add: grid_ok_def)

lemma move_lines_keeps:
  assumes "dst + n \<le> m" "src + n \<le> m" "m \<le> length ls"
  shows "length (move_lines dst src n ls) = length ls"
    "set (take m (move_lines dst src n ls)) \<subseteq> set (take m ls)"
proof -
  show "length (move_lines dst src n ls) = length ls" using assms by (auto simp: move_lines_def)
  have "take m (move_lines dst src n ls) = take dst ls @ take n (drop src ls) @ take (m - dst - n) (drop (dst + n) ls)"
  proof -
    have "dst \<le> m" "n \<le> m - dst" "min (length ls) dst = dst" "min (length ls - src) n = n" using assms by auto
    then show ?thesis by (simp add: move_lines_def min.absorb2)
  qed
  also have "\<dots> = take dst (take m ls) @ take n (drop src (take m ls)) @ drop (dst + n) (take m ls)"
    using assms by (simp add: drop_take min_def)
  finally have eq: "take m (move_lines dst src n ls) =
      take dst (take m ls) @ take n (drop src (take m ls)) @ drop (dst + n) (take m ls)" .
  show "set (take m (move_lines dst src n ls)) \<subseteq> set (take m ls)"
    unfolding eq set_append
    by (intro Un_least set_take_subset set_drop_subset order_trans [OF set_take_subset set_drop_subset])
qed

lemma grid_ok_move_lines: "grid_ok gd \<Longrightarrow> grid_ok (grid_move_lines gd dy py ny bg)"
proof (cases "ny = 0 \<or> py = dy \<or> \<not> grid_check_y gd py \<or> \<not> grid_check_y gd (py + ny - 1) \<or>
    \<not> grid_check_y gd dy \<or> \<not> grid_check_y gd (dy + ny - 1)")
  case False
  assume ok: "grid_ok gd"
  let ?n = "hsize gd + gd_sy gd"
  from False have b: "py + ny \<le> ?n" "dy + ny \<le> ?n" by (auto simp: grid_check_y_def)
  define gd1 where "gd1 = unwrap_before dy gd"
  have ok1: "grid_ok gd1" using ok b by (simp add: gd1_def grid_ok_unwrap_before)
  define gd2 where "gd2 = gd1\<lparr>linedata := move_lines dy py ny (linedata gd1)\<rparr>"
  have len1: "?n \<le> length (linedata gd1)" using ok by (simp add: gd1_def grid_ok_def)
  have ok2: "grid_ok gd2"
    using ok1 move_lines_keeps [OF b(2,1) len1] unfolding gd2_def
    by (intro grid_ok_lines_eq) (auto simp: gd1_def grid_ok_def)
  define gd3 where "gd3 = fold (\<lambda>yy gd. if yy < dy \<or> yy \<ge> dy + ny then grid_empty_line gd yy bg else gd)
      [py..<py + ny] gd2"
  have "grid_ok gd3 \<and> hsize gd3 + gd_sy gd3 = ?n"
    unfolding gd3_def
    by (rule grid_ok_fold_frame [OF ok2]) (auto simp: grid_ok_empty_line gd2_def gd1_def)
  with False b show ?thesis
    by (auto simp: grid_move_lines_def Let_def grid_ok_unwrap_before
        simp flip: gd1_def gd2_def gd3_def)
qed (auto simp: grid_move_lines_def)

section \<open>Writing a cell\<close>

lemma extended_cell_shape:
  assumes "entry_ok (extdsize gl) gce" "grid_extended_cell tab gl gce gc = Some (tab', gl', gce')"
  obtains k es uc f where
    "gl' = gl\<lparr>gl_flags := f, extddata := es\<rparr>" "gce_u gce' = Offset k" "is_ext gce'"
    "k < length es" "extdsize gl \<le> length es" "\<forall>j < extdsize gl. j \<noteq> k \<longrightarrow> es ! j = extddata gl ! j"
    "is_ext gce \<Longrightarrow> gce' = gce" "\<not> is_ext gce \<Longrightarrow> k = extdsize gl"
    "es ! k = \<lparr>gee_data = uc, gee_attr = gc_attr gc, gee_flags = gc_flags gc AND NOT GRID_FLAG_CLEARED,
       gee_fg = gc_fg gc, gee_bg = gc_bg gc, gee_us = gc_us gc, gee_link = gc_link gc\<rparr>"
    "if gc_flags gc AND GRID_FLAG_TAB \<noteq> 0 then uc = ucast (ud_width (gc_data gc)) \<and> tab' = tab
     else \<exists>r. utf8_from_data tab (gc_data gc) = Some (r, uc, tab')"
proof (cases "is_ext gce")
  case True
  with assms(1) obtain k where k: "gce_u gce = Offset k" "k < extdsize gl" by (auto simp: entry_ok_def)
  show thesis
    using assms(2) True k
    by (intro that [where f = "gl_flags gl OR GRID_LINE_EXTENDED" and es = "extddata gl'" and k = k and uc = "gee_data (extddata gl' ! k)"])
      (auto simp: grid_extended_cell_def Let_def split: if_splits option.splits)
next
  case False
  let ?k = "extdsize gl"
  show thesis
    using assms(2) False
    by (intro that [where f = "gl_flags gl OR GRID_LINE_EXTENDED" and es = "extddata gl'" and k = ?k and uc = "gee_data (extddata gl' ! ?k)"])
      (auto simp: grid_extended_cell_def Let_def grid_get_extended_cell_def nth_append bit.conj_disj_distrib2
        split: if_splits option.splits)
qed

lemma store_cell_not_ext:
  "gc_flags gc AND GRID_FLAG_EXTENDED = 0 \<Longrightarrow> \<not> is_ext (grid_store_cell gc c)"
  by (simp add: grid_store_cell_def bit.conj_disj_distrib2 and.assoc)

lemma line_set_cell_ok:
  assumes "line_ok gl" "px < cellsize gl" "gc_flags gc AND GRID_FLAG_EXTENDED = 0"
    "line_set_cell tab gl px gc = Some (tab', gl')"
  shows "line_ok gl' \<and> cellsize gl' = cellsize gl \<and> cellused gl' = cellused gl"
proof (cases "grid_need_extended_cell (celldata gl ! px) gc")
  case True
  have e: "entry_ok (extdsize gl) (celldata gl ! px)" using assms(1,2) by (simp add: line_ok_def)
  from True assms(4) obtain gl1 gce1 where ext: "grid_extended_cell tab gl (celldata gl ! px) gc = Some (tab', gl1, gce1)"
    and gl': "gl' = gl1\<lparr>celldata := (celldata gl1)[px := gce1]\<rparr>"
    by (auto simp: line_set_cell_def Let_def split: option.splits)
  from extended_cell_shape [OF e ext] obtain k es f where
    s: "gl1 = gl\<lparr>gl_flags := f, extddata := es\<rparr>" "gce_u gce1 = Offset k" "is_ext gce1" "k < length es"
      "extdsize gl \<le> length es" by metis
  then have "entry_ok (length es) gce1" by (simp add: entry_ok_def)
  from line_ok_set [OF assms(1) s(5) this, where px = px and f = f] s(1) gl' show ?thesis by (simp add: line_ok_def)
next
  case False
  let ?g = "grid_store_cell gc (ud_data (gc_data gc) ! 0)"
  have "entry_ok (extdsize gl) ?g"
    using store_cell_not_ext [OF assms(3)] by (simp add: entry_ok_def) (simp add: grid_store_cell_def)
  from line_ok_set [OF assms(1) order_refl this, where px = px and f = "gl_flags gl"] False assms(4) show ?thesis
    by (auto simp add: line_set_cell_def Let_def)
qed

text \<open>A line that fits the column about to be written.\<close>

definition room_for :: "nat \<Rightarrow> grid_line \<Rightarrow> nat \<Rightarrow> grid_line" where
  "room_for gsx gl n =
     (let gl' = grid_expand_line gsx gl n 8
      in gl'\<lparr>cellused := (if n > cellused gl' then n else cellused gl')\<rparr>)"

lemma room_for_facts:
  "line_ok gl \<Longrightarrow> line_ok (room_for gsx gl n)" "n \<le> cellsize (room_for gsx gl n)"
  "cellsize gl \<le> cellsize (room_for gsx gl n)" "n \<le> cellused (room_for gsx gl n)"
  using grid_expand_line_facts [where gl = gl and gsx = gsx and sx = n and bg = 8] by (auto simp: room_for_def Let_def line_ok_def)

lemma grid_set_cell_eq:
  "grid_check_y gd py \<Longrightarrow> grid_set_cell tab gd px py gc =
     (case line_set_cell tab (room_for (gd_sx gd) (linedata gd ! py) (px + 1)) px gc of
        None \<Rightarrow> None | Some (tab', gl) \<Rightarrow> Some (tab', set_line py gl gd))"
  by (simp add: grid_set_cell_def room_for_def Let_def)

lemma grid_ok_set_cell:
  assumes "grid_ok gd" "gc_flags gc AND GRID_FLAG_EXTENDED = 0" "grid_set_cell tab gd px py gc = Some (tab', gd')"
  shows "grid_ok gd'"
proof (cases "grid_check_y gd py")
  case True
  then have ok: "line_ok (room_for (gd_sx gd) (linedata gd ! py) (px + 1))"
    using assms(1) by (simp add: grid_check_y_def grid_ok_nth room_for_facts)
  from assms(3) True obtain gl where gl: "line_set_cell tab (room_for (gd_sx gd) (linedata gd ! py) (px + 1)) px gc = Some (tab', gl)"
    and gd': "gd' = set_line py gl gd"
    by (auto simp: grid_set_cell_eq split: option.splits)
  have "px < cellsize (room_for (gd_sx gd) (linedata gd ! py) (px + 1))"
    using room_for_facts(2) [where n = "px + 1"] by (simp add: Suc_le_eq)
  from line_set_cell_ok [OF ok this assms(2) gl] assms(1) show ?thesis
    unfolding gd' by (intro grid_ok_set_line) auto
next
  case False
  with assms show ?thesis by (simp add: grid_set_cell_def)
qed

end
