(* ===== verification/Grid_Cells.thy ===== *)
theory Grid_Cells
  imports Grid_Facts
begin

text \<open>
  Reading back what was written: a cell stored by \<^verbatim>\<open>grid_set_cell\<close> is read back by
  \<^verbatim>\<open>grid_get_cell\<close>, and no other cell of the grid changes.
\<close>

section \<open>Cells that can be stored\<close>

text \<open>
  Packed cells keep a colour as a palette byte and one flag; the flag bits the entry uses for
  itself must not be set in the cell. A padding cell has size zero, which only the packed form
  would hold.
\<close>

definition colour_ok :: "u32 \<Rightarrow> bool" where
  "colour_ok c \<longleftrightarrow> c AND COLOUR_FLAG_RGB \<noteq> 0 \<or> c AND 0x010000ff = c"

definition storable_cell :: "grid_cell \<Rightarrow> bool" where
  "storable_cell gc \<longleftrightarrow>
     gc_flags gc AND (GRID_FLAG_EXTENDED OR GRID_FLAG_FG256 OR GRID_FLAG_BG256 OR GRID_FLAG_TAB) = 0 \<and>
     utf8_data_ok (gc_data gc) \<and> unat (ud_size (gc_data gc)) < UTF8_SIZE \<and>
     1 \<le> ud_size (gc_data gc) \<and> 1 \<le> ud_width (gc_data gc) \<and>
     colour_ok (gc_fg gc) \<and> colour_ok (gc_bg gc)"

lemma storable_flags:
  assumes "storable_cell gc"
  shows "gc_flags gc AND GRID_FLAG_EXTENDED = 0" "gc_flags gc AND GRID_FLAG_TAB = 0"
    "gc_flags gc AND GRID_FLAG_FG256 = 0" "gc_flags gc AND GRID_FLAG_BG256 = 0"
proof -
  have z: "gc_flags gc AND 0x8B = 0" using assms by (simp add: storable_cell_def)
  have "gc_flags gc AND m = 0" if "0x8B AND m = m" for m
    using arg_cong [OF z, of "\<lambda>x. x AND m"] that by (simp add: and.assoc)
  then show "gc_flags gc AND GRID_FLAG_EXTENDED = 0" "gc_flags gc AND GRID_FLAG_TAB = 0"
    "gc_flags gc AND GRID_FLAG_FG256 = 0" "gc_flags gc AND GRID_FLAG_BG256 = 0"
    by simp_all
qed

lemma utf8_from_data_room:
  assumes "ud_width ud \<le> 2" "unat (ud_size ud) < UTF8_SIZE" "utf8_next_index tab < 2 ^ 24"
  shows "\<exists>uc tab'. utf8_from_data tab ud = Some (UTF8_DONE, uc, tab')"
  using assms by (auto simp: utf8_from_data_def utf8_put_item_def Let_def split: option.splits)

lemma and_pow: "(c :: u32) AND 2 ^ k = (if bit c k then 2 ^ k else 0)"
  by (rule bit_word_eqI) (auto simp: bit_and_iff bit_exp_iff)

lemma colour_packed:
  assumes "colour_ok c" "c AND COLOUR_FLAG_RGB = 0"
  shows "ucast (ucast (c AND 0xff) :: u8) OR (if c AND COLOUR_FLAG_256 \<noteq> 0 then COLOUR_FLAG_256 else 0) = c"
proof -
  have m: "(0xff :: u32) = mask 8" by (simp add: mask_eq_exp_minus_1)
  have "ucast (ucast (c AND 0xff) :: u8) = c AND 0xff"
    unfolding m by (rule bit_word_eqI) (auto simp: bit_and_iff bit_ucast_iff bit_mask_iff)
  moreover have "(if c AND COLOUR_FLAG_256 \<noteq> 0 then COLOUR_FLAG_256 else 0) = c AND COLOUR_FLAG_256"
    using and_pow [of c 24] by (simp split: if_splits)
  moreover have "(c AND 0xff) OR (c AND COLOUR_FLAG_256) = c AND 0x010000ff"
    by (simp flip: bit.conj_disj_distrib)
  ultimately show ?thesis using assms by (simp add: colour_ok_def)
qed


section \<open>One line\<close>

lemma expand_line_default:
  "grid_expand_line gsx gl sx 8 =
     gl\<lparr>celldata := celldata gl @ replicate (cellsize (grid_expand_line gsx gl sx 8) - cellsize gl) grid_cleared_entry\<rparr>"
proof (cases "sx \<le> cellsize gl")
  case False
  have "fold (\<lambda>xx gl. grid_clear_cell gl xx 8 False) [cellsize gl..<cellsize gl + n]
      (gl\<lparr>celldata := celldata gl @ replicate (n + m) zero_entry\<rparr>) =
      gl\<lparr>celldata := celldata gl @ replicate n grid_cleared_entry @ replicate m zero_entry\<rparr>" for n m
  proof (induction n arbitrary: m)
    case (Suc n)
    from Suc.IH [of "Suc m"] show ?case
      by (simp add: grid_clear_cell_def nth_append list_update_append replicate_append_same zero_entry_def)
  qed simp
  from this [of "expand_to gsx sx - cellsize gl" 0] False expand_to_ge [of sx gsx]
  show ?thesis by (simp add: grid_expand_line_def Let_def)
qed (simp add: grid_expand_line_def)

text \<open>No two extended entries of a line share a slot of the side array.\<close>

definition line_unshared :: "grid_line \<Rightarrow> bool" where
  "line_unshared gl \<longleftrightarrow>
     (\<forall>i < cellsize gl. \<forall>j < cellsize gl. i \<noteq> j \<longrightarrow> is_ext (celldata gl ! i) \<longrightarrow> is_ext (celldata gl ! j) \<longrightarrow>
        gce_offset (gce_u (celldata gl ! i)) \<noteq> gce_offset (gce_u (celldata gl ! j)))"


text \<open>Reading a cell depends on its entry and, when extended, on its slot only.\<close>

lemma grid_get_cell1_cong:
  assumes "celldata gl' ! x = celldata gl ! x"
    "is_ext (celldata gl ! x) \<Longrightarrow> gce_offset (gce_u (celldata gl ! x)) < extdsize gl"
    "is_ext (celldata gl ! x) \<Longrightarrow> extdsize gl \<le> extdsize gl' \<and>
       extddata gl' ! gce_offset (gce_u (celldata gl ! x)) = extddata gl ! gce_offset (gce_u (celldata gl ! x))"
  shows "grid_get_cell1 tab gl' x = grid_get_cell1 tab gl x"
  using assms by (auto simp: grid_get_cell1_def Let_def)

lemma and_not_eq: "f AND m = 0 \<Longrightarrow> f AND NOT m = (f :: 'a :: len word)"
proof -
  assume "f AND m = 0"
  then have "\<not> (bit f n \<and> bit m n)" for n by (metis bit_and_iff bit_0_eq bot_apply bot_bool_def)
  then show ?thesis by (intro bit_word_eqI) (auto simp: bit_and_iff bit_not_iff)
qed

lemma store_flags:
  fixes f :: u8 and p q :: bool
  assumes "f AND GRID_FLAG_FG256 = 0" "f AND GRID_FLAG_BG256 = 0"
  defines "g \<equiv> (f AND NOT GRID_FLAG_CLEARED) OR (if p then GRID_FLAG_FG256 else 0) OR (if q then GRID_FLAG_BG256 else 0)"
  shows "g AND GRID_FLAG_FG256 \<noteq> 0 \<longleftrightarrow> p" "g AND GRID_FLAG_BG256 \<noteq> 0 \<longleftrightarrow> q"
    "g AND NOT (GRID_FLAG_FG256 OR GRID_FLAG_BG256) = f AND NOT GRID_FLAG_CLEARED"
proof -
  have z: "(f AND NOT GRID_FLAG_CLEARED) AND GRID_FLAG_FG256 = 0" "(f AND NOT GRID_FLAG_CLEARED) AND GRID_FLAG_BG256 = 0"
    using assms(1,2) by (simp_all add: and.assoc)
  then show "g AND GRID_FLAG_FG256 \<noteq> 0 \<longleftrightarrow> p" "g AND GRID_FLAG_BG256 \<noteq> 0 \<longleftrightarrow> q"
    by (simp_all add: g_def bit.conj_disj_distrib2)
  have "f AND (GRID_FLAG_FG256 OR GRID_FLAG_BG256) = 0"
    using assms(1,2) unfolding bit.conj_disj_distrib by simp
  then have "f AND NOT (GRID_FLAG_FG256 OR GRID_FLAG_BG256) = f" by (rule and_not_eq)
  then have "(f AND NOT GRID_FLAG_CLEARED) AND NOT (GRID_FLAG_FG256 OR GRID_FLAG_BG256) = f AND NOT GRID_FLAG_CLEARED"
    by (simp only: and.assoc and.commute [of "NOT GRID_FLAG_CLEARED"]) (simp only: flip: and.assoc)
  then show "g AND NOT (GRID_FLAG_FG256 OR GRID_FLAG_BG256) = f AND NOT GRID_FLAG_CLEARED"
    by (simp add: g_def bit.conj_disj_distrib2)
qed

lemma store_cell_get:
  assumes "storable_cell gc" "\<not> grid_need_extended_cell gce gc"
    "celldata gl ! x = grid_store_cell gc (ud_data (gc_data gc) ! 0)"
  shows "grid_cells_equal (grid_get_cell1 tab gl x) gc"
proof -
  note need = assms(2) [unfolded grid_need_extended_cell_def]
  have one: "ud_size (gc_data gc) = 1" "ud_width (gc_data gc) = 1"
    using need assms(1) by (auto simp: storable_cell_def intro: antisym)
  have "gc_attr gc \<le> 0xff" using need by auto
  then have "gc_attr gc AND mask 8 = gc_attr gc" by (simp add: mask_eq_iff word_le_def)
  moreover have "ucast (ucast (gc_attr gc) :: u8) = gc_attr gc AND mask 8"
    by (rule bit_word_eqI) (auto simp: bit_and_iff bit_ucast_iff bit_mask_iff)
  ultimately have attr: "ucast (ucast (gc_attr gc) :: u8) = gc_attr gc" by simp
  have len: "ud_data (gc_data gc) \<noteq> []"
    using assms(1) by (auto simp: storable_cell_def utf8_data_ok_def)
  note fl = store_flags [OF storable_flags(3,4) [OF assms(1)]]
  have col: "colour_ok (gc_fg gc)" "colour_ok (gc_bg gc)" "gc_fg gc AND COLOUR_FLAG_RGB = 0" "gc_bg gc AND COLOUR_FLAG_RGB = 0"
    "gc_us gc = 8" "gc_link gc = 0"
    using need assms(1) by (auto simp: storable_cell_def)
  have ne: "\<not> is_ext (celldata gl ! x)"
    using store_cell_not_ext [OF storable_flags(1) [OF assms(1)]] assms(3) by simp
  have "grid_get_cell1 tab gl x = \<lparr>gc_data = utf8_set (ud_data (gc_data gc) ! 0), gc_attr = gc_attr gc,
      gc_flags = gc_flags gc AND NOT GRID_FLAG_CLEARED, gc_fg = gc_fg gc, gc_bg = gc_bg gc, gc_us = 8, gc_link = 0\<rparr>"
    unfolding grid_get_cell1_def Let_def
    using ne attr colour_packed [OF col(1,3)] colour_packed [OF col(2,4)]
    by (simp add: assms(3) grid_store_cell_def fl [simplified] del: bit.de_Morgan_disj)
  then show ?thesis
    using one len col
    by (simp add: grid_cells_equal_def grid_cells_look_equal_def utf8_set_def take_Suc hd_conv_nth)
qed

lemma extended_cell_get:
  assumes "storable_cell gc" "utf8_table_ok tab" "celldata gl ! x = gce" "gce_u gce = Offset k" "is_ext gce"
    "k < extdsize gl" "extddata gl ! k = \<lparr>gee_data = uc, gee_attr = gc_attr gc, gee_flags = gc_flags gc AND NOT GRID_FLAG_CLEARED,
       gee_fg = gc_fg gc, gee_bg = gc_bg gc, gee_us = gc_us gc, gee_link = gc_link gc\<rparr>"
    "utf8_from_data tab (gc_data gc) = Some (UTF8_DONE, uc, tab')" "utf8_table_le tab' later"
  shows "grid_cells_equal (grid_get_cell1 later gl x) gc"
proof -
  have "utf8_to_data later uc = (gc_data gc)\<lparr>ud_have := ud_size (gc_data gc)\<rparr>"
    using utf8_to_from [OF assms(2) _ _ assms(8,9)] assms(1) by (simp add: storable_cell_def)
  moreover have "(gc_flags gc AND NOT GRID_FLAG_CLEARED) AND GRID_FLAG_TAB = 0"
    using storable_flags(2) [OF assms(1)] by (metis and.left_commute and.commute and_zero_eq)
  ultimately show ?thesis
    using assms(3-7)
    by (simp add: grid_get_cell1_def Let_def grid_cells_equal_def grid_cells_look_equal_def)
qed


lemma line_set_cell_shape:
  assumes "line_ok gl" "px < cellsize gl" "storable_cell gc" "utf8_table_ok tab" "utf8_next_index tab < 2 ^ 24"
  obtains tab' f es gce where
    "line_set_cell tab gl px gc = Some (tab', gl\<lparr>celldata := (celldata gl)[px := gce], gl_flags := f, extddata := es\<rparr>)"
    "utf8_table_ok tab'" "utf8_table_le tab tab'"
    "\<And>gl' later. celldata gl' ! px = gce \<Longrightarrow> extddata gl' = es \<Longrightarrow> utf8_table_le tab' later \<Longrightarrow>
       grid_cells_equal (grid_get_cell1 later gl' px) gc"
    "extdsize gl \<le> length es"
    "\<And>j. j < extdsize gl \<Longrightarrow> \<not> (is_ext (celldata gl ! px) \<and> j = gce_offset (gce_u (celldata gl ! px))) \<Longrightarrow>
       es ! j = extddata gl ! j \<and> \<not> (is_ext gce \<and> j = gce_offset (gce_u gce))"
proof (cases "grid_need_extended_cell (celldata gl ! px) gc")
  case True
  have e: "entry_ok (extdsize gl) (celldata gl ! px)" using assms(1,2) by (simp add: line_ok_def)
  have "ud_width (gc_data gc) \<le> 2" "unat (ud_size (gc_data gc)) < UTF8_SIZE"
    using assms(3) by (simp_all add: storable_cell_def utf8_data_ok_def)
  from utf8_from_data_room [OF this assms(5)] obtain uc tab' where
    uc: "utf8_from_data tab (gc_data gc) = Some (UTF8_DONE, uc, tab')" by blast
  have ok: "utf8_table_ok tab'" "utf8_table_le tab tab'"
    using utf8_to_from [OF assms(4) _ _ uc, of tab'] assms(3) by (simp_all add: storable_cell_def utf8_table_le_def)
  have "grid_extended_cell tab gl (celldata gl ! px) gc \<noteq> None"
    using e uc storable_flags(2) [OF assms(3)]
    by (auto simp: grid_extended_cell_def Let_def entry_ok_def grid_get_extended_cell_def split: if_splits)
  then obtain t gl1 gce where ext: "grid_extended_cell tab gl (celldata gl ! px) gc = Some (t, gl1, gce)" by auto
  show thesis
  proof (rule extended_cell_shape [OF e ext])
    fix k es uc' f
    assume s: "gl1 = gl\<lparr>gl_flags := f, extddata := es\<rparr>" "gce_u gce = Offset k" "is_ext gce"
      "k < length es" "extdsize gl \<le> length es" "\<forall>j < extdsize gl. j \<noteq> k \<longrightarrow> es ! j = extddata gl ! j"
      "is_ext (celldata gl ! px) \<Longrightarrow> gce = celldata gl ! px" "\<not> is_ext (celldata gl ! px) \<Longrightarrow> k = extdsize gl"
      and slot: "es ! k = \<lparr>gee_data = uc', gee_attr = gc_attr gc, gee_flags = gc_flags gc AND NOT GRID_FLAG_CLEARED,
       gee_fg = gc_fg gc, gee_bg = gc_bg gc, gee_us = gc_us gc, gee_link = gc_link gc\<rparr>"
      and "if gc_flags gc AND GRID_FLAG_TAB \<noteq> 0 then uc' = ucast (ud_width (gc_data gc)) \<and> t = tab
        else \<exists>r. utf8_from_data tab (gc_data gc) = Some (r, uc', t)"
    then have u: "uc' = uc" "t = tab'" using uc storable_flags(2) [OF assms(3)] by auto
    show thesis
    proof (rule that [where tab' = tab' and f = f and es = es and gce = gce])
      show "line_set_cell tab gl px gc =
          Some (tab', gl\<lparr>celldata := (celldata gl)[px := gce], gl_flags := f, extddata := es\<rparr>)"
        using True ext s(1) u(2) by (simp add: line_set_cell_def Let_def)
      show "grid_cells_equal (grid_get_cell1 later gl' px) gc"
        if "celldata gl' ! px = gce" "extddata gl' = es" "utf8_table_le tab' later" for gl' later
        using extended_cell_get [OF assms(3,4) that(1) s(2,3) _ _ uc that(3)] slot s(4) u(1) that(2) by simp
      show "es ! j = extddata gl ! j \<and> \<not> (is_ext gce \<and> j = gce_offset (gce_u gce))"
        if "j < extdsize gl" "\<not> (is_ext (celldata gl ! px) \<and> j = gce_offset (gce_u (celldata gl ! px)))" for j
        using that s by (cases "is_ext (celldata gl ! px)") auto
    qed (use ok s(5) in auto)
  qed
next
  case False
  show thesis
  proof (rule that [where tab' = tab and f = "gl_flags gl" and es = "extddata gl" and
        gce = "grid_store_cell gc (ud_data (gc_data gc) ! 0)"])
    show "line_set_cell tab gl px gc = Some (tab, gl\<lparr>celldata := (celldata gl)
        [px := grid_store_cell gc (ud_data (gc_data gc) ! 0)], gl_flags := gl_flags gl, extddata := extddata gl\<rparr>)"
      using False by (simp add: line_set_cell_def Let_def)
  qed (use assms False store_cell_get [OF assms(3)] store_cell_not_ext [OF storable_flags(1) [OF assms(3)]]
      in \<open>auto simp: utf8_table_le_def\<close>)
qed


section \<open>The whole grid\<close>

lemma room_for_cells:
  obtains m where "celldata (room_for gsx gl n) = celldata gl @ replicate m grid_cleared_entry"
    "extddata (room_for gsx gl n) = extddata gl"
proof -
  obtain m where "grid_expand_line gsx gl n 8 = gl\<lparr>celldata := celldata gl @ replicate m grid_cleared_entry\<rparr>"
    using expand_line_default by blast
  with that [of m] show thesis by (simp add: room_for_def Let_def)
qed

lemma cleared_reads_default:
  assumes "celldata gl ! x = grid_cleared_entry"
  shows "grid_cells_equal (grid_get_cell1 tab gl x) grid_default_cell"
  using assms
  by (simp add: grid_get_cell1_def grid_cleared_entry_def grid_cells_equal_def grid_cells_look_equal_def
      grid_default_cell_def utf8_set_def)

lemma grid_cells_equal_refl [simp]: "grid_cells_equal gc gc"
  by (simp add: grid_cells_equal_def grid_cells_look_equal_def)

lemma line_unshared_append:
  "line_unshared gl \<Longrightarrow> celldata gl' = celldata gl @ replicate m grid_cleared_entry \<Longrightarrow> line_unshared gl'"
  by (auto simp: line_unshared_def nth_append grid_cleared_entry_def)

lemma set_slot_frame:
  fixes gl :: grid_line and gce f es px
  defines "new \<equiv> gl\<lparr>celldata := (celldata gl)[px := gce], gl_flags := f, extddata := es\<rparr>"
  assumes "line_ok gl" "px < cellsize gl" "line_unshared gl" "extdsize gl \<le> length es"
    and keep: "\<forall>j < extdsize gl. \<not> (is_ext (celldata gl ! px) \<and> j = gce_offset (gce_u (celldata gl ! px))) \<longrightarrow>
      es ! j = extddata gl ! j \<and> \<not> (is_ext gce \<and> j = gce_offset (gce_u gce))"
  shows "line_unshared new" "x \<noteq> px \<Longrightarrow> x < cellsize gl \<Longrightarrow> grid_get_cell1 later new x = grid_get_cell1 later gl x"
proof -
  have slot: "gce_offset (gce_u (celldata gl ! i)) < extdsize gl \<and>
      \<not> (is_ext (celldata gl ! px) \<and> gce_offset (gce_u (celldata gl ! i)) = gce_offset (gce_u (celldata gl ! px)))"
    if "i < cellsize gl" "is_ext (celldata gl ! i)" "i \<noteq> px" for i
    using assms(2-4) that by (fastforce simp: line_ok_def entry_ok_def line_unshared_def dest: nth_mem)
  have other: "\<not> (is_ext gce \<and> gce_offset (gce_u (celldata gl ! i)) = gce_offset (gce_u gce))"
    if "i < cellsize gl" "is_ext (celldata gl ! i)" "i \<noteq> px" for i
    using slot [OF that] keep by blast
  show "line_unshared new"
    unfolding line_unshared_def
  proof (intro allI impI)
    fix i j assume ij: "i < cellsize new" "j < cellsize new" "i \<noteq> j" "is_ext (celldata new ! i)" "is_ext (celldata new ! j)"
    show "gce_offset (gce_u (celldata new ! i)) \<noteq> gce_offset (gce_u (celldata new ! j))"
    proof (cases "i = px \<or> j = px")
      case True
      with ij other [of i] other [of j] show ?thesis by (auto simp: new_def)
    next
      case False
      with ij assms(4) show ?thesis by (auto simp: new_def line_unshared_def)
    qed
  qed
  show "grid_get_cell1 later new x = grid_get_cell1 later gl x" if "x \<noteq> px" "x < cellsize gl"
    using slot [OF that(2) _ that(1)] keep that assms(5) by (intro grid_get_cell1_cong) (auto simp: new_def)
qed

lemma room_for_reads:
  assumes "line_ok (linedata gd ! py)" "grid_check_y gd py" "x < cellsize (room_for gsx (linedata gd ! py) n)"
  shows "grid_cells_equal (grid_get_cell1 later (room_for gsx (linedata gd ! py) n) x) (grid_get_cell later gd x py)"
proof -
  let ?old = "linedata gd ! py" and ?gl = "room_for gsx (linedata gd ! py) n"
  obtain m where m: "celldata ?gl = celldata ?old @ replicate m grid_cleared_entry" "extddata ?gl = extddata ?old"
    by (rule room_for_cells)
  show ?thesis
  proof (cases "x < cellsize ?old")
    case True
    then have "celldata ?old ! x \<in> set (celldata ?old)" by simp
    with assms(1) have "is_ext (celldata ?old ! x) \<Longrightarrow> gce_offset (gce_u (celldata ?old ! x)) < extdsize ?old"
      by (fastforce simp: line_ok_def entry_ok_def)
    then have "grid_get_cell1 later ?gl x = grid_get_cell1 later ?old x"
      using m True by (intro grid_get_cell1_cong) (auto simp: nth_append)
    with True assms(2) show ?thesis by (simp add: grid_get_cell_def)
  next
    case False
    with m assms(3) have "celldata ?gl ! x = grid_cleared_entry" by (simp add: nth_append)
    with False cleared_reads_default show ?thesis by (simp add: grid_get_cell_def)
  qed
qed

lemma grid_set_cell_shape:
  assumes "grid_ok gd" "grid_check_y gd py" "storable_cell gc" "utf8_table_ok tab" "utf8_next_index tab < 2 ^ 24"
  obtains tab' gl where "grid_set_cell tab gd px py gc = Some (tab', set_line py gl gd)" "grid_ok (set_line py gl gd)"
    "utf8_table_ok tab'" "utf8_table_le tab tab'" "px < cellsize gl"
    "\<And>later. utf8_table_le tab' later \<Longrightarrow> grid_cells_equal (grid_get_cell1 later gl px) gc"
    "line_unshared (linedata gd ! py) \<Longrightarrow> line_unshared gl \<and>
       (\<forall>x later. x \<noteq> px \<longrightarrow> x < cellsize gl \<longrightarrow>
          grid_cells_equal (grid_get_cell1 later gl x) (grid_get_cell later gd x py))"
    "cellsize (linedata gd ! py) \<le> cellsize gl"
proof -
  let ?old = "linedata gd ! py" and ?gl = "room_for (gd_sx gd) (linedata gd ! py) (px + 1)"
  have old: "line_ok ?old" using assms(1,2) by (simp add: grid_check_y_def grid_ok_nth)
  have ok: "line_ok ?gl" and px: "px < cellsize ?gl"
    using room_for_facts(1) [OF old] room_for_facts(2) [where n = "px + 1"] by (simp_all add: Suc_le_eq)
  obtain m where m: "celldata ?gl = celldata ?old @ replicate m grid_cleared_entry" "extddata ?gl = extddata ?old"
    by (rule room_for_cells)
  show thesis
  proof (rule line_set_cell_shape [OF ok px assms(3-5)])
    fix tab' f es gce
    let ?new = "?gl\<lparr>celldata := (celldata ?gl)[px := gce], gl_flags := f, extddata := es\<rparr>"
    assume s: "line_set_cell tab ?gl px gc = Some (tab', ?new)" "utf8_table_ok tab'" "utf8_table_le tab tab'"
      and get: "\<And>gl' later. celldata gl' ! px = gce \<Longrightarrow> extddata gl' = es \<Longrightarrow> utf8_table_le tab' later \<Longrightarrow>
        grid_cells_equal (grid_get_cell1 later gl' px) gc"
      and len: "extdsize ?gl \<le> length es"
      and keep: "\<And>j. j < extdsize ?gl \<Longrightarrow> \<not> (is_ext (celldata ?gl ! px) \<and> j = gce_offset (gce_u (celldata ?gl ! px))) \<Longrightarrow>
        es ! j = extddata ?gl ! j \<and> \<not> (is_ext gce \<and> j = gce_offset (gce_u gce))"
    have set: "grid_set_cell tab gd px py gc = Some (tab', set_line py ?new gd)"
      using s(1) by (simp add: grid_set_cell_eq [OF assms(2)])
    show thesis
    proof (rule that [OF set])
      show "grid_ok (set_line py ?new gd)"
        by (rule grid_ok_set_cell [OF assms(1) storable_flags(1) [OF assms(3)] set])
      show "grid_cells_equal (grid_get_cell1 later ?new px) gc" if "utf8_table_le tab' later" for later
        using get that px by simp
      show "line_unshared ?new \<and> (\<forall>x later. x \<noteq> px \<longrightarrow> x < cellsize ?new \<longrightarrow>
          grid_cells_equal (grid_get_cell1 later ?new x) (grid_get_cell later gd x py))" if "line_unshared ?old"
      proof (intro conjI allI impI)
        have un: "line_unshared ?gl" by (rule line_unshared_append [OF that m(1)])
        have "\<forall>j < extdsize ?gl. \<not> (is_ext (celldata ?gl ! px) \<and> j = gce_offset (gce_u (celldata ?gl ! px))) \<longrightarrow>
            es ! j = extddata ?gl ! j \<and> \<not> (is_ext gce \<and> j = gce_offset (gce_u gce))"
          using keep by blast
        note frame = set_slot_frame [OF ok px un len this]
        show "line_unshared ?new" by (rule frame(1))
        show "grid_cells_equal (grid_get_cell1 later ?new x) (grid_get_cell later gd x py)"
          if "x \<noteq> px" "x < cellsize ?new" for x later
          using frame(2) [OF that(1)] room_for_reads [OF old assms(2)] that(2) by simp
      qed
    qed (use s px m in auto)
  qed
qed


text \<open>
  C33. Writing a cell and reading it back: on a well-formed grid, for a row of the grid and a
  storable cell, with room left in the character table, \<^verbatim>\<open>grid_set_cell\<close> returns, leaves a
  well-formed grid and only extends the table, and \<^verbatim>\<open>grid_get_cell\<close> at that position then
  gives a cell equal to the one written, also after any later extension of the table.
\<close>

theorem grid_set_cell_get:
  assumes "grid_ok gd" "grid_check_y gd py" "storable_cell gc" "utf8_table_ok tab" "utf8_next_index tab < 2 ^ 24"
  shows "\<exists>tab' gd'. grid_set_cell tab gd px py gc = Some (tab', gd') \<and> grid_ok gd' \<and>
    utf8_table_ok tab' \<and> utf8_table_le tab tab' \<and>
    (\<forall>later. utf8_table_le tab' later \<longrightarrow> grid_cells_equal (grid_get_cell later gd' px py) gc)"
proof (rule grid_set_cell_shape [OF assms, of px])
  fix tab' gl
  assume s: "grid_set_cell tab gd px py gc = Some (tab', set_line py gl gd)" "grid_ok (set_line py gl gd)"
    "utf8_table_ok tab'" "utf8_table_le tab tab'" "px < cellsize gl"
    "\<And>later. utf8_table_le tab' later \<Longrightarrow> grid_cells_equal (grid_get_cell1 later gl px) gc"
  have "linedata (set_line py gl gd) ! py = gl"
    using assms(1,2) by (simp add: grid_ok_def grid_check_y_def)
  with s assms(2) show ?thesis by (auto simp: grid_get_cell_def grid_check_y_def)
qed

definition demo_cell :: grid_cell where
  "demo_cell = grid_default_cell\<lparr>gc_data := demo_ud, gc_fg := 0x02ff8000\<rparr>"

lemma demo_cell_facts:
  "storable_cell demo_cell" "utf8_table_ok demo_tab" "utf8_next_index demo_tab < 2 ^ 24"
  "grid_check_y (grid_create 4 2 10) 1" "line_unshared (linedata (grid_create 4 2 10) ! 1)"
  by (simp_all add: storable_cell_def demo_cell_def grid_default_cell_def demo_ud_def utf8_data_ok_def colour_ok_def
      demo_tab_def utf8_table_ok_def grid_check_y_def grid_create_def line_unshared_def zero_line_def)

theorem grid_set_cell_get_witness:
  "\<exists>tab' gd'. grid_set_cell demo_tab (grid_create 4 2 10) 2 1 demo_cell = Some (tab', gd') \<and>
     grid_cells_equal (grid_get_cell tab' gd' 2 1) demo_cell"
  using grid_set_cell_get [OF grid_ok_create demo_cell_facts(4,1,2,3), of 2]
  by (auto simp: utf8_table_le_def)

text \<open>
  C34. Writing a cell leaves every other cell of the grid as it reads: in the other rows, and in
  the same row when no two of its entries share an extended slot, which writing keeps true.
  (Columns past the end of the line read as the default cell before and as a cleared cell after.)
\<close>

theorem grid_set_cell_frame:
  assumes "grid_ok gd" "grid_check_y gd py" "storable_cell gc" "utf8_table_ok tab" "utf8_next_index tab < 2 ^ 24"
    "line_unshared (linedata gd ! py)" "grid_set_cell tab gd px py gc = Some (tab', gd')" "x \<noteq> px \<or> y \<noteq> py"
  shows "grid_cells_equal (grid_get_cell later gd' x y) (grid_get_cell later gd x y) \<and>
    line_unshared (linedata gd' ! py)"
proof (rule grid_set_cell_shape [OF assms(1-5), of px])
  fix t gl
  assume s: "grid_set_cell tab gd px py gc = Some (t, set_line py gl gd)" "grid_ok (set_line py gl gd)"
    "line_unshared (linedata gd ! py) \<Longrightarrow> line_unshared gl \<and>
       (\<forall>x later. x \<noteq> px \<longrightarrow> x < cellsize gl \<longrightarrow>
          grid_cells_equal (grid_get_cell1 later gl x) (grid_get_cell later gd x py))"
    "cellsize (linedata gd ! py) \<le> cellsize gl"
  have py: "linedata gd' ! py = gl" "gd' = set_line py gl gd"
    using assms(1,2,7) s(1) by (auto simp: grid_ok_def grid_check_y_def)
  have "grid_cells_equal (grid_get_cell later gd' x y) (grid_get_cell later gd x y)"
  proof (cases "y = py")
    case True
    then show ?thesis
      using s(3) [OF assms(6)] s(4) assms(2,8) py
      by (cases "x < cellsize gl") (auto simp: grid_get_cell_def [of _ gd'] grid_check_y_def grid_get_cell_def)
  next
    case False
    then show ?thesis using py(2) by (simp add: grid_get_cell_def grid_check_y_def)
  qed
  with s(3) [OF assms(6)] py show ?thesis by simp
qed


theorem grid_set_cell_frame_witness:
  "\<exists>tab' gd'. grid_set_cell demo_tab (grid_create 4 2 10) 2 1 demo_cell = Some (tab', gd') \<and>
     grid_cells_equal (grid_get_cell tab' gd' 3 1) grid_default_cell"
proof (rule grid_set_cell_shape [OF grid_ok_create demo_cell_facts(4,1,2,3), of 2])
  fix tab' gl
  assume run: "grid_set_cell demo_tab (grid_create 4 2 10) 2 1 demo_cell = Some (tab', set_line 1 gl (grid_create 4 2 10))"
  have "grid_get_cell tab' (grid_create 4 2 10) 3 1 = grid_default_cell"
    by (simp add: grid_get_cell_def grid_create_def zero_line_def)
  with grid_set_cell_frame [OF grid_ok_create demo_cell_facts(4,1,2,3,5) run, of 3 1 tab'] run show ?thesis by simp
qed

end
