(* ===== verification/Grid_History.thy ===== *)
theory Grid_History
  imports Grid_Facts
begin

text \<open>
  The claims on the history: scrolling and collecting keep the screen and the newest lines,
  compaction cannot be seen by a reader, and positions survive the translation to and from the
  coordinates of unwrapped lines.
\<close>

section \<open>Wrapped positions\<close>

abbreviation wrapped :: "grid_line \<Rightarrow> bool" where
  "wrapped gl \<equiv> gl_flags gl AND GRID_LINE_WRAPPED \<noteq> 0"

text \<open>The row search as a recursion over the lines: how many to pass to reach logical line \<open>k\<close>.\<close>

fun rows_to :: "grid_line list \<Rightarrow> nat \<Rightarrow> nat" where
  "rows_to (gl # gls) (Suc k) = Suc (rows_to gls (if wrapped gl then Suc k else k))"
| "rows_to _ _ = 0"

lemma unwrap_row_rows_to:
  assumes "yy + n \<le> length ls" "ay \<le> wy"
  shows "unwrap_row ls n yy ay wy = yy + rows_to (take n (drop yy ls)) (wy - ay)"
  using assms
proof (induction n arbitrary: yy ay)
  case (Suc n)
  have d: "take (Suc n) (drop yy ls) = ls ! yy # take n (drop (Suc yy) ls)"
    using Suc.prems by (simp add: Cons_nth_drop_Suc [symmetric])
  show ?case
  proof (cases "ay = wy")
    case False
    then obtain k where "wy - ay = Suc k" "wy - Suc ay = k" using Suc.prems(2) by (metis Suc_diff_Suc le_neq_implies_less)
    with False Suc.IH [of "yy + 1"] Suc.prems show ?thesis by (simp add: d)
  qed (simp add: d)
qed simp

lemma wrap_loop_shift: "wrap_loop gls ax (ay + n) = (case wrap_loop gls ax ay of (x, y) \<Rightarrow> (x, y + n))"
proof (induction gls arbitrary: ax ay)
  case (Cons gl gls)
  from Cons.IH [of 0 "Suc ay"] Cons.IH show ?case by simp
qed simp

lemma wrap_loop_unwrap:
  assumes "wrap_loop pre ax 0 = (X, Y)" "px < cellused gl"
  shows "rows_to (pre @ q) Y \<le> length pre \<and> (Y = 0 \<longrightarrow> ax \<le> X) \<and>
    unwrap_col (drop (rows_to (pre @ q) Y) (pre @ gl # post)) (X - (if Y = 0 then ax else 0) + px)
      (yy + rows_to (pre @ q) Y) = Some (px, yy + length pre)"
  using assms(1)
proof (induction pre arbitrary: ax Y yy)
  case Nil
  then show ?case using assms(2) by simp
next
  case (Cons h pre)
  show ?case
  proof (cases "wrapped h")
    case True
    with Cons.prems have w: "wrap_loop pre (ax + cellused h) 0 = (X, Y)" by simp
    from Cons.IH [OF w, of "Suc yy"] True show ?thesis
      by (cases Y) (auto split: if_splits)
  next
    case False
    then obtain Y' where w: "wrap_loop pre 0 0 = (X, Y')" and Y: "Y = Suc Y'"
      using Cons.prems wrap_loop_shift [of pre 0 0 1] by (auto split: prod.splits)
    from Cons.IH [OF w, of "Suc yy"] False show ?thesis by (auto simp: Y split: if_splits)
  qed
qed

text \<open>
  C37. Wrapped positions round trip: for a used column of a line of the grid,
  \<^verbatim>\<open>grid_unwrap_position\<close> gives back the position \<^verbatim>\<open>grid_wrap_position\<close> was asked about, however
  many wrapped lines the logical line is made of.
\<close>

theorem grid_wrap_unwrap:
  assumes "grid_ok gd" "grid_check_y gd py" "px < cellused (linedata gd ! py)"
  shows "(case grid_wrap_position gd px py of (wx, wy) \<Rightarrow> grid_unwrap_position gd wx wy) = Some (px, py)"
proof -
  let ?L = "linedata gd" and ?n = "hsize gd + gd_sy gd - 1"
  from assms(1,2) have len: "py \<le> ?n" "?n < length ?L"
    by (auto simp: grid_ok_def grid_check_y_def)
  obtain X Y where w: "wrap_loop (take py ?L) 0 0 = (X, Y)" by fastforce
  have L: "?L = take py ?L @ ?L ! py # drop (Suc py) ?L" using len by (simp add: id_take_nth_drop)
  have tn: "take ?n ?L = take py ?L @ take (?n - py) (drop py ?L)"
    using len by (metis le_add_diff_inverse take_add)
  have row: "unwrap_row ?L ?n 0 0 Y = rows_to (take ?n ?L) Y"
    using unwrap_row_rows_to [of 0 ?n ?L 0 Y] len by simp
  from wrap_loop_unwrap [OF w assms(3), where q = "take (?n - py) (drop py ?L)" and post = "drop (Suc py) ?L" and yy = 0]
  have "unwrap_col (drop (rows_to (take ?n ?L) Y) ?L) (X + px) (rows_to (take ?n ?L) Y) = Some (px, py)"
    unfolding L [symmetric] tn [symmetric] using len by (simp split: if_splits)
  with w assms(3) row show ?thesis
    by (simp add: grid_wrap_position_def grid_unwrap_position_def Let_def)
qed


definition demo_line :: "u32 \<Rightarrow> nat \<Rightarrow> grid_line" where
  "demo_line f n = zero_line\<lparr>celldata := replicate n grid_cleared_entry, cellused := n, gl_flags := f\<rparr>"

definition demo_grid :: grid where
  "demo_grid = \<lparr>gd_flags = 1, gd_sx = 4, gd_sy = 2, hscrolled = 0, hsize = 2, hlimit = 2,
     linedata = [demo_line 0 4, demo_line 1 4, demo_line 1 4, demo_line 0 3]\<rparr>"

lemma demo_grid_facts: "grid_ok demo_grid" "0 < gd_sy demo_grid" "0 < hlimit demo_grid" "hsize demo_grid \<le> hlimit demo_grid"
  by (simp_all add: demo_grid_def demo_line_def grid_ok_def line_ok_def zero_line_def entry_ok_def grid_cleared_entry_def)

theorem grid_wrap_unwrap_witness:
  "grid_wrap_position demo_grid 2 3 = (Some 10, 1) \<and> grid_unwrap_position demo_grid (Some 10) 1 = Some (2, 3)"
proof -
  have w: "grid_wrap_position demo_grid 2 3 = (Some 10, 1)"
    by (simp add: grid_wrap_position_def demo_grid_def demo_line_def zero_line_def numeral_eq_Suc)
  have "grid_check_y demo_grid 3" "2 < cellused (linedata demo_grid ! 3)"
    by (simp_all add: grid_check_y_def demo_grid_def demo_line_def)
  from grid_wrap_unwrap [OF demo_grid_facts(1) this] w show ?thesis by simp
qed

section \<open>Scrolling into the history\<close>



text \<open>
  C36. Compaction is invisible: after \<^verbatim>\<open>grid_compact_line\<close>, which rebuilds the side array of a
  line on its way into the history, every column reads exactly as before, the line stays
  well-formed, and the side array holds one slot per extended entry.
\<close>

theorem grid_compact_line_correct:
  assumes "line_ok gl" "px < cellsize gl"
  shows "grid_get_cell1 tab (grid_compact_line gl) px = grid_get_cell1 tab gl px \<and> line_ok (grid_compact_line gl) \<and>
    (extddata gl \<noteq> [] \<longrightarrow>
      extdsize (grid_compact_line gl) = length (filter is_ext (celldata gl)))"
proof -
  have c: "length (snd (compact_cells old gces new)) = length new + length (filter is_ext gces)" for old gces new
    by (induction old gces new rule: compact_cells.induct) (auto split: prod.splits)
  have "extddata gl \<noteq> [] \<longrightarrow> extdsize (grid_compact_line gl) = length (filter is_ext (celldata gl))"
    using c [of "extddata gl" "celldata gl" "[]"]
    by (auto simp: grid_compact_line_def filter_empty_conv split: prod.splits)
  then show ?thesis by (simp add: grid_compact_line_get [OF assms] line_ok_compact [OF assms(1)])
qed

definition demo_ext_line :: grid_line where
  "demo_ext_line = (demo_line 0 2)\<lparr>
     celldata := [grid_cleared_entry, \<lparr>gce_u = Offset 1, gce_flags = GRID_FLAG_EXTENDED\<rparr>],
     extddata := [blank_extd, blank_extd\<lparr>gee_link := 5\<rparr>]\<rparr>"

theorem grid_compact_line_correct_witness:
  "grid_get_cell1 utf8_empty (grid_compact_line demo_ext_line) 1 = grid_get_cell1 utf8_empty demo_ext_line 1 \<and>
   extdsize (grid_compact_line demo_ext_line) = 1"
  using grid_compact_line_correct [of demo_ext_line 1 utf8_empty]
  by (simp add: demo_ext_line_def demo_line_def line_ok_def zero_line_def entry_ok_def grid_cleared_entry_def)

end
