(* ===== verification/Layout.thy ===== *)
theory Layout
  imports Prelude
begin

text \<open>
  The layout tree of a window, \<^verbatim>\<open>windows/layout.c\<close>: leaves hold panes, nodes put their children
  side by side or on top of each other with one separator column or line between two of them.
  A cell is its data and the list of its children; the parent pointer of the source is the
  position in the tree. A cell of the tree is named by its path (child numbers from the root),
  the cell of a pane is the leaf that carries its id. Sizes and offsets are 32-bit words, so
  that all additions wrap as in C; \<^verbatim>\<open>int\<close> changes of size are integers.

  The options and the scrollbar style a window reads are the record \<open>layout_env\<close>. Whether a cell
  is at the top or at the bottom of the window depends on its position only; the recursive
  functions carry this pair of flags (\<open>edges\<close>) on the way down.
\<close>

section \<open>Data\<close>

datatype layout_type = LAYOUT_LEFTRIGHT | LAYOUT_TOPBOTTOM | LAYOUT_FLOATING | LAYOUT_WINDOWPANE

record lcell =
  lc_type :: layout_type
  lc_sx :: u32
  lc_sy :: u32
  lc_xoff :: u32
  lc_yoff :: u32
  lc_wp :: "nat option"

datatype layout_cell = Cell (lc_data: lcell) (lc_cells: "layout_cell list")

datatype pane_status = PANE_STATUS_OFF | PANE_STATUS_TOP | PANE_STATUS_BOTTOM

record layout_env =
  pane_border_status :: pane_status
  pane_scrollbars :: bool
  sb_width :: u32
  sb_pad :: u32

type_synonym edges = "bool \<times> bool"

abbreviation PANE_MINIMUM :: u32 where "PANE_MINIMUM \<equiv> 1"

section \<open>Cells\<close>

definition layout_create_cell :: layout_cell where
  "layout_create_cell = Cell \<lparr>lc_type = LAYOUT_WINDOWPANE, lc_sx = uint_max, lc_sy = uint_max,
     lc_xoff = 0x7fffffff, lc_yoff = 0x7fffffff, lc_wp = None\<rparr> []"

fun map_data :: "(lcell \<Rightarrow> lcell) \<Rightarrow> layout_cell \<Rightarrow> layout_cell" where
  "map_data f (Cell d cs) = Cell (f d) cs"

definition layout_set_size :: "layout_cell \<Rightarrow> u32 \<Rightarrow> u32 \<Rightarrow> u32 \<Rightarrow> u32 \<Rightarrow> layout_cell" where
  "layout_set_size lc sx sy xoff yoff =
     map_data (\<lambda>d. d\<lparr>lc_sx := sx, lc_sy := sy, lc_xoff := xoff, lc_yoff := yoff\<rparr>) lc"

definition layout_make_leaf :: "layout_cell \<Rightarrow> nat \<Rightarrow> layout_cell" where
  "layout_make_leaf lc wp = Cell ((lc_data lc)\<lparr>lc_type := LAYOUT_WINDOWPANE, lc_wp := Some wp\<rparr>) []"

text \<open>\<open>None\<close> is \<^verbatim>\<open>fatalx\<close>.\<close>

definition layout_make_node :: "layout_cell \<Rightarrow> layout_type \<Rightarrow> layout_cell option" where
  "layout_make_node lc type =
     (if type = LAYOUT_WINDOWPANE then None
      else Some (Cell ((lc_data lc)\<lparr>lc_type := type, lc_wp := None\<rparr>) []))"

text \<open>The panes of a layout in the order of \<^verbatim>\<open>layout_fix_zindexes\<close> and \<^verbatim>\<open>layout_assign\<close>.\<close>

fun layout_panes :: "layout_cell \<Rightarrow> nat option list" where
  "layout_panes (Cell d cs) = (if lc_type d = LAYOUT_WINDOWPANE then [lc_wp d] else concat (map layout_panes cs))"

fun layout_count_cells :: "layout_cell \<Rightarrow> nat" where
  "layout_count_cells (Cell d cs) =
     (if lc_type d = LAYOUT_WINDOWPANE then 1 else sum_list (map layout_count_cells cs))"

definition inside_cell :: "u32 \<Rightarrow> u32 \<Rightarrow> lcell \<Rightarrow> bool" where
  "inside_cell x y d \<longleftrightarrow>
     sint x \<ge> sint (lc_xoff d) \<and> sint x < sint (lc_xoff d) + sint (lc_sx d) \<and>
     sint y \<ge> sint (lc_yoff d) \<and> sint y < sint (lc_yoff d) + sint (lc_sy d)"

fun layout_search_by_border :: "layout_cell \<Rightarrow> u32 \<Rightarrow> u32 \<Rightarrow> layout_cell option"
  and search_cells :: "layout_type \<Rightarrow> layout_cell option \<Rightarrow> layout_cell list \<Rightarrow> u32 \<Rightarrow> u32 \<Rightarrow> layout_cell option" where
  "layout_search_by_border (Cell d cs) x y = search_cells (lc_type d) None cs x y"
| "search_cells type prev [] x y = None"
| "search_cells type prev (c # cs) x y =
     (if inside_cell x y (lc_data c) then layout_search_by_border c x y
      else case prev of
        None \<Rightarrow> search_cells type (Some c) cs x y
      | Some l \<Rightarrow>
          if type = LAYOUT_LEFTRIGHT \<and> sint x < sint (lc_xoff (lc_data c)) \<and>
             sint x \<ge> sint (lc_xoff (lc_data l)) + sint (lc_sx (lc_data l)) then Some l
          else if type = LAYOUT_TOPBOTTOM \<and> sint y < sint (lc_yoff (lc_data c)) \<and>
             sint y \<ge> sint (lc_yoff (lc_data l)) + sint (lc_sy (lc_data l)) then Some l
          else search_cells type (Some c) cs x y)"

section \<open>Offsets\<close>

fun layout_fix_offsets1 :: "layout_cell \<Rightarrow> layout_cell"
  and fix_leftright :: "u32 \<Rightarrow> u32 \<Rightarrow> layout_cell list \<Rightarrow> layout_cell list"
  and fix_topbottom :: "u32 \<Rightarrow> u32 \<Rightarrow> layout_cell list \<Rightarrow> layout_cell list"
  and fix_child :: "u32 \<Rightarrow> u32 \<Rightarrow> layout_cell \<Rightarrow> layout_cell" where
  "layout_fix_offsets1 (Cell d cs) =
     Cell d (if lc_type d = LAYOUT_LEFTRIGHT then fix_leftright (lc_xoff d) (lc_yoff d) cs
             else fix_topbottom (lc_xoff d) (lc_yoff d) cs)"
| "fix_leftright x y [] = []"
| "fix_leftright x y (c # cs) = fix_child x y c # fix_leftright (x + (lc_sx (lc_data c) + 1)) y cs"
| "fix_topbottom x y [] = []"
| "fix_topbottom x y (c # cs) = fix_child x y c # fix_topbottom x (y + (lc_sy (lc_data c) + 1)) cs"
| "fix_child x y (Cell d cs) =
     (let d' = d\<lparr>lc_xoff := x, lc_yoff := y\<rparr>
      in if lc_type d = LAYOUT_WINDOWPANE then Cell d' cs
         else Cell d' (if lc_type d = LAYOUT_LEFTRIGHT then fix_leftright x y cs else fix_topbottom x y cs))"

definition layout_fix_offsets :: "layout_cell \<Rightarrow> layout_cell" where
  "layout_fix_offsets root = layout_fix_offsets1 (map_data (\<lambda>d. d\<lparr>lc_xoff := 0, lc_yoff := 0\<rparr>) root)"

section \<open>Room for resizing\<close>

text \<open>
  \<^verbatim>\<open>layout_cell_is_top\<close> and \<^verbatim>\<open>layout_cell_is_bottom\<close> walk up from the cell; going down, child \<open>i\<close>
  of \<open>n\<close> stays at the edge unless the cells are stacked and it is not the first (last).
\<close>

definition child_edge :: "layout_type \<Rightarrow> nat \<Rightarrow> nat \<Rightarrow> edges \<Rightarrow> edges" where
  "child_edge type i n e =
     (fst e \<and> (type = LAYOUT_TOPBOTTOM \<longrightarrow> i = 0), snd e \<and> (type = LAYOUT_TOPBOTTOM \<longrightarrow> Suc i = n))"

definition layout_add_horizontal_border :: "edges \<Rightarrow> pane_status \<Rightarrow> bool" where
  "layout_add_horizontal_border e status =
     (if status = PANE_STATUS_TOP then fst e else if status = PANE_STATUS_BOTTOM then snd e else False)"

text \<open>The free space of a leaf.\<close>

definition leaf_room :: "layout_env \<Rightarrow> layout_type \<Rightarrow> edges \<Rightarrow> lcell \<Rightarrow> u32" where
  "leaf_room env type e d =
     (let available = (if type = LAYOUT_LEFTRIGHT then lc_sx d else lc_sy d);
          minimum = (if type = LAYOUT_LEFTRIGHT
                     then if pane_scrollbars env then PANE_MINIMUM + sb_width env + sb_pad env else PANE_MINIMUM
                     else if layout_add_horizontal_border e (pane_border_status env) then PANE_MINIMUM + 1
                     else PANE_MINIMUM)
      in if available > minimum then available - minimum else 0)"

definition fold_min :: "u32 list \<Rightarrow> u32" where
  "fold_min as = fold (\<lambda>a m. if a < m then a else m) as uint_max"

fun layout_resize_check :: "layout_env \<Rightarrow> layout_type \<Rightarrow> edges \<Rightarrow> layout_cell \<Rightarrow> u32"
  and check_cells :: "layout_env \<Rightarrow> layout_type \<Rightarrow> edges \<Rightarrow> layout_type \<Rightarrow> nat \<Rightarrow> nat \<Rightarrow> layout_cell list \<Rightarrow> u32 list" where
  "layout_resize_check env type e (Cell d cs) =
     (if lc_type d = LAYOUT_WINDOWPANE then leaf_room env type e d
      else if lc_type d = type then sum_list (check_cells env type e (lc_type d) 0 (length cs) cs)
      else fold_min (check_cells env type e (lc_type d) 0 (length cs) cs))"
| "check_cells env type e ptype i n [] = []"
| "check_cells env type e ptype i n (c # cs) =
     layout_resize_check env type (child_edge ptype i n e) c # check_cells env type e ptype (Suc i) n cs"

section \<open>Changing sizes\<close>

definition grow_data :: "layout_type \<Rightarrow> int \<Rightarrow> lcell \<Rightarrow> lcell" where
  "grow_data type change d =
     (if type = LAYOUT_LEFTRIGHT then d\<lparr>lc_sx := lc_sx d + of_int change\<rparr>
      else d\<lparr>lc_sy := lc_sy d + of_int change\<rparr>)"

text \<open>
  \<^verbatim>\<open>layout_resize_adjust\<close> shares a change among the children of a node of the same direction one
  unit at a time, so its recursive calls there have the change 1 or -1. \<open>adjust_one\<close> is the
  function at those two values (\<open>layout_resize_adjust_one\<close>), \<open>adjust_first\<close> the loop then.
  \<open>None\<close> is a loop that does not end.
\<close>

fun adjust_one :: "layout_env \<Rightarrow> layout_type \<Rightarrow> bool \<Rightarrow> edges \<Rightarrow> layout_cell \<Rightarrow> layout_cell option"
  and adjust_each :: "layout_env \<Rightarrow> layout_type \<Rightarrow> bool \<Rightarrow> edges \<Rightarrow> layout_type \<Rightarrow> nat \<Rightarrow> nat \<Rightarrow> layout_cell list \<Rightarrow> layout_cell list option"
  and adjust_first :: "layout_env \<Rightarrow> layout_type \<Rightarrow> bool \<Rightarrow> edges \<Rightarrow> layout_type \<Rightarrow> nat \<Rightarrow> nat \<Rightarrow> layout_cell list \<Rightarrow> layout_cell list option" where
  "adjust_one env type up e (Cell d cs) =
     (let d' = grow_data type (if up then 1 else -1) d
      in if type = LAYOUT_WINDOWPANE then Some (Cell d' cs)
         else if lc_type d \<noteq> type
         then map_option (Cell d') (adjust_each env type up e (lc_type d) 0 (length cs) cs)
         else map_option (Cell d') (adjust_first env type up e (lc_type d) 0 (length cs) cs))"
| "adjust_each env type up e ptype i n [] = Some []"
| "adjust_each env type up e ptype i n (c # cs) =
     (case adjust_one env type up (child_edge ptype i n e) c of None \<Rightarrow> None
      | Some c' \<Rightarrow> map_option ((#) c') (adjust_each env type up e ptype (Suc i) n cs))"
| "adjust_first env type up e ptype i n [] = None"
| "adjust_first env type up e ptype i n (c # cs) =
     (if up \<or> layout_resize_check env type (child_edge ptype i n e) c > 0
      then map_option (\<lambda>c'. c' # cs) (adjust_one env type up (child_edge ptype i n e) c)
      else map_option ((#) c) (adjust_first env type up e ptype (Suc i) n cs))"

text \<open>One pass of the loop over the children, with the change that is left.\<close>

fun adjust_pass ::
  "layout_env \<Rightarrow> layout_type \<Rightarrow> edges \<Rightarrow> layout_type \<Rightarrow> nat \<Rightarrow> nat \<Rightarrow> int \<Rightarrow> layout_cell list \<Rightarrow>
     (int \<times> layout_cell list) option" where
  "adjust_pass env type e ptype i n change [] = Some (change, [])"
| "adjust_pass env type e ptype i n change (c # cs) =
     (if change = 0 then Some (0, c # cs)
      else if change > 0 then
        (case adjust_one env type True (child_edge ptype i n e) c of None \<Rightarrow> None
         | Some c' \<Rightarrow> map_option (map_prod id ((#) c')) (adjust_pass env type e ptype (Suc i) n (change - 1) cs))
      else if layout_resize_check env type (child_edge ptype i n e) c > 0 then
        (case adjust_one env type False (child_edge ptype i n e) c of None \<Rightarrow> None
         | Some c' \<Rightarrow> map_option (map_prod id ((#) c')) (adjust_pass env type e ptype (Suc i) n (change + 1) cs))
      else map_option (map_prod id ((#) c)) (adjust_pass env type e ptype (Suc i) n change cs))"

text \<open>
  The loop over the passes. A pass that leaves the change as it was leaves the children as they
  were (\<open>adjust_pass_stuck\<close>), so the loop would run forever: \<open>None\<close>.
\<close>

function adjust_loop ::
  "layout_env \<Rightarrow> layout_type \<Rightarrow> edges \<Rightarrow> layout_type \<Rightarrow> int \<Rightarrow> layout_cell list \<Rightarrow> layout_cell list option" where
  "adjust_loop env type e ptype change cs =
     (if change = 0 then Some cs
      else case adjust_pass env type e ptype 0 (length cs) change cs of
        None \<Rightarrow> None
      | Some (change', cs') \<Rightarrow>
          if \<bar>change'\<bar> < \<bar>change\<bar> then adjust_loop env type e ptype change' cs' else None)"
  by pat_completeness auto
termination
  by (relation "measure (\<lambda>(_, _, _, _, change, _). nat \<bar>change\<bar>)") auto

declare adjust_loop.simps [simp del]

fun layout_resize_adjust :: "layout_env \<Rightarrow> layout_type \<Rightarrow> int \<Rightarrow> edges \<Rightarrow> layout_cell \<Rightarrow> layout_cell option"
  and adjust_all :: "layout_env \<Rightarrow> layout_type \<Rightarrow> int \<Rightarrow> edges \<Rightarrow> layout_type \<Rightarrow> nat \<Rightarrow> nat \<Rightarrow> layout_cell list \<Rightarrow> layout_cell list option" where
  "layout_resize_adjust env type change e (Cell d cs) =
     (let d' = grow_data type change d
      in if type = LAYOUT_WINDOWPANE then Some (Cell d' cs)
         else if lc_type d \<noteq> type
         then map_option (Cell d') (adjust_all env type change e (lc_type d) 0 (length cs) cs)
         else map_option (Cell d') (adjust_loop env type e (lc_type d) change cs))"
| "adjust_all env type change e ptype i n [] = Some []"
| "adjust_all env type change e ptype i n (c # cs) =
     (case layout_resize_adjust env type change (child_edge ptype i n e) c of None \<Rightarrow> None
      | Some c' \<Rightarrow> map_option ((#) c') (adjust_all env type change e ptype (Suc i) n cs))"


section \<open>Cells by path\<close>

fun cell_at :: "nat list \<Rightarrow> layout_cell \<Rightarrow> layout_cell option" where
  "cell_at [] c = Some c"
| "cell_at (i # p) (Cell d cs) = (if i < length cs then cell_at p (cs ! i) else None)"

fun edges_at :: "edges \<Rightarrow> nat list \<Rightarrow> layout_cell \<Rightarrow> edges" where
  "edges_at e [] c = e"
| "edges_at e (i # p) (Cell d cs) =
     (if i < length cs then edges_at (child_edge (lc_type d) i (length cs) e) p (cs ! i) else e)"

text \<open>Replace the cell at a path by the result of an operation that knows its edges.\<close>

fun update_at ::
  "(edges \<Rightarrow> layout_cell \<Rightarrow> layout_cell option) \<Rightarrow> edges \<Rightarrow> nat list \<Rightarrow> layout_cell \<Rightarrow> layout_cell option" where
  "update_at f e [] c = f e c"
| "update_at f e (i # p) (Cell d cs) =
     (if i < length cs
      then map_option (\<lambda>c'. Cell d (cs[i := c'])) (update_at f (child_edge (lc_type d) i (length cs) e) p (cs ! i))
      else None)"

abbreviation root_edges :: edges where "root_edges \<equiv> (True, True)"

text \<open>\<^verbatim>\<open>wp->layout_cell\<close>.\<close>

fun pane_path :: "nat \<Rightarrow> layout_cell \<Rightarrow> nat list option"
  and pane_path_cells :: "nat \<Rightarrow> nat \<Rightarrow> layout_cell list \<Rightarrow> nat list option" where
  "pane_path wp (Cell d cs) =
     (if lc_type d = LAYOUT_WINDOWPANE then if lc_wp d = Some wp then Some [] else None
      else pane_path_cells wp 0 cs)"
| "pane_path_cells wp i [] = None"
| "pane_path_cells wp i (c # cs) =
     (case pane_path wp c of Some p \<Rightarrow> Some (i # p) | None \<Rightarrow> pane_path_cells wp (Suc i) cs)"

section \<open>Destroying a cell\<close>

definition remove_nth :: "nat \<Rightarrow> 'a list \<Rightarrow> 'a list" where
  "remove_nth i xs = take i xs @ drop (Suc i) xs"

definition adjust_at ::
  "layout_env \<Rightarrow> layout_type \<Rightarrow> int \<Rightarrow> edges \<Rightarrow> layout_type \<Rightarrow> nat \<Rightarrow> layout_cell list \<Rightarrow> layout_cell list option" where
  "adjust_at env type change e ptype j cs =
     map_option (\<lambda>c'. cs[j := c'])
       (layout_resize_adjust env type change (child_edge ptype j (length cs) e) (cs ! j))"

text \<open>The work at the parent: merge the space of child \<open>i\<close> into a neighbour and remove it.\<close>

fun destroy_child :: "layout_env \<Rightarrow> nat \<Rightarrow> edges \<Rightarrow> layout_cell \<Rightarrow> layout_cell option" where
  "destroy_child env i e (Cell d cs) =
     (if lc_type d = LAYOUT_FLOATING then Some (Cell d (remove_nth i cs))
      else
        (let other = (if i = 0 then 1 else i - 1);
             lc = lc_data (cs ! i);
             change = (if lc_type d = LAYOUT_LEFTRIGHT then sint (lc_sx lc + 1) else sint (lc_sy lc + 1))
         in case (if other < length cs then adjust_at env (lc_type d) change e (lc_type d) other cs else Some cs) of
              None \<Rightarrow> None
            | Some cs1 \<Rightarrow>
                (case remove_nth i cs1 of
                   [c] \<Rightarrow> Some c
                 | cs2 \<Rightarrow> Some (Cell d cs2))))"

text \<open>
  The outer \<open>None\<close>: the adjustment does not end, or a root leaf without a pane is freed and left
  as the root. \<open>Some None\<close>: the last cell is gone.
\<close>

definition layout_destroy_cell :: "layout_env \<Rightarrow> nat list \<Rightarrow> layout_cell \<Rightarrow> layout_cell option option" where
  "layout_destroy_cell env path root =
     (if path = [] then (if lc_wp (lc_data root) \<noteq> None then Some None else None)
      else
        (case update_at (destroy_child env (last path)) root_edges (butlast path) root of
           None \<Rightarrow> None
         | Some root' \<Rightarrow>
             Some (Some
               (if butlast path = [] \<and> lc_type (lc_data root) \<noteq> LAYOUT_FLOATING \<and> length (lc_cells root) = 2
                then map_data (\<lambda>d. d\<lparr>lc_xoff := 0, lc_yoff := 0\<rparr>) root' else root'))))"

definition layout_init :: "u32 \<Rightarrow> u32 \<Rightarrow> nat \<Rightarrow> layout_cell" where
  "layout_init sx sy wp = layout_make_leaf (layout_set_size layout_create_cell sx sy 0 0) wp"

text \<open>
  The layout part of \<^verbatim>\<open>layout_close_pane\<close>; the sizes of the panes follow in \<open>layout_fix_panes\<close>.
\<close>

definition layout_close_pane :: "layout_env \<Rightarrow> nat \<Rightarrow> layout_cell \<Rightarrow> layout_cell option option" where
  "layout_close_pane env wp root =
     (case pane_path wp root of
        None \<Rightarrow> Some (Some root)
      | Some path \<Rightarrow> map_option (map_option layout_fix_offsets) (layout_destroy_cell env path root))"

section \<open>Resizing the window\<close>

text \<open>The change to apply in one direction for a new size \<open>new\<close> of a cell of size \<open>cur\<close>.\<close>

definition resize_change :: "u32 \<Rightarrow> u32 \<Rightarrow> u32 \<Rightarrow> int" where
  "resize_change new cur check =
     (let limit = sint check; change = sint (new - cur);
          change1 = (if change < 0 \<and> change < - limit then - limit else change)
      in if limit = 0 then if new \<le> cur then 0 else sint (new - cur) else change1)"

definition resize_direction :: "layout_env \<Rightarrow> layout_type \<Rightarrow> u32 \<Rightarrow> layout_cell \<Rightarrow> layout_cell option" where
  "resize_direction env type new lc =
     (let cur = (if type = LAYOUT_LEFTRIGHT then lc_sx (lc_data lc) else lc_sy (lc_data lc));
          change = resize_change new cur (layout_resize_check env type root_edges lc)
      in if change \<noteq> 0 then layout_resize_adjust env type change root_edges lc else Some lc)"

definition layout_resize :: "layout_env \<Rightarrow> u32 \<Rightarrow> u32 \<Rightarrow> layout_cell \<Rightarrow> layout_cell option" where
  "layout_resize env sx sy root =
     (case resize_direction env LAYOUT_LEFTRIGHT sx root of None \<Rightarrow> None
      | Some lc \<Rightarrow> map_option layout_fix_offsets (resize_direction env LAYOUT_TOPBOTTOM sy lc))"

section \<open>Resizing a pane\<close>

definition room_at :: "layout_env \<Rightarrow> layout_type \<Rightarrow> edges \<Rightarrow> layout_type \<Rightarrow> layout_cell list \<Rightarrow> nat \<Rightarrow> u32" where
  "room_at env type e ptype cs j = layout_resize_check env type (child_edge ptype j (length cs) e) (cs ! j)"

text \<open>The two changes at the end of the helpers; the result is the size moved and the cells.\<close>

definition move_room ::
  "layout_env \<Rightarrow> layout_type \<Rightarrow> edges \<Rightarrow> layout_type \<Rightarrow> nat \<Rightarrow> nat \<Rightarrow> u32 \<Rightarrow> layout_cell list \<Rightarrow>
     (int \<times> layout_cell list) option" where
  "move_room env type e ptype add from sz cs =
     (case adjust_at env type (sint sz) e ptype add cs of None \<Rightarrow> None
      | Some cs1 \<Rightarrow> map_option (Pair (sint sz)) (adjust_at env type (sint (- sz)) e ptype from cs1))"

definition layout_resize_pane_grow ::
  "layout_env \<Rightarrow> layout_type \<Rightarrow> edges \<Rightarrow> layout_type \<Rightarrow> nat \<Rightarrow> int \<Rightarrow> bool \<Rightarrow> layout_cell list \<Rightarrow>
     (int \<times> layout_cell list) option" where
  "layout_resize_pane_grow env type e ptype i needed opposite cs =
     (case (case find (\<lambda>j. room_at env type e ptype cs j > 0) [Suc i..<length cs] of
              Some j \<Rightarrow> Some j
            | None \<Rightarrow> if opposite then find (\<lambda>j. room_at env type e ptype cs j > 0) (rev [0..<i]) else None) of
        None \<Rightarrow> Some (0, cs)
      | Some j \<Rightarrow>
          (let sz = room_at env type e ptype cs j
           in move_room env type e ptype i j (if sz > of_int needed then of_int needed else sz) cs))"

definition layout_resize_pane_shrink ::
  "layout_env \<Rightarrow> layout_type \<Rightarrow> edges \<Rightarrow> layout_type \<Rightarrow> nat \<Rightarrow> int \<Rightarrow> layout_cell list \<Rightarrow>
     (int \<times> layout_cell list) option" where
  "layout_resize_pane_shrink env type e ptype i needed cs =
     (case find (\<lambda>j. room_at env type e ptype cs j \<noteq> 0) (rev [0..<Suc i]) of
        None \<Rightarrow> Some (0, cs)
      | Some j \<Rightarrow>
          if Suc i \<ge> length cs then Some (0, cs)
          else
            (let sz = room_at env type e ptype cs j
             in move_room env type e ptype (Suc i) j (if sz > of_int (- needed) then of_int (- needed) else sz) cs))"

text \<open>
  The loop of \<^verbatim>\<open>layout_resize_layout\<close>. Every round moves between one and \<open>needed\<close> cells
  (\<open>resize_step_progress\<close>), so the guard on the recursion never fails.
\<close>

function resize_loop ::
  "layout_env \<Rightarrow> layout_type \<Rightarrow> edges \<Rightarrow> layout_type \<Rightarrow> nat \<Rightarrow> bool \<Rightarrow> int \<Rightarrow> layout_cell list \<Rightarrow>
     layout_cell list option" where
  "resize_loop env type e ptype i opposite needed cs =
     (if needed = 0 then Some cs
      else case (if needed > 0 then layout_resize_pane_grow env type e ptype i needed opposite cs
                 else layout_resize_pane_shrink env type e ptype i needed cs) of
        None \<Rightarrow> None
      | Some (sz, cs') \<Rightarrow>
          if sz = 0 then Some cs'
          else
            (let needed' = (if needed > 0 then needed - sz else needed + sz)
             in if \<bar>needed'\<bar> < \<bar>needed\<bar> then resize_loop env type e ptype i opposite needed' cs' else None))"
  by pat_completeness auto
termination
  by (relation "measure (\<lambda>(_, _, _, _, _, _, needed, _). nat \<bar>needed\<bar>)") auto

declare resize_loop.simps [simp del]

fun resize_children :: "layout_env \<Rightarrow> layout_type \<Rightarrow> nat \<Rightarrow> int \<Rightarrow> bool \<Rightarrow> edges \<Rightarrow> layout_cell \<Rightarrow> layout_cell option" where
  "resize_children env type i change opposite e (Cell d cs) =
     map_option (Cell d) (resize_loop env type e (lc_type d) i opposite change cs)"

definition layout_resize_layout ::
  "layout_env \<Rightarrow> nat list \<Rightarrow> nat \<Rightarrow> layout_type \<Rightarrow> int \<Rightarrow> bool \<Rightarrow> layout_cell \<Rightarrow> layout_cell option" where
  "layout_resize_layout env parent i type change opposite root =
     map_option layout_fix_offsets (update_at (resize_children env type i change opposite) root_edges parent root)"

text \<open>The nearest ancestor of the given direction and the number of its child on the way.\<close>

fun find_parent :: "layout_type \<Rightarrow> nat list \<Rightarrow> layout_cell \<Rightarrow> (nat list \<times> nat) option" where
  "find_parent type [] c = None"
| "find_parent type (i # p) (Cell d cs) =
     (if i < length cs then
        (case find_parent type p (cs ! i) of
           Some (q, j) \<Rightarrow> Some (i # q, j)
         | None \<Rightarrow> if lc_type d = type then Some ([], i) else None)
      else None)"

text \<open>A last cell moves back one; \<open>None\<close> is the null pointer when it is the only one.\<close>

definition layout_resize_pane ::
  "layout_env \<Rightarrow> nat list \<Rightarrow> layout_type \<Rightarrow> int \<Rightarrow> bool \<Rightarrow> layout_cell \<Rightarrow> layout_cell option" where
  "layout_resize_pane env path type change opposite root =
     (case find_parent type path root of
        None \<Rightarrow> Some root
      | Some (parent, i) \<Rightarrow>
          (let n = length (lc_cells (the (cell_at parent root)))
           in if Suc i = n \<and> i = 0 then None
              else layout_resize_layout env parent (if Suc i = n then i - 1 else i) type change opposite root))"

definition layout_resize_pane_to ::
  "layout_env \<Rightarrow> nat list \<Rightarrow> layout_type \<Rightarrow> u32 \<Rightarrow> layout_cell \<Rightarrow> layout_cell option" where
  "layout_resize_pane_to env path type new_size root =
     (case find_parent type path root of
        None \<Rightarrow> Some root
      | Some (parent, i) \<Rightarrow>
          (let cs = lc_cells (the (cell_at parent root));
               d = lc_data (cs ! i);
               sz = (if type = LAYOUT_LEFTRIGHT then lc_sx d else lc_sy d);
               change = (if Suc i = length cs then sint (sz - new_size) else sint (new_size - sz))
           in layout_resize_pane env path type change True root))"


section \<open>Proportional sizes\<close>

text \<open>\<open>None\<close> is the trap of a division by zero.\<close>

definition layout_new_pane_size ::
  "layout_env \<Rightarrow> u32 \<Rightarrow> edges \<Rightarrow> layout_cell \<Rightarrow> layout_type \<Rightarrow> u32 \<Rightarrow> nat \<Rightarrow> u32 \<Rightarrow> u32 option" where
  "layout_new_pane_size env previous e lc type sz count_left size_left =
     (if count_left = 1 then Some size_left
      else if previous = 0 then None
      else
        (let available = layout_resize_check env type e lc;
             cur = (if type = LAYOUT_LEFTRIGHT then lc_sx (lc_data lc) else lc_sy (lc_data lc));
             min0 = (PANE_MINIMUM + 1) * (of_nat count_left - 1);
             min1 = (if cur - available > min0 then cur - available else min0);
             new0 = (cur * sz) div previous;
             max1 = size_left - min1;
             new1 = (if new0 > max1 then max1 else new0)
         in Some (if new1 < PANE_MINIMUM then PANE_MINIMUM else new1)))"

text \<open>Check if the cell and all its children can be resized to a specific size.\<close>

fun layout_set_size_check :: "layout_env \<Rightarrow> layout_type \<Rightarrow> edges \<Rightarrow> layout_cell \<Rightarrow> u32 \<Rightarrow> bool option"
  and size_check_along :: "layout_env \<Rightarrow> layout_type \<Rightarrow> edges \<Rightarrow> layout_type \<Rightarrow> u32 \<Rightarrow> nat \<Rightarrow> nat \<Rightarrow> u32 \<Rightarrow> u32 \<Rightarrow>
       layout_cell list \<Rightarrow> bool option"
  and size_check_across :: "layout_env \<Rightarrow> layout_type \<Rightarrow> edges \<Rightarrow> layout_type \<Rightarrow> nat \<Rightarrow> nat \<Rightarrow> u32 \<Rightarrow>
       layout_cell list \<Rightarrow> bool option" where
  "layout_set_size_check env type e (Cell d cs) sz =
     (if lc_type d = LAYOUT_WINDOWPANE then Some (sint sz \<ge> 1)
      else if lc_type d = type then
        if sz < of_nat (length cs) * 2 - 1 then Some False
        else size_check_along env type e (lc_type d) (if type = LAYOUT_LEFTRIGHT then lc_sx d else lc_sy d)
               0 (length cs) sz sz cs
      else size_check_across env type e (lc_type d) 0 (length cs) sz cs)"
| "size_check_along env type e ptype previous i n sz available [] = Some True"
| "size_check_along env type e ptype previous i n sz available (c # cs) =
     (case layout_new_pane_size env previous (child_edge ptype i n e) c type sz (n - i) available of
        None \<Rightarrow> None
      | Some new_size \<Rightarrow>
          if Suc i = n then
            if new_size > available then Some False
            else (case layout_set_size_check env type (child_edge ptype i n e) c new_size of
                    Some True \<Rightarrow> size_check_along env type e ptype previous (Suc i) n sz (available - new_size) cs
                  | r \<Rightarrow> r)
          else
            if new_size + 1 > available then Some False
            else (case layout_set_size_check env type (child_edge ptype i n e) c new_size of
                    Some True \<Rightarrow> size_check_along env type e ptype previous (Suc i) n sz (available - (new_size + 1)) cs
                  | r \<Rightarrow> r))"
| "size_check_across env type e ptype i n sz [] = Some True"
| "size_check_across env type e ptype i n sz (c # cs) =
     (if lc_type (lc_data c) = LAYOUT_WINDOWPANE then size_check_across env type e ptype (Suc i) n sz cs
      else case layout_set_size_check env type (child_edge ptype i n e) c sz of
             Some True \<Rightarrow> size_check_across env type e ptype (Suc i) n sz cs
           | r \<Rightarrow> r)"

text \<open>
  Resize all child cells to fit within the current cell. The second function is the loop over
  the children of a cell with data \<open>d\<close>: it first computes the new sizes of the child, then
  resizes its own children. The sizes it reads of the child are the old ones for the direction
  it sets last.
\<close>

fun layout_resize_child_cells :: "layout_env \<Rightarrow> edges \<Rightarrow> layout_cell \<Rightarrow> layout_cell option"
  and resize_child_loop :: "layout_env \<Rightarrow> edges \<Rightarrow> lcell \<Rightarrow> u32 \<Rightarrow> nat \<Rightarrow> nat \<Rightarrow> u32 \<Rightarrow> layout_cell list \<Rightarrow>
       layout_cell list option" where
  "layout_resize_child_cells env e (Cell d cs) =
     (if lc_type d = LAYOUT_WINDOWPANE then Some (Cell d cs)
      else
        (let previous =
               (case lc_type d of
                  LAYOUT_LEFTRIGHT \<Rightarrow> sum_list (map (\<lambda>c. lc_sx (lc_data c)) cs)
                | LAYOUT_TOPBOTTOM \<Rightarrow> sum_list (map (\<lambda>c. lc_sy (lc_data c)) cs)
                | _ \<Rightarrow> 0) + (of_nat (length cs) - 1);
             available = (case lc_type d of LAYOUT_LEFTRIGHT \<Rightarrow> lc_sx d | LAYOUT_TOPBOTTOM \<Rightarrow> lc_sy d | _ \<Rightarrow> 0)
         in map_option (Cell d) (resize_child_loop env e d previous 0 (length cs) available cs)))"
| "resize_child_loop env e d previous i n available [] = Some []"
| "resize_child_loop env e d previous i n available (Cell cd ccs # cs) =
     (let ce = child_edge (lc_type d) i n e
      in case (if lc_type d = LAYOUT_TOPBOTTOM
               then Some (cd\<lparr>lc_sx := lc_sx d, lc_xoff := lc_xoff d\<rparr>, available)
               else map_option (\<lambda>nsx. (cd\<lparr>lc_sx := nsx\<rparr>, available - (nsx + 1)))
                      (layout_new_pane_size env previous ce (Cell cd ccs) (lc_type d) (lc_sx d) (n - i) available)) of
           None \<Rightarrow> None
         | Some (cd1, available1) \<Rightarrow>
             (case (if lc_type d = LAYOUT_LEFTRIGHT then Some (cd1\<lparr>lc_sy := lc_sy d\<rparr>, available1)
                    else map_option (\<lambda>nsy. (cd1\<lparr>lc_sy := nsy\<rparr>, available1 - (nsy + 1)))
                           (layout_new_pane_size env previous ce (Cell cd1 ccs) (lc_type d) (lc_sy d) (n - i) available1)) of
                None \<Rightarrow> None
              | Some (cd2, available2) \<Rightarrow>
                  (case layout_resize_child_cells env ce (Cell cd2 ccs) of
                     None \<Rightarrow> None
                   | Some c' \<Rightarrow>
                       map_option ((#) c') (resize_child_loop env e d previous (Suc i) n available2 cs))))"


section \<open>Splitting\<close>

text \<open>The sizes of the two halves; a negative \<open>sz\<close> asks for the middle.\<close>

definition split_sizes :: "u32 \<Rightarrow> int \<Rightarrow> bool \<Rightarrow> u32 \<times> u32" where
  "split_sizes saved_size sz before =
     (let size2 = (if sz < 0 then ((saved_size + 1) div 2) - 1
                   else if before then saved_size - of_int sz - 1 else of_int sz);
          size2' = (if size2 < PANE_MINIMUM then PANE_MINIMUM
                    else if size2 > saved_size - 2 then saved_size - 2 else size2)
      in (saved_size - 1 - size2', size2'))"

definition split_minimum :: "layout_env \<Rightarrow> u32 \<Rightarrow> u32 \<Rightarrow> layout_type \<Rightarrow> edges \<Rightarrow> u32" where
  "split_minimum env sbw sbp type e =
     (if type = LAYOUT_LEFTRIGHT
      then if pane_scrollbars env then PANE_MINIMUM * 2 + sbw + sbp else PANE_MINIMUM * 2 + 1
      else if layout_add_horizontal_border e (pane_border_status env) then PANE_MINIMUM * 2 + 2
      else PANE_MINIMUM * 2 + 1)"

text \<open>Set the sizes and offsets of the two halves of a cell with the old data \<open>d\<close>.\<close>

definition place_pair :: "layout_type \<Rightarrow> u32 \<Rightarrow> u32 \<Rightarrow> lcell \<Rightarrow> layout_cell \<times> layout_cell \<Rightarrow> layout_cell \<times> layout_cell" where
  "place_pair type size1 size2 d lcs =
     (if type = LAYOUT_LEFTRIGHT
      then (layout_set_size (fst lcs) size1 (lc_sy d) (lc_xoff d) (lc_yoff d),
            layout_set_size (snd lcs) size2 (lc_sy d) (lc_xoff d + size1 + 1) (lc_yoff d))
      else (layout_set_size (fst lcs) (lc_sx d) size1 (lc_xoff d) (lc_yoff d),
            layout_set_size (snd lcs) (lc_sx d) size2 (lc_xoff d) (lc_yoff d + size1 + 1)))"

definition split_pair :: "layout_type \<Rightarrow> u32 \<times> u32 \<Rightarrow> bool \<Rightarrow> layout_cell \<Rightarrow> layout_cell list" where
  "split_pair type sizes before lc =
     (case place_pair type (fst sizes) (snd sizes) (lc_data lc)
             (if before then (layout_create_cell, lc) else (lc, layout_create_cell)) of (a, b) \<Rightarrow> [a, b])"

text \<open>Under a parent of the same direction: the new cell goes next to child \<open>i\<close>.\<close>

fun split_in_parent :: "layout_type \<Rightarrow> u32 \<times> u32 \<Rightarrow> bool \<Rightarrow> nat \<Rightarrow> nat \<Rightarrow> edges \<Rightarrow> layout_cell \<Rightarrow> layout_cell option" where
  "split_in_parent type sizes before wp i e (Cell d cs) =
     Some (Cell d (take i cs @ split_pair type sizes before (layout_make_leaf (cs ! i) wp) @ drop (Suc i) cs))"

text \<open>A full-size split of a root of the same direction: resize the children first, then add the new cell.\<close>

fun split_root_same :: "layout_env \<Rightarrow> layout_type \<Rightarrow> u32 \<Rightarrow> u32 \<Rightarrow> bool \<Rightarrow> layout_cell \<Rightarrow> layout_cell option" where
  "split_root_same env type saved_size new_size before (Cell d cs) =
     (let d1 = (if type = LAYOUT_LEFTRIGHT then d\<lparr>lc_sx := new_size\<rparr> else d\<lparr>lc_sy := new_size\<rparr>)
      in case layout_resize_child_cells env root_edges (Cell d1 cs) of
           None \<Rightarrow> None
         | Some (Cell d2 cs2) \<Rightarrow>
             (let sz = saved_size - 1 - new_size;
                  lcnew = (if type = LAYOUT_LEFTRIGHT then layout_set_size layout_create_cell sz (lc_sy d) 0 0
                           else layout_set_size layout_create_cell (lc_sx d) sz 0 0)
              in Some (Cell d (if before then lcnew # cs2 else cs2 @ [lcnew]))))"

text \<open>Otherwise a new parent takes the place of the cell.\<close>

definition split_new_parent ::
  "layout_env \<Rightarrow> layout_type \<Rightarrow> u32 \<times> u32 \<Rightarrow> bool \<Rightarrow> bool \<Rightarrow> nat \<Rightarrow> edges \<Rightarrow> layout_cell \<Rightarrow> layout_cell option" where
  "split_new_parent env type sizes before full wp e lc =
     (case layout_make_node layout_create_cell type of
        None \<Rightarrow> None
      | Some node \<Rightarrow>
          (let d = lc_data lc;
               pd = lc_data (layout_set_size node (lc_sx d) (lc_sy d) (lc_xoff d) (lc_yoff d));
               lcs = split_pair type sizes before (if full then lc else layout_make_leaf lc wp);
               i = (if before then 1 else 0)
           in if full
              then map_option (\<lambda>lc'. Cell pd (lcs[i := lc']))
                     (layout_resize_child_cells env (child_edge type i 2 e) (lcs ! i))
              else Some (Cell pd lcs)))"

text \<open>
  \<^verbatim>\<open>layout_split_pane\<close> for the pane \<open>wp\<close> with its cell at \<open>path\<close>, whose scrollbar style is
  \<open>sbw\<close>, \<open>sbp\<close>. The outer \<open>None\<close> is \<^verbatim>\<open>fatalx\<close> or a trap, \<open>Some None\<close> is the result \<^verbatim>\<open>NULL\<close>;
  otherwise the new tree and the path of the new cell.
\<close>

definition layout_split_pane ::
  "layout_env \<Rightarrow> u32 \<Rightarrow> u32 \<Rightarrow> nat \<Rightarrow> nat list \<Rightarrow> layout_type \<Rightarrow> int \<Rightarrow> bool \<Rightarrow> bool \<Rightarrow> layout_cell \<Rightarrow>
     (layout_cell \<times> nat list) option option" where
  "layout_split_pane env sbw sbp wp path type sz before full root =
     (if type \<noteq> LAYOUT_LEFTRIGHT \<and> type \<noteq> LAYOUT_TOPBOTTOM then None
      else
        (let lpath = (if full then [] else path);
             lc = the (cell_at lpath root);
             saved_size = (if type = LAYOUT_LEFTRIGHT then lc_sx (lc_data lc) else lc_sy (lc_data lc));
             sizes = split_sizes saved_size sz before;
             new_size = (if before then snd sizes else fst sizes)
         in if saved_size < split_minimum env sbw sbp type (edges_at root_edges lpath root) then Some None
            else
              (case (if full then layout_set_size_check env type root_edges root new_size else Some True) of
                 None \<Rightarrow> None
               | Some False \<Rightarrow> Some None
               | Some True \<Rightarrow>
                   if lpath \<noteq> [] \<and> lc_type (lc_data (the (cell_at (butlast lpath) root))) = type then
                     map_option (\<lambda>root'. Some (root', butlast lpath @ [if before then last lpath else Suc (last lpath)]))
                       (update_at (split_in_parent type sizes before wp (last lpath)) root_edges (butlast lpath) root)
                   else if full \<and> lc_type (lc_data lc) = type then
                     map_option (\<lambda>root'. Some (layout_fix_offsets root', [if before then 0 else length (lc_cells root)]))
                       (split_root_same env type saved_size new_size before root)
                   else
                     map_option (\<lambda>root'. Some (if full then layout_fix_offsets root' else root', lpath @ [if before then 0 else 1]))
                       (update_at (split_new_parent env type sizes before full wp) root_edges lpath root))))"

text \<open>The cell part of \<^verbatim>\<open>layout_assign_pane\<close>.\<close>

definition layout_assign_pane :: "nat list \<Rightarrow> nat \<Rightarrow> layout_cell \<Rightarrow> layout_cell option" where
  "layout_assign_pane path wp root = update_at (\<lambda>e lc. Some (layout_make_leaf lc wp)) root_edges path root"

section \<open>Spreading out\<close>

fun spread_loop ::
  "layout_env \<Rightarrow> edges \<Rightarrow> layout_type \<Rightarrow> u32 \<Rightarrow> nat \<Rightarrow> nat \<Rightarrow> u32 \<Rightarrow> bool \<Rightarrow> layout_cell list \<Rightarrow>
     (bool \<times> layout_cell list) option" where
  "spread_loop env e ptype each i n remainder changed [] = Some (changed, [])"
| "spread_loop env e ptype each i n remainder changed (c # cs) =
     (let ce = child_edge ptype i n e;
          this = (if ptype = LAYOUT_LEFTRIGHT then each
                  else if layout_add_horizontal_border ce (pane_border_status env) then each + 1 else each);
          cur = (if ptype = LAYOUT_LEFTRIGHT then lc_sx (lc_data c) else lc_sy (lc_data c));
          this' = (if remainder > 0 then this + 1 else this);
          remainder' = (if remainder > 0 then remainder - 1 else remainder);
          change = sint (this' - cur)
      in case layout_resize_adjust env ptype change ce c of
           None \<Rightarrow> None
         | Some c' \<Rightarrow>
             map_option (map_prod id ((#) c'))
               (spread_loop env e ptype each (Suc i) n remainder' (changed \<or> change \<noteq> 0) cs))"

text \<open>\<open>None\<close> is an adjustment that does not end.\<close>

fun layout_spread_cell :: "layout_env \<Rightarrow> edges \<Rightarrow> layout_cell \<Rightarrow> (bool \<times> layout_cell) option" where
  "layout_spread_cell env e (Cell d cs) =
     (let number = of_nat (length cs) :: u32
      in if number \<le> 1 then Some (False, Cell d cs)
         else if lc_type d \<noteq> LAYOUT_LEFTRIGHT \<and> lc_type d \<noteq> LAYOUT_TOPBOTTOM then Some (False, Cell d cs)
         else
           (let sz = (if lc_type d = LAYOUT_LEFTRIGHT then lc_sx d
                      else if layout_add_horizontal_border e (pane_border_status env) then lc_sy d - 1 else lc_sy d);
                each = (sz - (number - 1)) div number;
                remainder = sz - (number * (each + 1)) + 1
            in if sz < number - 1 \<or> each = 0 then Some (False, Cell d cs)
               else map_option (map_prod id (Cell d))
                      (spread_loop env e (lc_type d) each 0 (length cs) remainder False cs)))"

text \<open>The loop over the ancestors: the paths of the parents, innermost first.\<close>

fun spread_up :: "layout_env \<Rightarrow> nat list list \<Rightarrow> layout_cell \<Rightarrow> layout_cell option" where
  "spread_up env [] root = Some root"
| "spread_up env (p # ps) root =
     (case cell_at p root of
        None \<Rightarrow> Some root
      | Some c \<Rightarrow>
          (case layout_spread_cell env (edges_at root_edges p root) c of
             None \<Rightarrow> None
           | Some (changed, c') \<Rightarrow>
               if changed then map_option layout_fix_offsets (update_at (\<lambda>_ _. Some c') root_edges p root)
               else spread_up env ps root))"

definition layout_spread_out :: "layout_env \<Rightarrow> nat list \<Rightarrow> layout_cell \<Rightarrow> layout_cell option" where
  "layout_spread_out env path root =
     (if path = [] then Some root
      else spread_up env (map (\<lambda>n. take n path) (rev [0..<length path])) root)"

section \<open>The size check\<close>

fun layout_check :: "layout_cell \<Rightarrow> bool" where
  "layout_check (Cell d cs) =
     (case lc_type d of
        LAYOUT_LEFTRIGHT \<Rightarrow>
          (\<forall>c \<in> set cs. lc_sy (lc_data c) = lc_sy d \<and> layout_check c) \<and>
          sum_list (map (\<lambda>c. lc_sx (lc_data c) + 1) cs) - 1 = lc_sx d
      | LAYOUT_TOPBOTTOM \<Rightarrow>
          (\<forall>c \<in> set cs. lc_sx (lc_data c) = lc_sx d \<and> layout_check c) \<and>
          sum_list (map (\<lambda>c. lc_sy (lc_data c) + 1) cs) - 1 = lc_sy d
      | _ \<Rightarrow> True)"

end
