(* ===== verification/Layout_Facts.thy ===== *)
theory Layout_Facts
  imports Layout
begin

text \<open>
  What the layout operations keep: well-formed trees, the size check of
  \<^verbatim>\<open>windows/layout-custom.c\<close>, the panes of the tree, and the free space that bounds how far a
  cell can shrink. Adjusting the size of a cell always ends when the change is bounded by that
  space; every operation that rearranges the tree keeps its sizes consistent.
\<close>

section \<open>Well-formed trees\<close>

fun layout_wf :: "layout_cell \<Rightarrow> bool" where
  "layout_wf (Cell d cs) =
     (if lc_type d = LAYOUT_WINDOWPANE then cs = []
      else lc_type d \<noteq> LAYOUT_FLOATING \<and> 2 \<le> length cs \<and> (\<forall>c \<in> set cs. layout_wf c))"

abbreviation direction :: "layout_type \<Rightarrow> bool" where
  "direction type \<equiv> type = LAYOUT_LEFTRIGHT \<or> type = LAYOUT_TOPBOTTOM"

definition same_room :: "layout_type \<Rightarrow> layout_cell \<Rightarrow> layout_cell \<Rightarrow> bool" where
  "same_room type lc lc' \<longleftrightarrow>
     (\<forall>env t e. direction t \<longrightarrow> t \<noteq> type \<longrightarrow> layout_resize_check env t e lc' = layout_resize_check env t e lc)"

lemma same_roomD: "same_room type lc lc' \<Longrightarrow> direction t \<Longrightarrow> t \<noteq> type \<Longrightarrow>
    layout_resize_check env t e lc' = layout_resize_check env t e lc"
  unfolding same_room_def by blast

lemma same_room_refl [simp]: "same_room type lc lc"
  by (simp add: same_room_def)

lemma same_room_trans: "same_room type a b \<Longrightarrow> same_room type b c \<Longrightarrow> same_room type a c"
  by (simp add: same_room_def)

text \<open>
  \<open>lc'\<close> is \<open>lc\<close> with its size in one direction changed by \<open>k\<close>; the free space in the other
  direction is as it was.
\<close>

definition adjusted :: "layout_type \<Rightarrow> int \<Rightarrow> layout_cell \<Rightarrow> layout_cell \<Rightarrow> bool" where
  "adjusted type k lc lc' \<longleftrightarrow> lc_data lc' = grow_data type k (lc_data lc) \<and> layout_wf lc' \<and>
     layout_panes lc' = layout_panes lc \<and> (layout_check lc \<longrightarrow> layout_check lc') \<and> same_room type lc lc'"

text \<open>The children \<open>cs'\<close> are \<open>cs\<close> with changes that add up to \<open>K\<close>.\<close>

fun shared :: "layout_type \<Rightarrow> int \<Rightarrow> layout_cell list \<Rightarrow> layout_cell list \<Rightarrow> bool" where
  "shared type K [] [] = (K = 0)"
| "shared type K (c # cs) (c' # cs') = (\<exists>k. adjusted type k c c' \<and> shared type (K - k) cs cs')"
| "shared type K _ _ = False"

lemma grow_data_simps [simp]:
  "lc_type (grow_data type k d) = lc_type d" "lc_wp (grow_data type k d) = lc_wp d"
  "lc_sx (grow_data type k d) = (if type = LAYOUT_LEFTRIGHT then lc_sx d + of_int k else lc_sx d)"
  "lc_sy (grow_data type k d) = (if type = LAYOUT_LEFTRIGHT then lc_sy d else lc_sy d + of_int k)"
  by (simp_all add: grow_data_def)

lemma grow_data_0 [simp]: "grow_data type 0 d = d"
  by (simp add: grow_data_def)

lemma grow_data_add: "grow_data type l (grow_data type k d) = grow_data type (k + l) d"
  by (simp add: grow_data_def add.assoc)

lemma adjusted_0: "layout_wf lc \<Longrightarrow> adjusted type 0 lc lc"
  by (simp add: adjusted_def)

lemma adjusted_trans: "adjusted type k a b \<Longrightarrow> adjusted type l b c \<Longrightarrow> adjusted type (k + l) a c"
  by (auto simp: adjusted_def grow_data_add intro: same_room_trans)

lemma adjusted_wf: "adjusted type k lc lc' \<Longrightarrow> layout_wf lc'"
  by (simp add: adjusted_def)

lemma shared_0: "\<forall>c \<in> set cs. layout_wf c \<Longrightarrow> shared type 0 cs cs"
  by (induction cs) (auto intro!: exI [of _ 0] adjusted_0)

lemma shared_trans: "shared type K as bs \<Longrightarrow> shared type L bs cs \<Longrightarrow> shared type (K + L) as cs"
proof (induction type K as bs arbitrary: L cs rule: shared.induct)
  case (2 type K a as b bs)
  then obtain k c cs' l where "cs = c # cs'" "adjusted type k a b" "shared type (K - k) as bs"
    "adjusted type l b c" "shared type (L - l) bs cs'"
    by (cases cs) auto
  moreover from this 2(1) have "shared type ((K - k) + (L - l)) as cs'" by blast
  ultimately show ?case
    by (auto intro!: exI [of _ "k + l"] intro: adjusted_trans simp: algebra_simps)
next
  case (1 type K)
  then show ?case by (cases cs) auto
qed auto

lemma shared_parts:
  assumes "shared type K cs cs'"
  shows "length cs' = length cs" "\<forall>c \<in> set cs'. layout_wf c"
    "concat (map layout_panes cs') = concat (map layout_panes cs)"
    "type = LAYOUT_LEFTRIGHT \<Longrightarrow> sum_list (map (\<lambda>c. lc_sx (lc_data c) + 1) cs') =
       sum_list (map (\<lambda>c. lc_sx (lc_data c) + 1) cs) + of_int K"
    "type = LAYOUT_TOPBOTTOM \<Longrightarrow> sum_list (map (\<lambda>c. lc_sy (lc_data c) + 1) cs') =
       sum_list (map (\<lambda>c. lc_sy (lc_data c) + 1) cs) + of_int K"
    "\<forall>c \<in> set cs. layout_check c \<Longrightarrow> \<forall>c \<in> set cs'. layout_check c"
    "type = LAYOUT_LEFTRIGHT \<Longrightarrow> map (\<lambda>c. lc_sy (lc_data c)) cs' = map (\<lambda>c. lc_sy (lc_data c)) cs"
    "type = LAYOUT_TOPBOTTOM \<Longrightarrow> map (\<lambda>c. lc_sx (lc_data c)) cs' = map (\<lambda>c. lc_sx (lc_data c)) cs"
  using assms by (induction type K cs cs' rule: shared.induct) (auto simp: adjusted_def)

lemma shared_other:
  assumes "shared type K cs cs'" "direction t" "t \<noteq> type"
  shows "check_cells env t e pt i n cs' = check_cells env t e pt i n cs"
  using assms
proof (induction type K cs cs' arbitrary: i rule: shared.induct)
  case (2 type K c cs c' cs')
  from 2(2) obtain k where k: "adjusted type k c c'" "shared type (K - k) cs cs'" by auto
  then have "same_room type c c'" by (simp add: adjusted_def)
  with 2(1) [OF k(2) 2(3,4)] same_roomD [OF _ 2(3,4)] show ?case by simp
qed auto

lemma across_other:
  assumes "list_all2 (adjusted type K) cs cs'" "direction t" "t \<noteq> type"
  shows "check_cells env t e pt i n cs' = check_cells env t e pt i n cs"
  using assms(1)
proof (induction cs cs' arbitrary: i rule: list_all2_induct)
  case (Cons c cs c' cs')
  then have "same_room type c c'" by (simp add: adjusted_def)
  with Cons same_roomD [OF _ assms(2,3)] show ?case by simp
qed simp

lemma same_room_leaf:
  "lc_type d = LAYOUT_WINDOWPANE \<Longrightarrow> direction type \<Longrightarrow> same_room type (Cell d cs) (Cell (grow_data type k d) cs')"
  by (auto simp: same_room_def leaf_room_def Let_def)

lemma same_room_node:
  assumes "\<And>env t e. direction t \<Longrightarrow> t \<noteq> type \<Longrightarrow>
      check_cells env t e (lc_type d) 0 (length cs) cs' = check_cells env t e (lc_type d) 0 (length cs) cs"
    "length cs' = length cs" "lc_type d \<noteq> LAYOUT_WINDOWPANE" "lc_type d' = lc_type d"
  shows "same_room type (Cell d cs) (Cell d' cs')"
  unfolding same_room_def
proof (intro allI impI)
  fix env t e
  assume "direction t" "t \<noteq> type"
  from assms(1) [OF this, of env e] assms(2-4)
  show "layout_resize_check env t e (Cell d' cs') = layout_resize_check env t e (Cell d cs)" by (cases "lc_type d = t") auto
qed

lemma map_eq_all: "map f xs = map f ys \<Longrightarrow> (\<forall>x \<in> set xs. f x = v) = (\<forall>y \<in> set ys. f y = v)"
  by (metis (mono_tags, lifting) image_iff list.set_map)

lemma adjusted_along:
  assumes "shared type K cs cs'" "lc_type d = type" "direction type" "layout_wf (Cell d cs)"
  shows "adjusted type K (Cell d cs) (Cell (grow_data type K d) cs')"
proof -
  note p = shared_parts [OF assms(1)]
  have "layout_check (Cell d cs) \<Longrightarrow> layout_check (Cell (grow_data type K d) cs')"
    using assms(2,3) p(4-8) map_eq_all [of "\<lambda>c. lc_sy (lc_data c)" cs' cs "lc_sy d"]
      map_eq_all [of "\<lambda>c. lc_sx (lc_data c)" cs' cs "lc_sx d"]
    by (auto simp: algebra_simps split: layout_type.splits)
  moreover have "same_room type (Cell d cs) (Cell (grow_data type K d) cs')"
    using assms(2,3) p(1) by (intro same_room_node shared_other [OF assms(1)]) auto
  ultimately show ?thesis using assms(2-4) p(1-3) by (auto simp: adjusted_def)
qed

lemma adjusted_across:
  assumes "list_all2 (adjusted type K) cs cs'" "lc_type d \<noteq> type" "direction type" "layout_wf (Cell d cs)"
  shows "adjusted type K (Cell d cs) (Cell (grow_data type K d) cs')"
proof -
  have wf: "\<forall>c \<in> set cs'. layout_wf c" and panes: "map layout_panes cs' = map layout_panes cs"
    and chk: "\<forall>c \<in> set cs. layout_check c \<Longrightarrow> \<forall>c \<in> set cs'. layout_check c"
    and data: "map lc_data cs' = map (\<lambda>c. grow_data type K (lc_data c)) cs"
    using assms(1) by (induction rule: list_all2_induct) (auto simp: adjusted_def)
  have sz: "map (\<lambda>c. f (lc_data c)) cs' = map (\<lambda>c. f (grow_data type K (lc_data c))) cs" for f :: "lcell \<Rightarrow> u32"
    using arg_cong [OF data, of "map f"] by (simp add: comp_def)
  have all: "(\<forall>c \<in> set cs'. f (lc_data c) = v) = (\<forall>c \<in> set cs. f (grow_data type K (lc_data c)) = v)" for f :: "lcell \<Rightarrow> u32" and v
    using arg_cong [OF sz [of f], of "\<lambda>l. \<forall>x \<in> set l. x = v"] by simp
  have sums: "sum_list (map (\<lambda>c. f (lc_data c) + 1) cs') = sum_list (map (\<lambda>c. f (grow_data type K (lc_data c)) + 1) cs)" for f :: "lcell \<Rightarrow> u32"
    using arg_cong [OF sz [of f], of "\<lambda>l. sum_list (map (\<lambda>x. x + 1) l)"] by (simp add: comp_def)
  have "layout_check (Cell d cs) \<Longrightarrow> layout_check (Cell (grow_data type K d) cs')"
    using assms(2-4) chk all [of lc_sx] all [of lc_sy] sums [of lc_sx] sums [of lc_sy]
    by (auto simp: ball_conj_distrib split: layout_type.splits if_splits)
  moreover have "same_room type (Cell d cs) (Cell (grow_data type K d) cs')"
    using assms(3) list_all2_lengthD [OF assms(1)]
    by (cases "lc_type d = LAYOUT_WINDOWPANE") (auto intro: same_room_leaf same_room_node across_other [OF assms(1)])
  ultimately show ?thesis
    using assms(2-4) wf panes list_all2_lengthD [OF assms(1)]
    by (auto simp: adjusted_def)
qed


section \<open>Free space\<close>

lemma fold_min_from:
  "fold (\<lambda>a m. if a < m then a else m) as (m :: u32) \<le> m \<and>
   (\<forall>a \<in> set as. fold (\<lambda>a m. if a < m then a else m) as m \<le> a) \<and>
   (fold (\<lambda>a m. if a < m then a else m) as m \<in> insert m (set as))"
proof (induction as arbitrary: m)
  case (Cons a as)
  show ?case
  proof (cases "a < m")
    case True
    with Cons.IH [of a] show ?thesis by (auto intro: order_trans)
  next
    case False
    with Cons.IH [of m] show ?thesis by (auto intro: order_trans)
  qed
qed simp

lemma fold_min_le: "a \<in> set as \<Longrightarrow> fold_min as \<le> a"
  using fold_min_from [of as uint_max] by (simp add: fold_min_def)

lemma fold_min_in: "as \<noteq> [] \<Longrightarrow> fold_min as \<in> set as"
  using fold_min_from [of as uint_max]
  by (cases as) (auto simp: fold_min_def intro: antisym)

lemma fold_min_sub:
  assumes "as \<noteq> []" "\<forall>a \<in> set as. k \<le> a"
  shows "fold_min (map (\<lambda>a. a - k) as) = fold_min as - k"
proof (rule antisym)
  have m: "fold_min as \<in> set as" by (rule fold_min_in [OF assms(1)])
  then show "fold_min (map (\<lambda>a. a - k) as) \<le> fold_min as - k"
    by (intro fold_min_le) auto
  have "fold_min (map (\<lambda>a. a - k) as) \<in> (\<lambda>a. a - k) ` set as"
    using fold_min_in [of "map (\<lambda>a. a - k) as"] assms(1) by simp
  then obtain a where "a \<in> set as" "fold_min (map (\<lambda>a. a - k) as) = a - k" by auto
  with assms(2) m fold_min_le [of a as] show "fold_min as - k \<le> fold_min (map (\<lambda>a. a - k) as)"
    by (auto simp: word_le_nat_alt unat_sub)
qed

text \<open>The free space of the children as a natural number, which does not wrap.\<close>

abbreviation room_sum :: "u32 list \<Rightarrow> nat" where
  "room_sum rs \<equiv> sum_list (map unat rs)"

lemma room_sum_word: "sum_list rs = of_nat (room_sum rs)"
  by (induction rs) simp_all

lemma room_sum_pos: "0 < sum_list rs \<Longrightarrow> \<exists>r \<in> set rs. 0 < r" for rs :: "u32 list"
  by (induction rs) (auto simp: word_gt_0)

lemma room_sum_exists: "0 < room_sum rs \<longleftrightarrow> (\<exists>r \<in> set rs. 0 < r)"
  by (induction rs) (auto simp: unat_gt_0 word_gt_0)

lemma sum_list_le_room: "unat (sum_list rs) \<le> room_sum rs" for rs :: "u32 list"
  by (simp add: room_sum_word unat_of_nat)

lemma length_check_cells [simp]: "length (check_cells env type e pt i n cs) = length cs"
  by (induction cs arbitrary: i) auto

lemma check_cells_nth: "j < length cs \<Longrightarrow>
    check_cells env type e pt i n cs ! j = layout_resize_check env type (child_edge pt (i + j) n e) (cs ! j)"
  by (induction cs arbitrary: i j) (auto simp: nth_Cons split: nat.splits)

section \<open>One unit\<close>

lemma word_pos_le: "0 < r \<longleftrightarrow> 1 \<le> r" for r :: u32
  by (simp add: word_less_nat_alt word_le_nat_alt Suc_le_eq)

lemma room_dec: "m < a \<Longrightarrow> (if m < a - 1 then a - 1 - m else 0) = a - m - 1" for a m :: u32
  by unat_arith

lemma leaf_room_dec:
  assumes "leaf_room env type e d > 0" "direction type"
  shows "leaf_room env type e (grow_data type (-1) d) = leaf_room env type e d - 1"
proof -
  define sz :: "lcell \<Rightarrow> u32" where "sz = (\<lambda>d. if type = LAYOUT_LEFTRIGHT then lc_sx d else lc_sy d)"
  obtain m where m: "leaf_room env type e d' = (if m < sz d' then sz d' - m else 0)" for d'
    unfolding leaf_room_def Let_def sz_def by blast
  have "sz (grow_data type (-1) d) = sz d - 1" using assms(2) by (auto simp: sz_def)
  with assms(1) room_dec [of m "sz d"] show ?thesis by (simp add: m split: if_splits)
qed

definition dec_ok :: "layout_env \<Rightarrow> layout_type \<Rightarrow> layout_cell \<Rightarrow> bool" where
  "dec_ok env type lc \<longleftrightarrow> (\<forall>e. layout_wf lc \<longrightarrow> 0 < layout_resize_check env type e lc \<longrightarrow>
     (\<exists>lc'. adjust_one env type False e lc = Some lc' \<and> adjusted type (-1) lc lc' \<and>
        layout_resize_check env type e lc' = layout_resize_check env type e lc - 1))"

lemma dec_okE:
  assumes "dec_ok env type c" "layout_wf c" "0 < layout_resize_check env type e c"
  obtains c' where "adjust_one env type False e c = Some c'" "adjusted type (-1) c c'"
    "layout_resize_check env type e c' = layout_resize_check env type e c - 1"
  using assms unfolding dec_ok_def by blast

lemma adjust_each_down:
  assumes "\<forall>c \<in> set cs. dec_ok env type c \<and> layout_wf c" "\<forall>r \<in> set (check_cells env type e pt i n cs). 0 < r"
  shows "\<exists>cs'. adjust_each env type False e pt i n cs = Some cs' \<and> list_all2 (adjusted type (-1)) cs cs' \<and>
    check_cells env type e pt i n cs' = map (\<lambda>r. r - 1) (check_cells env type e pt i n cs)"
  using assms
proof (induction cs arbitrary: i)
  case (Cons c cs)
  from Cons.prems have c: "dec_ok env type c" "layout_wf c" "0 < layout_resize_check env type (child_edge pt i n e) c"
    by simp_all
  obtain c' where "adjust_one env type False (child_edge pt i n e) c = Some c'" "adjusted type (-1) c c'"
    "layout_resize_check env type (child_edge pt i n e) c' = layout_resize_check env type (child_edge pt i n e) c - 1"
    by (rule dec_okE [OF c])
  moreover from Cons.IH [of "Suc i"] Cons.prems obtain cs' where
    "adjust_each env type False e pt (Suc i) n cs = Some cs'" "list_all2 (adjusted type (-1)) cs cs'"
    "check_cells env type e pt (Suc i) n cs' = map (\<lambda>r. r - 1) (check_cells env type e pt (Suc i) n cs)"
    by auto
  ultimately show ?case by simp
qed simp

lemma adjust_first_down:
  assumes "\<forall>c \<in> set cs. dec_ok env type c \<and> layout_wf c" "\<exists>r \<in> set (check_cells env type e pt i n cs). 0 < r"
  shows "\<exists>cs'. adjust_first env type False e pt i n cs = Some cs' \<and> shared type (-1) cs cs' \<and>
    room_sum (check_cells env type e pt i n cs') + 1 = room_sum (check_cells env type e pt i n cs)"
  using assms
proof (induction cs arbitrary: i)
  case (Cons c cs)
  let ?r = "layout_resize_check env type (child_edge pt i n e) c"
  show ?case
  proof (cases "0 < ?r")
    case True
    from Cons.prems have c: "dec_ok env type c" "layout_wf c" by simp_all
    obtain c' where c': "adjust_one env type False (child_edge pt i n e) c = Some c'"
      "adjusted type (-1) c c'" "layout_resize_check env type (child_edge pt i n e) c' = ?r - 1"
      by (rule dec_okE [OF c True])
    have "unat (?r - 1) + 1 = unat ?r" using True by unat_arith
    with c' True Cons.prems(1) show ?thesis
      by (auto intro!: exI [of _ "-1"] shared_0)
  next
    case False
    with Cons.prems(2) have "\<exists>r \<in> set (check_cells env type e pt (Suc i) n cs). 0 < r" by auto
    with Cons.IH [of "Suc i"] Cons.prems(1) obtain cs' where
      "adjust_first env type False e pt (Suc i) n cs = Some cs'" "shared type (-1) cs cs'"
      "room_sum (check_cells env type e pt (Suc i) n cs') + 1 = room_sum (check_cells env type e pt (Suc i) n cs)"
      by auto
    with False Cons.prems(1) show ?thesis by (auto intro!: exI [of _ 0] adjusted_0)
  qed
qed simp

lemma dec_ok_all: "direction type \<Longrightarrow> dec_ok env type lc"
proof (induction lc)
  case (Cell d cs)
  show ?case
    unfolding dec_ok_def
  proof (intro allI impI)
    fix e assume wf: "layout_wf (Cell d cs)" and pos: "0 < layout_resize_check env type e (Cell d cs)"
    let ?rs = "check_cells env type e (lc_type d) 0 (length cs) cs"
    show "\<exists>lc'. adjust_one env type False e (Cell d cs) = Some lc' \<and> adjusted type (-1) (Cell d cs) lc' \<and>
        layout_resize_check env type e lc' = layout_resize_check env type e (Cell d cs) - 1"
    proof (cases "lc_type d = LAYOUT_WINDOWPANE")
      case True
      with wf pos Cell.prems leaf_room_dec [of env type e d] show ?thesis
        by (auto simp: adjusted_def Let_def same_room_leaf)
    next
      case node: False
      with wf Cell have ok: "\<forall>c \<in> set cs. dec_ok env type c \<and> layout_wf c" and ne: "cs \<noteq> []" by auto
      show ?thesis
      proof (cases "lc_type d = type")
        case True
        with pos node have "\<exists>r \<in> set ?rs. 0 < r" by (auto dest: room_sum_pos)
        from adjust_first_down [OF ok this] obtain cs' where
          cs': "adjust_first env type False e (lc_type d) 0 (length cs) cs = Some cs'" "shared type (-1) cs cs'"
          "room_sum (check_cells env type e (lc_type d) 0 (length cs) cs') + 1 = room_sum ?rs" by blast
        have "of_nat (room_sum (check_cells env type e (lc_type d) 0 (length cs) cs')) + 1 = (of_nat (room_sum ?rs) :: u32)"
          using cs'(3) by (metis of_nat_1 of_nat_add)
        with cs' True node Cell.prems wf show ?thesis
          using adjusted_along [OF cs'(2) True Cell.prems wf] shared_parts(1) [OF cs'(2)]
          by (auto simp: room_sum_word Let_def algebra_simps)
      next
        case False
        from pos node False have pos: "\<forall>r \<in> set ?rs. 0 < r"
          by (auto intro: less_le_trans dest: fold_min_le)
        from adjust_each_down [OF ok pos] obtain cs' where
          cs': "adjust_each env type False e (lc_type d) 0 (length cs) cs = Some cs'" "list_all2 (adjusted type (-1)) cs cs'"
          "check_cells env type e (lc_type d) 0 (length cs) cs' = map (\<lambda>r. r - 1) ?rs" by blast
        have "?rs \<noteq> []" using ne by (metis length_0_conv length_check_cells)
        moreover have "\<forall>r \<in> set ?rs. 1 \<le> r" using pos by (simp add: word_pos_le)
        ultimately have "fold_min (map (\<lambda>r. r - 1) ?rs) = fold_min ?rs - 1" by (rule fold_min_sub)
        with cs' False node Cell.prems show ?thesis
          using adjusted_across [OF cs'(2) False Cell.prems wf] list_all2_lengthD [OF cs'(2)]
          by (auto simp: Let_def)
      qed
    qed
  qed
qed


lemma adjust_one_up: "direction type \<Longrightarrow> layout_wf lc \<Longrightarrow> \<exists>lc'. adjust_one env type True e lc = Some lc' \<and> adjusted type 1 lc lc'"
proof (induction lc arbitrary: e)
  case (Cell d cs)
  show ?case
  proof (cases "lc_type d = LAYOUT_WINDOWPANE")
    case True
    with Cell.prems show ?thesis by (auto simp: adjusted_def Let_def same_room_leaf)
  next
    case node: False
    have each: "\<exists>cs'. adjust_each env type True e pt i n bs = Some cs' \<and> list_all2 (adjusted type 1) bs cs'"
      if "set bs \<subseteq> set cs" for bs pt i n
      using that
    proof (induction bs arbitrary: i)
      case (Cons b bs)
      with Cell node have "layout_wf b" "b \<in> set cs" by auto
      then obtain b' where "adjust_one env type True (child_edge pt i n e) b = Some b'" "adjusted type 1 b b'"
        using Cell.IH Cell.prems(1) by blast
      moreover obtain bs' where "adjust_each env type True e pt (Suc i) n bs = Some bs'" "list_all2 (adjusted type 1) bs bs'"
        using Cons by auto
      ultimately show ?case by simp
    qed simp
    show ?thesis
    proof (cases "lc_type d = type")
      case True
      with node Cell.prems obtain c bs where cs: "cs = c # bs" "\<forall>b \<in> set bs. layout_wf b" "layout_wf c" by (cases cs) auto
      then obtain c' where c': "adjust_one env type True (child_edge (lc_type d) 0 (length cs) e) c = Some c'" "adjusted type 1 c c'"
        using Cell.IH Cell.prems(1) by (metis list.set_intros(1))
      then have "shared type 1 cs (c' # bs)" using cs by (auto intro!: exI [of _ 1] shared_0)
      with adjusted_along [OF this True Cell.prems] c' True node cs Cell.prems(1) show ?thesis by (auto simp: Let_def)
    next
      case False
      from each [of cs "lc_type d" 0 "length cs"] obtain cs' where
        "adjust_each env type True e (lc_type d) 0 (length cs) cs = Some cs'" "list_all2 (adjusted type 1) cs cs'" by auto
      with adjusted_across [OF this(2) False Cell.prems] False Cell.prems(1) show ?thesis by (auto simp: Let_def)
    qed
  qed
qed

section \<open>The loop over the children\<close>

lemma adjust_pass_up:
  assumes "direction type" "\<forall>c \<in> set cs. layout_wf c" "0 \<le> change"
  shows "\<exists>k cs'. adjust_pass env type e pt i n change cs = Some (change - k, cs') \<and> shared type k cs cs' \<and>
    0 \<le> k \<and> k \<le> change \<and> (cs \<noteq> [] \<and> 0 < change \<longrightarrow> 0 < k)"
  using assms(2,3)
proof (induction cs arbitrary: i change)
  case (Cons c cs)
  show ?case
  proof (cases "change = 0")
    case True
    with Cons.prems shared_0 [of "c # cs" type] show ?thesis by (intro exI [of _ 0] exI [of _ "c # cs"]) simp
  next
    case False
    obtain c' where "adjust_one env type True (child_edge pt i n e) c = Some c'" "adjusted type 1 c c'"
      using adjust_one_up [OF assms(1)] Cons.prems by (metis list.set_intros(1))
    moreover obtain k cs' where "adjust_pass env type e pt (Suc i) n (change - 1) cs = Some (change - 1 - k, cs')"
      "shared type k cs cs'" "0 \<le> k" "k \<le> change - 1"
      using Cons.IH [of "change - 1" "Suc i"] Cons.prems False by auto
    ultimately show ?thesis
      using False Cons.prems(2) by (intro exI [of _ "k + 1"] exI [of _ "c' # cs'"]) (auto intro!: exI [of _ 1])
  qed
qed auto

lemma adjust_pass_down:
  assumes "direction type" "\<forall>c \<in> set cs. layout_wf c" "change \<le> 0"
  shows "\<exists>k cs'. adjust_pass env type e pt i n change cs = Some (change + k, cs') \<and> shared type (- k) cs cs' \<and>
    0 \<le> k \<and> k \<le> - change \<and>
    int (room_sum (check_cells env type e pt i n cs')) = int (room_sum (check_cells env type e pt i n cs)) - k \<and>
    (0 < room_sum (check_cells env type e pt i n cs) \<and> change < 0 \<longrightarrow> 0 < k) \<and> (k = 0 \<longrightarrow> cs' = cs)"
  using assms(2,3)
proof (induction cs arbitrary: i change)
  case (Cons c cs)
  let ?r = "layout_resize_check env type (child_edge pt i n e) c"
  show ?case
  proof (cases "change = 0")
    case True
    with Cons.prems shared_0 [of "c # cs" type] show ?thesis by (intro exI [of _ 0] exI [of _ "c # cs"]) simp
  next
    case change: False
    show ?thesis
    proof (cases "0 < ?r")
      case True
      have c: "dec_ok env type c" "layout_wf c" using Cons.prems dec_ok_all [OF assms(1)] by simp_all
      obtain c' where c': "adjust_one env type False (child_edge pt i n e) c = Some c'" "adjusted type (-1) c c'"
        "layout_resize_check env type (child_edge pt i n e) c' = ?r - 1"
        by (rule dec_okE [OF c True])
      obtain k cs' where k: "adjust_pass env type e pt (Suc i) n (change + 1) cs = Some (change + 1 + k, cs')"
        "shared type (- k) cs cs'" "0 \<le> k" "k \<le> - (change + 1)"
        "int (room_sum (check_cells env type e pt (Suc i) n cs')) = int (room_sum (check_cells env type e pt (Suc i) n cs)) - k"
        using Cons.IH [of "change + 1" "Suc i"] Cons.prems change by auto
      have "int (unat (?r - 1)) = int (unat ?r) - 1" using True by unat_arith
      with c' k True change Cons.prems(2) show ?thesis
        by (intro exI [of _ "k + 1"] exI [of _ "c' # cs'"]) (auto intro!: exI [of _ "-1"])
    next
      case False
      obtain k cs' where "adjust_pass env type e pt (Suc i) n change cs = Some (change + k, cs')"
        "shared type (- k) cs cs'" "0 \<le> k" "k \<le> - change" "k = 0 \<longrightarrow> cs' = cs"
        "int (room_sum (check_cells env type e pt (Suc i) n cs')) = int (room_sum (check_cells env type e pt (Suc i) n cs)) - k"
        "0 < room_sum (check_cells env type e pt (Suc i) n cs) \<and> change < 0 \<longrightarrow> 0 < k"
        using Cons.IH [of change "Suc i"] Cons.prems by auto
      with False change Cons.prems show ?thesis
        by (intro exI [of _ k] exI [of _ "c # cs'"]) (auto simp: word_gt_0 intro!: exI [of _ 0] adjusted_0)
    qed
  qed
qed auto

lemma adjust_loop_total:
  assumes "direction type" "\<forall>c \<in> set cs. layout_wf c" "cs \<noteq> []"
    "- change \<le> int (room_sum (check_cells env type e pt 0 (length cs) cs))"
  shows "\<exists>cs'. adjust_loop env type e pt change cs = Some cs' \<and> shared type change cs cs' \<and>
    (change \<le> 0 \<longrightarrow> int (room_sum (check_cells env type e pt 0 (length cs) cs')) =
       int (room_sum (check_cells env type e pt 0 (length cs) cs)) + change)"
  using assms(2-4)
proof (induction "nat \<bar>change\<bar>" arbitrary: change cs rule: less_induct)
  case less
  consider "change = 0" | "0 < change" | "change < 0" by linarith
  then show ?case
  proof cases
    case 1
    with less.prems shared_0 [of cs type] show ?thesis by (simp add: adjust_loop.simps)
  next
    case 2
    obtain k cs' where k: "adjust_pass env type e pt 0 (length cs) change cs = Some (change - k, cs')" "shared type k cs cs'"
      "0 < k" "k \<le> change"
      using adjust_pass_up [OF assms(1) less.prems(1), of change env e pt 0 "length cs"] 2 less.prems(2) by auto
    note sp = shared_parts [OF k(2)]
    have "cs' \<noteq> []" using sp(1) less.prems(2) by auto
    with less.hyps [of "change - k" cs'] k(3,4) sp(1,2) obtain cs'' where
      "adjust_loop env type e pt (change - k) cs' = Some cs''" "shared type (change - k) cs' cs''"
      by auto
    with k 2 shared_trans [OF k(2), of "change - k" cs''] show ?thesis
      by (subst adjust_loop.simps) auto
  next
    case 3
    obtain k cs' where k: "adjust_pass env type e pt 0 (length cs) change cs = Some (change + k, cs')" "shared type (- k) cs cs'"
      "0 < k" "k \<le> - change" "int (room_sum (check_cells env type e pt 0 (length cs) cs')) =
        int (room_sum (check_cells env type e pt 0 (length cs) cs)) - k"
      using adjust_pass_down [OF assms(1) less.prems(1), of change env e pt 0 "length cs"] 3 less.prems(3) by auto
    note sp = shared_parts [OF k(2)]
    have "cs' \<noteq> []" using sp(1) less.prems(2) by auto
    with less.hyps [of "change + k" cs'] k(3-5) sp(1,2) less.prems(3) obtain cs'' where
      "adjust_loop env type e pt (change + k) cs' = Some cs''" "shared type (change + k) cs' cs''"
      "change + k \<le> 0 \<longrightarrow> int (room_sum (check_cells env type e pt 0 (length cs) cs'')) =
         int (room_sum (check_cells env type e pt 0 (length cs) cs')) + (change + k)"
      by auto
    with k 3 shared_trans [OF k(2), of "change + k" cs''] show ?thesis
      by (subst adjust_loop.simps) auto
  qed
qed


section \<open>Any change\<close>

lemma room_sub:
  fixes a m k :: u32
  assumes "k \<le> (if m < a then a - m else 0)"
  shows "(if m < a - k then a - k - m else 0) = (if m < a then a - m else 0) - k"
proof (cases "m < a")
  case True
  then have am: "unat (a - m) = unat a - unat m" "unat m < unat a"
    by (simp_all add: unat_sub word_le_nat_alt word_less_nat_alt less_imp_le)
  with assms True have k: "unat k \<le> unat a - unat m" by (simp add: word_le_nat_alt)
  then have ak: "unat (a - k) = unat a - unat k" by (simp add: unat_sub word_le_nat_alt)
  show ?thesis
  proof (cases "m < a - k")
    case False
    then have "unat (a - m) = unat k" using ak am k by (simp add: word_less_nat_alt)
    then have "a - m = k" by (rule word_unat_eq_iff [THEN iffD2])
    with False True show ?thesis by simp
  qed (use True in simp)
next
  case False
  with assms have "k = 0" by simp
  with False show ?thesis by simp
qed

lemma leaf_room_sub:
  assumes "of_int (- change) \<le> leaf_room env type e d" "direction type"
  shows "leaf_room env type e (grow_data type change d) = leaf_room env type e d + of_int change"
proof -
  define sz :: "lcell \<Rightarrow> u32" where "sz = (\<lambda>d. if type = LAYOUT_LEFTRIGHT then lc_sx d else lc_sy d)"
  obtain m where m: "leaf_room env type e d' = (if m < sz d' then sz d' - m else 0)" for d'
    unfolding leaf_room_def Let_def sz_def by blast
  have "sz (grow_data type change d) = sz d - of_int (- change)" using assms(2) by (auto simp: sz_def)
  with room_sub [of "of_int (- change)" m "sz d"] assms(1) show ?thesis by (simp add: m split: if_splits)
qed

text \<open>How much a cell may change: it can grow, and shrink by its free space.\<close>

abbreviation allowed :: "int \<Rightarrow> u32 \<Rightarrow> bool" where
  "allowed change r \<equiv> 0 \<le> change \<or> - change \<le> uint r"

lemma allowed_word:
  fixes r :: u32
  assumes "change \<le> 0" "- change \<le> uint r"
  shows "of_int (- change) \<le> r \<and> uint (of_int (- change) :: u32) = - change"
proof -
  have "uint (of_int k :: u32) = k" if "0 \<le> k" "k \<le> uint r" for k
  proof -
    have "uint r < 2 ^ 32" using uint_lt2p [of r] by simp
    with that have "k < 2 ^ 32" by linarith
    with that(1) show ?thesis by (simp add: uint_word_of_int_eq take_bit_int_eq_self)
  qed
  from this [of "- change"] assms show ?thesis by (simp only: word_le_def)
qed

lemma allowed_mono: "allowed change r \<Longrightarrow> r \<le> s \<Longrightarrow> allowed change s"
  by (auto simp: word_le_def)

definition adjust_ok :: "layout_env \<Rightarrow> layout_type \<Rightarrow> int \<Rightarrow> layout_cell \<Rightarrow> bool" where
  "adjust_ok env type change lc \<longleftrightarrow> (\<forall>e. layout_wf lc \<longrightarrow> allowed change (layout_resize_check env type e lc) \<longrightarrow>
     (\<exists>lc'. layout_resize_adjust env type change e lc = Some lc' \<and> adjusted type change lc lc' \<and>
        (change \<le> 0 \<longrightarrow> layout_resize_check env type e lc' = layout_resize_check env type e lc + of_int change)))"

lemma adjust_okE:
  assumes "adjust_ok env type change c" "layout_wf c" "allowed change (layout_resize_check env type e c)"
  obtains c' where "layout_resize_adjust env type change e c = Some c'" "adjusted type change c c'"
    "change \<le> 0 \<Longrightarrow> layout_resize_check env type e c' = layout_resize_check env type e c + of_int change"
  using assms unfolding adjust_ok_def by blast

lemma adjust_all_total:
  assumes "\<forall>c \<in> set cs. adjust_ok env type change c \<and> layout_wf c"
    "\<forall>r \<in> set (check_cells env type e pt i n cs). allowed change r"
  shows "\<exists>cs'. adjust_all env type change e pt i n cs = Some cs' \<and> list_all2 (adjusted type change) cs cs' \<and>
    (change \<le> 0 \<longrightarrow> check_cells env type e pt i n cs' = map (\<lambda>r. r + of_int change) (check_cells env type e pt i n cs))"
  using assms
proof (induction cs arbitrary: i)
  case (Cons c cs)
  from Cons.prems have c: "adjust_ok env type change c" "layout_wf c"
    "allowed change (layout_resize_check env type (child_edge pt i n e) c)" by auto
  obtain c' where "layout_resize_adjust env type change (child_edge pt i n e) c = Some c'" "adjusted type change c c'"
    "change \<le> 0 \<Longrightarrow> layout_resize_check env type (child_edge pt i n e) c' =
       layout_resize_check env type (child_edge pt i n e) c + of_int change"
    using adjust_okE [OF c] by blast
  moreover from Cons.IH [of "Suc i"] Cons.prems obtain cs' where
    "adjust_all env type change e pt (Suc i) n cs = Some cs'" "list_all2 (adjusted type change) cs cs'"
    "change \<le> 0 \<longrightarrow> check_cells env type e pt (Suc i) n cs' = map (\<lambda>r. r + of_int change) (check_cells env type e pt (Suc i) n cs)"
    by auto
  ultimately show ?case by auto
qed simp

lemma adjust_ok_all: "direction type \<Longrightarrow> adjust_ok env type change lc"
proof (induction lc)
  case (Cell d cs)
  show ?case
    unfolding adjust_ok_def
  proof (intro allI impI)
    fix e assume wf: "layout_wf (Cell d cs)" and al: "allowed change (layout_resize_check env type e (Cell d cs))"
    let ?rs = "check_cells env type e (lc_type d) 0 (length cs) cs"
    show "\<exists>lc'. layout_resize_adjust env type change e (Cell d cs) = Some lc' \<and> adjusted type change (Cell d cs) lc' \<and>
        (change \<le> 0 \<longrightarrow> layout_resize_check env type e lc' = layout_resize_check env type e (Cell d cs) + of_int change)"
    proof (cases "lc_type d = LAYOUT_WINDOWPANE")
      case True
      have "change \<le> 0 \<Longrightarrow> leaf_room env type e (grow_data type change d) = leaf_room env type e d + of_int change"
        using al True allowed_word [of change "leaf_room env type e d"] Cell.prems
        by (intro leaf_room_sub) auto
      with wf True Cell.prems show ?thesis by (auto simp: adjusted_def Let_def same_room_leaf)
    next
      case node: False
      with wf Cell have ok: "\<forall>c \<in> set cs. adjust_ok env type change c \<and> layout_wf c" and ne: "cs \<noteq> []" by auto
      show ?thesis
      proof (cases "lc_type d = type")
        case True
        have room: "- change \<le> int (room_sum ?rs)"
        proof -
          have "uint (sum_list ?rs) \<le> int (room_sum ?rs)"
            using sum_list_le_room [of ?rs] unfolding uint_nat by (rule of_nat_mono)
          moreover have "layout_resize_check env type e (Cell d cs) = sum_list ?rs" using node True by simp
          moreover have "0 \<le> int (room_sum ?rs)" by simp
          ultimately show ?thesis using al by (elim disjE) simp_all
        qed
        have cwf: "\<forall>c \<in> set cs. layout_wf c" using ok by blast
        from adjust_loop_total [OF Cell.prems cwf ne room] obtain cs' where
          cs': "adjust_loop env type e (lc_type d) change cs = Some cs'" "shared type change cs cs'"
          "change \<le> 0 \<longrightarrow> int (room_sum (check_cells env type e (lc_type d) 0 (length cs) cs')) = int (room_sum ?rs) + change"
          by blast
        have "change \<le> 0 \<Longrightarrow> (of_nat (room_sum (check_cells env type e (lc_type d) 0 (length cs) cs')) :: u32) =
            of_nat (room_sum ?rs) + of_int change"
        proof -
          assume "change \<le> 0"
          with cs'(3) have "(of_int (int (room_sum (check_cells env type e (lc_type d) 0 (length cs) cs'))) :: u32) =
              of_int (int (room_sum ?rs) + change)" by simp
          then show ?thesis by (simp only: of_int_add of_int_of_nat_eq)
        qed
        with cs' True node Cell.prems show ?thesis
          using adjusted_along [OF cs'(2) True Cell.prems wf] shared_parts(1) [OF cs'(2)]
          by (auto simp: room_sum_word Let_def)
      next
        case False
        have "allowed change (fold_min ?rs)" using al node False by simp
        then have "\<forall>r \<in> set ?rs. allowed change r" using allowed_mono fold_min_le by blast
        from adjust_all_total [OF ok this] obtain cs' where
          cs': "adjust_all env type change e (lc_type d) 0 (length cs) cs = Some cs'" "list_all2 (adjusted type change) cs cs'"
          "change \<le> 0 \<longrightarrow> check_cells env type e (lc_type d) 0 (length cs) cs' = map (\<lambda>r. r + of_int change) ?rs" by blast
        have "fold_min (map (\<lambda>r. r + of_int change) ?rs) = fold_min ?rs + of_int change" if "change \<le> 0"
        proof -
          have "?rs \<noteq> []" using ne by (metis length_0_conv length_check_cells)
          moreover have "\<forall>r \<in> set ?rs. of_int (- change) \<le> r"
            using al node False that allowed_word [of change "fold_min ?rs"] by (auto intro: order_trans dest: fold_min_le)
          ultimately show ?thesis using fold_min_sub [of ?rs "of_int (- change)"] by simp
        qed
        with cs' False node Cell.prems show ?thesis
          using adjusted_across [OF cs'(2) False Cell.prems wf] list_all2_lengthD [OF cs'(2)]
          by (auto simp: Let_def)
      qed
    qed
  qed
qed

lemma adjust_total:
  assumes "direction type" "layout_wf lc" "allowed change (layout_resize_check env type e lc)"
  obtains lc' where "layout_resize_adjust env type change e lc = Some lc'" "adjusted type change lc lc'"
    "change \<le> 0 \<Longrightarrow> layout_resize_check env type e lc' = layout_resize_check env type e lc + of_int change"
  using adjust_okE [OF adjust_ok_all [OF assms(1)] assms(2,3)] that by blast

end
