(* ===== verification/Layout_Tree.thy ===== *)
theory Layout_Tree
  imports Layout_Facts
begin

text \<open>
  The operations that change the tree, and their correctness: closing a pane, splitting one,
  resizing panes and the window. An operation works at one cell; what it keeps there
  (\<open>same_frame\<close>: a well-formed cell of the same size, with consistent sizes) it keeps of the
  whole tree.
\<close>

section \<open>Local changes\<close>

abbreviation good :: "layout_cell \<Rightarrow> bool" where
  "good lc \<equiv> layout_wf lc \<and> layout_check lc"

definition same_frame :: "layout_cell \<Rightarrow> layout_cell \<Rightarrow> bool" where
  "same_frame lc lc' \<longleftrightarrow> good lc' \<and> lc_sx (lc_data lc') = lc_sx (lc_data lc) \<and>
     lc_sy (lc_data lc') = lc_sy (lc_data lc)"

lemma same_frame_refl: "good lc \<Longrightarrow> same_frame lc lc"
  by (simp add: same_frame_def)

lemma same_frame_trans: "same_frame a b \<Longrightarrow> same_frame b c \<Longrightarrow> same_frame a c"
  by (simp add: same_frame_def)

lemma sum_list_update: "j < length xs \<Longrightarrow> sum_list (map f (xs[j := x])) = sum_list (map f xs) - f (xs ! j) + (f x :: u32)"
  by (induction xs arbitrary: j) (auto simp: algebra_simps split: nat.splits)

lemma sum_list_remove: "j < length xs \<Longrightarrow> sum_list (map f (remove_nth j xs)) = sum_list (map f xs) - (f (xs ! j) :: u32)"
proof (induction xs arbitrary: j)
  case (Cons x xs)
  then show ?case by (cases j) (auto simp: remove_nth_def)
qed simp

lemma remove_nth_parts: "j < length xs \<Longrightarrow> length (remove_nth j xs) = length xs - 1" "set (remove_nth j xs) \<subseteq> set xs"
  by (auto simp: remove_nth_def dest: in_set_takeD in_set_dropD)

lemma check_dims:
  "lc_type d = LAYOUT_LEFTRIGHT \<Longrightarrow> layout_check (Cell d cs) \<longleftrightarrow>
     (\<forall>c \<in> set cs. lc_sy (lc_data c) = lc_sy d \<and> layout_check c) \<and> sum_list (map (\<lambda>c. lc_sx (lc_data c) + 1) cs) - 1 = lc_sx d"
  "lc_type d = LAYOUT_TOPBOTTOM \<Longrightarrow> layout_check (Cell d cs) \<longleftrightarrow>
     (\<forall>c \<in> set cs. lc_sx (lc_data c) = lc_sx d \<and> layout_check c) \<and> sum_list (map (\<lambda>c. lc_sy (lc_data c) + 1) cs) - 1 = lc_sy d"
  by simp_all

lemma node_dir: "layout_wf (Cell d cs) \<Longrightarrow> lc_type d \<noteq> LAYOUT_WINDOWPANE \<Longrightarrow> direction (lc_type d)"
  by (cases "lc_type d") auto

lemma good_child: "good (Cell d cs) \<Longrightarrow> i < length cs \<Longrightarrow> good (cs ! i)"
  by (auto split: if_splits layout_type.splits)

lemma good_node: "good (Cell d cs) \<Longrightarrow> lc_type d \<noteq> LAYOUT_WINDOWPANE \<Longrightarrow> direction (lc_type d)"
  by (cases "lc_type d") auto

lemma same_frame_child:
  assumes "good (Cell d cs)" "i < length cs" "same_frame (cs ! i) c'"
  shows "same_frame (Cell d cs) (Cell d (cs[i := c']))"
proof -
  have sum: "sum_list (map (\<lambda>c. lc_sx (lc_data c) + 1) (cs[i := c'])) = sum_list (map (\<lambda>c. lc_sx (lc_data c) + 1) cs)"
    "sum_list (map (\<lambda>c. lc_sy (lc_data c) + 1) (cs[i := c'])) = sum_list (map (\<lambda>c. lc_sy (lc_data c) + 1) cs)"
    using assms(2,3) by (simp_all add: sum_list_update same_frame_def)
  have node: "lc_type d \<noteq> LAYOUT_WINDOWPANE" using assms(1,2) by auto
  have sub: "c = c' \<or> c \<in> set cs" if "c \<in> set (cs[i := c'])" for c
    using that set_update_subset_insert by fastforce
  have "layout_wf (Cell d (cs[i := c']))"
    using assms node sub by (auto simp: same_frame_def)
  moreover have dir: "direction (lc_type d)" by (rule good_node [OF assms(1) node])
  have "layout_check (Cell d (cs[i := c']))"
    using assms(1) assms(2,3) sum nth_mem [OF assms(2)] dir
    by (elim disjE) (auto simp: check_dims same_frame_def simp del: layout_check.simps dest!: sub)
  ultimately show ?thesis by (simp add: same_frame_def)
qed

lemma update_at_frame:
  assumes "update_at f e p root = Some root'" "good root"
    "\<And>e c c'. cell_at p root = Some c \<Longrightarrow> good c \<Longrightarrow> f e c = Some c' \<Longrightarrow> same_frame c c'"
  shows "same_frame root root'"
  using assms
proof (induction p root arbitrary: e root' rule: cell_at.induct)
  case (2 i p d cs)
  from 2(2) obtain c' where i: "i < length cs" and c': "update_at f (child_edge (lc_type d) i (length cs) e) p (cs ! i) = Some c'"
    and root': "root' = Cell d (cs[i := c'])" by (auto split: if_splits)
  have "good (cs ! i)" using good_child [OF 2(3) i] .
  with 2(1) [OF i c'] 2(4) i have "same_frame (cs ! i) c'" by simp
  with root' same_frame_child [OF 2(3) i] show ?case by simp
qed auto

lemma concat_update:
  "i < length cs \<Longrightarrow> concat (map f (cs[i := c])) = concat (map f (take i cs)) @ f c @ concat (map f (drop (Suc i) cs))"
  by (simp add: upd_conv_take_nth_drop)

lemma concat_split:
  "i < length cs \<Longrightarrow> concat (map f cs) = concat (map f (take i cs)) @ f (cs ! i) @ concat (map f (drop (Suc i) cs))"
  using concat_update [of i cs f "cs ! i"] by simp

lemma update_at_panes:
  assumes "update_at f e p root = Some root'" "layout_wf root"
  obtains pre post c e' c' where "cell_at p root = Some c" "f e' c = Some c'" "layout_wf c"
    "layout_panes root = pre @ layout_panes c @ post" "layout_panes root' = pre @ layout_panes c' @ post"
    "p = [] \<Longrightarrow> root' = c'"
  using assms
proof (induction p root arbitrary: e root' thesis rule: cell_at.induct)
  case (1 c)
  show ?case by (rule 1(1) [of c e root' "[]" "[]"]) (use 1(2,3) in auto)
next
  case (2 i p d cs)
  have i: "i < length cs" using 2(3) by (simp split: if_splits)
  with 2(3) obtain b' where b': "update_at f (child_edge (lc_type d) i (length cs) e) p (cs ! i) = Some b'"
    and root': "root' = Cell d (cs[i := b'])" by auto
  have wf: "layout_wf (cs ! i)" and node: "lc_type d \<noteq> LAYOUT_WINDOWPANE" using 2(4) i by (auto split: if_splits)
  obtain c e' c' pre post where c: "cell_at p (cs ! i) = Some c" "f e' c = Some c'" "layout_wf c"
    "layout_panes (cs ! i) = pre @ layout_panes c @ post" "layout_panes b' = pre @ layout_panes c' @ post"
    by (rule 2(1) [OF i _ b' wf])
  show ?case
  proof (rule 2(2))
    show "cell_at (i # p) (Cell d cs) = Some c" using i c(1) by simp
    show "layout_panes (Cell d cs) = (concat (map layout_panes (take i cs)) @ pre) @ layout_panes c @
        post @ concat (map layout_panes (drop (Suc i) cs))"
      using node c(4) concat_split [OF i, of layout_panes] by simp
    show "layout_panes root' = (concat (map layout_panes (take i cs)) @ pre) @ layout_panes c' @
        post @ concat (map layout_panes (drop (Suc i) cs))"
      using node c(5) i by (simp add: root' concat_update)
  qed (use c(2,3) in simp_all)
qed


section \<open>Destroying a cell\<close>

text \<open>Sizes an \<^verbatim>\<open>int\<close> can hold after adding the separator.\<close>

definition small_cell :: "layout_cell \<Rightarrow> bool" where
  "small_cell lc \<longleftrightarrow> lc_sx (lc_data lc) < 0x7fffffff \<and> lc_sy (lc_data lc) < 0x7fffffff"

lemma sint_small: "x < 0x7fffffff \<Longrightarrow> 0 \<le> sint (x + 1 :: u32)"
proof -
  assume x: "x < 0x7fffffff"
  then have "x + 1 \<le> 0x7fffffff" by unat_arith
  then have "uint (x + 1) < 2 ^ 31" by (simp add: word_le_def)
  then have "sint (x + 1) = uint (x + 1)"
    unfolding sint_uint by (intro signed_take_bit_int_eq_self) (auto intro: order_trans [OF _ uint_ge_0])
  then show ?thesis by simp
qed

lemma destroy_child_frame:
  assumes "good (Cell d cs)" "i < length cs" "small_cell (cs ! i)"
  obtains lc' where "destroy_child env i e (Cell d cs) = Some lc'" "same_frame (Cell d cs) lc'"
    "layout_panes lc' = concat (map layout_panes (take i cs)) @ concat (map layout_panes (drop (Suc i) cs))"
proof -
  define j where "j = (if i = 0 then 1 else i - 1)"
  let ?sz = "\<lambda>c. if lc_type d = LAYOUT_LEFTRIGHT then lc_sx (lc_data c) + 1 else lc_sy (lc_data c) + 1"
  let ?k = "sint (?sz (cs ! i))"
  have node: "lc_type d \<noteq> LAYOUT_WINDOWPANE" "lc_type d \<noteq> LAYOUT_FLOATING" and len: "2 \<le> length cs"
    using assms(1,2) by (auto split: if_splits)
  have cgood: "\<forall>c \<in> set cs. good c" using good_child [OF assms(1)] by (metis in_set_conv_nth)
  note dir = good_node [OF assms(1) node(1)]
  have j: "j < length cs" "j \<noteq> i" using len assms(2) by (auto simp: j_def)
  have "0 \<le> ?k" using assms(3) by (auto simp: small_cell_def intro: sint_small)
  then obtain c' where c': "layout_resize_adjust env (lc_type d) ?k (child_edge (lc_type d) j (length cs) e) (cs ! j) = Some c'"
    "adjusted (lc_type d) ?k (cs ! j) c'"
    using adjust_total [OF dir, of "cs ! j" ?k env "child_edge (lc_type d) j (length cs) e"] cgood j(1) by auto
  let ?cs1 = "cs[j := c']" let ?cs2 = "remove_nth i ?cs1"
  have len2: "length ?cs2 = length cs - 1" using assms(2) by (simp add: remove_nth_parts)
  have sub: "c \<in> set cs \<or> c = c'" if "c \<in> set ?cs2" for c
    using that remove_nth_parts(2) [of i ?cs1] assms(2) set_update_subset_insert [of cs j c'] by auto
  have "good c'" using c'(2) cgood j(1) by (simp add: adjusted_def)
  then have good2: "\<forall>c \<in> set ?cs2. good c" using sub cgood by blast
  have ci: "?cs1 ! i = cs ! i" using j by simp
  have across: "\<forall>c \<in> set ?cs2. (lc_type d = LAYOUT_LEFTRIGHT \<longrightarrow> lc_sy (lc_data c) = lc_sy d) \<and>
      (lc_type d = LAYOUT_TOPBOTTOM \<longrightarrow> lc_sx (lc_data c) = lc_sx d)"
    using assms(1) c'(2) j(1) nth_mem [OF j(1)] dir
    by (elim disjE) (auto simp: adjusted_def check_dims simp del: layout_check.simps dest!: sub)
  have sum: "sum_list (map ?sz ?cs2) = sum_list (map ?sz cs)"
    using j assms(2) c'(2) dir
    by (elim disjE) (simp_all add: sum_list_remove sum_list_update ci adjusted_def)
  have panes: "concat (map layout_panes ?cs2) = concat (map layout_panes (take i cs)) @ concat (map layout_panes (drop (Suc i) cs))"
  proof -
    have "map layout_panes ?cs1 = map layout_panes cs"
      using c'(2) j(1) by (simp add: map_update adjusted_def list_update_same_conv)
    then have "map layout_panes ?cs2 = map layout_panes (take i cs) @ map layout_panes (drop (Suc i) cs)"
      by (metis (no_types, lifting) drop_map map_append remove_nth_def take_map)
    then show ?thesis by simp
  qed
  have run: "destroy_child env i e (Cell d cs) = (case ?cs2 of [c] \<Rightarrow> Some c | cs2 \<Rightarrow> Some (Cell d cs2))"
    using c'(1) j(1) node(2) by (auto simp: j_def adjust_at_def Let_def split: if_splits)
  show thesis
  proof (cases "length cs = 2")
    case True
    then obtain c where c: "?cs2 = [c]" using len2 by (auto simp: length_Suc_conv)
    have "same_frame (Cell d cs) c"
      using sum across good2 assms(1) dir unfolding c same_frame_def
      by (elim disjE) (auto simp: check_dims diff_eq_eq simp del: layout_check.simps)
    with that run c panes show ?thesis by auto
  next
    case False
    then have "2 \<le> length ?cs2" using len len2 by simp
    moreover from this obtain a b bs where abs: "?cs2 = a # b # bs" by (metis Suc_le_length_iff numeral_2_eq_2)
    moreover have "layout_check (Cell d ?cs2)"
      using sum across good2 assms(1) dir by (elim disjE) (auto simp: check_dims simp del: layout_check.simps)
    ultimately have "same_frame (Cell d cs) (Cell d ?cs2)"
      using good2 node by (auto simp: same_frame_def)
    with that run abs panes node show ?thesis by auto
  qed
qed


lemma cell_at_good: "cell_at p root = Some c \<Longrightarrow> good root \<Longrightarrow> good c"
proof (induction p root rule: cell_at.induct)
  case (2 i p d cs)
  then show ?case using good_child [of d cs i] by (simp split: if_splits)
qed simp

lemma cell_at_snoc:
  "cell_at (p @ [i]) root = Some lc \<Longrightarrow> \<exists>d cs. cell_at p root = Some (Cell d cs) \<and> i < length cs \<and> cs ! i = lc"
proof (induction p root rule: cell_at.induct)
  case (1 c)
  then show ?case by (cases c) (auto split: if_splits)
qed (auto split: if_splits)

lemma update_at_exists:
  "cell_at p root = Some c \<Longrightarrow> (\<And>e. f e c \<noteq> None) \<Longrightarrow> \<exists>root'. update_at f e p root = Some root'"
proof (induction p root arbitrary: e rule: cell_at.induct)
  case (2 i p d cs)
  from 2(2) have "i < length cs" "cell_at p (cs ! i) = Some c" by (simp_all split: if_splits)
  with 2(1) [OF this 2(3)] show ?case by simp
qed simp

lemma small_root_offsets:
  "same_frame root lc \<Longrightarrow> same_frame root (map_data (\<lambda>d. d\<lparr>lc_xoff := x, lc_yoff := y\<rparr>) lc)"
  by (cases lc) (auto simp: same_frame_def split: layout_type.splits)

lemma map_data_panes: "(\<And>d. lc_type (f d) = lc_type d \<and> lc_wp (f d) = lc_wp d) \<Longrightarrow> layout_panes (map_data f lc) = layout_panes lc"
  by (cases lc) simp

lemma destroy_cell_frame:
  assumes "good root" "cell_at p root = Some lc" "p \<noteq> []" "small_cell lc"
  obtains root' pre post where "layout_destroy_cell env p root = Some (Some root')" "same_frame root root'"
    "layout_panes root = pre @ layout_panes lc @ post" "layout_panes root' = pre @ post"
proof -
  obtain q i where p: "p = q @ [i]" using assms(3) by (cases p rule: rev_cases) auto
  then obtain d cs where c: "cell_at q root = Some (Cell d cs)" "i < length cs" "cs ! i = lc"
    using cell_at_snoc assms(2) by blast
  have gc: "good (Cell d cs)" by (rule cell_at_good [OF c(1) assms(1)])
  have one: "\<exists>lc'. destroy_child env i e (Cell d cs) = Some lc' \<and> same_frame (Cell d cs) lc' \<and>
      layout_panes lc' = concat (map layout_panes (take i cs)) @ concat (map layout_panes (drop (Suc i) cs))" for e
    using destroy_child_frame [OF gc c(2), of env e] assms(4) c(3) by blast
  from update_at_exists [OF c(1), of "destroy_child env i" root_edges] one obtain root1 where
    r1: "update_at (destroy_child env i) root_edges q root = Some root1" by fastforce
  have f1: "same_frame root root1"
    by (rule update_at_frame [OF r1 assms(1)]) (metis c(1) one option.sel)
  have wf: "layout_wf root" using assms(1) by simp
  obtain pre post c1 e' c' where u: "cell_at q root = Some c1" "destroy_child env i e' c1 = Some c'"
    "layout_panes root = pre @ layout_panes c1 @ post" "layout_panes root1 = pre @ layout_panes c' @ post"
    by (rule update_at_panes [OF r1 wf])
  from u(2) one [of e'] c(1) u(1) have pc': "layout_panes c' =
      concat (map layout_panes (take i cs)) @ concat (map layout_panes (drop (Suc i) cs))" by simp
  have node: "lc_type d \<noteq> LAYOUT_WINDOWPANE" using gc c(2) by auto
  then have pc: "layout_panes (Cell d cs) =
      concat (map layout_panes (take i cs)) @ layout_panes lc @ concat (map layout_panes (drop (Suc i) cs))"
    using concat_split [OF c(2), of layout_panes] c(3) by simp
  let ?r = "if q = [] \<and> lc_type (lc_data root) \<noteq> LAYOUT_FLOATING \<and> length (lc_cells root) = 2
    then map_data (\<lambda>d. d\<lparr>lc_xoff := 0, lc_yoff := 0\<rparr>) root1 else root1"
  show thesis
  proof (rule that [of ?r "pre @ concat (map layout_panes (take i cs))" "concat (map layout_panes (drop (Suc i) cs)) @ post"])
    show "layout_destroy_cell env p root = Some (Some ?r)"
      using r1 by (simp add: layout_destroy_cell_def p)
    show "same_frame root ?r" using f1 small_root_offsets by simp
    show "layout_panes root = (pre @ concat (map layout_panes (take i cs))) @ layout_panes lc @
        concat (map layout_panes (drop (Suc i) cs)) @ post"
      using u(1,3) c(1) pc by simp
    show "layout_panes ?r = (pre @ concat (map layout_panes (take i cs))) @ concat (map layout_panes (drop (Suc i) cs)) @ post"
      using u(4) pc' by (simp add: map_data_panes)
  qed
qed


section \<open>Offsets\<close>

text \<open>Cells that differ in their offsets only.\<close>

definition same_but_offsets :: "layout_cell \<Rightarrow> layout_cell \<Rightarrow> bool" where
  "same_but_offsets c c' \<longleftrightarrow> (\<exists>x y. lc_data c' = (lc_data c)\<lparr>lc_xoff := x, lc_yoff := y\<rparr>) \<and>
     layout_panes c' = layout_panes c \<and> (layout_wf c \<longrightarrow> layout_wf c') \<and> (layout_check c \<longrightarrow> layout_check c')"

lemma same_but_offsets_node:
  assumes "list_all2 same_but_offsets cs cs'"
  shows "same_but_offsets (Cell d cs) (Cell (d\<lparr>lc_xoff := x, lc_yoff := y\<rparr>) cs')"
proof -
  have p: "map layout_panes cs' = map layout_panes cs" "map (\<lambda>c. lc_sx (lc_data c)) cs' = map (\<lambda>c. lc_sx (lc_data c)) cs"
    "map (\<lambda>c. lc_sy (lc_data c)) cs' = map (\<lambda>c. lc_sy (lc_data c)) cs" "length cs' = length cs"
    "\<forall>c \<in> set cs. layout_wf c \<Longrightarrow> \<forall>c \<in> set cs'. layout_wf c"
    "\<forall>c \<in> set cs. layout_check c \<Longrightarrow> \<forall>c \<in> set cs'. layout_check c"
    using assms by (induction rule: list_all2_induct) (auto simp: same_but_offsets_def)
  have sum: "sum_list (map (\<lambda>c. lc_sx (lc_data c) + 1) cs') = sum_list (map (\<lambda>c. lc_sx (lc_data c) + 1) cs)"
    "sum_list (map (\<lambda>c. lc_sy (lc_data c) + 1) cs') = sum_list (map (\<lambda>c. lc_sy (lc_data c) + 1) cs)"
    using arg_cong [OF p(2), of "\<lambda>l. sum_list (map (\<lambda>x. x + 1) l)"] arg_cong [OF p(3), of "\<lambda>l. sum_list (map (\<lambda>x. x + 1) l)"]
    by (simp_all add: comp_def)
  have "layout_check (Cell d cs) \<longrightarrow> layout_check (Cell (d\<lparr>lc_xoff := x, lc_yoff := y\<rparr>) cs')"
    using p(6) sum map_eq_all [OF p(2), of "lc_sx d"] map_eq_all [OF p(3), of "lc_sy d"]
    by (auto split: layout_type.splits)
  then show ?thesis
    using p(1,4,5) by (auto simp: same_but_offsets_def)
qed

lemma fix_offsets_parts:
  "same_but_offsets c (layout_fix_offsets1 c)"
  "list_all2 same_but_offsets cs1 (fix_leftright x1 y1 cs1)"
  "list_all2 same_but_offsets cs2 (fix_topbottom x2 y2 cs2)"
  "same_but_offsets c3 (fix_child x3 y3 c3)"
proof (induction c and x1 y1 cs1 and x2 y2 cs2 and x3 y3 c3
    rule: layout_fix_offsets1_fix_leftright_fix_topbottom_fix_child.induct)
  case (1 d cs)
  then show ?case using same_but_offsets_node [where cs = cs and d = d and x = "lc_xoff d" and y = "lc_yoff d"] by auto
next
  case (6 x y d cs)
  note node = same_but_offsets_node [where cs = cs and d = d and x = x and y = y]
  consider "lc_type d = LAYOUT_WINDOWPANE" | "lc_type d = LAYOUT_LEFTRIGHT"
    | "lc_type d \<noteq> LAYOUT_WINDOWPANE" "lc_type d \<noteq> LAYOUT_LEFTRIGHT" by blast
  then show ?case
  proof cases
    case 1
    then show ?thesis by (auto simp: same_but_offsets_def Let_def)
  next
    case 2
    with 6 have "list_all2 same_but_offsets cs (fix_leftright x y cs)" by simp
    from node [OF this] 2 show ?thesis by (simp add: Let_def)
  next
    case 3
    with 6 have "list_all2 same_but_offsets cs (fix_topbottom x y cs)" by simp
    from node [OF this] 3 show ?thesis by (simp add: Let_def)
  qed
qed auto

lemma same_but_offsets_frame: "same_but_offsets c c' \<Longrightarrow> good c \<Longrightarrow> same_frame c c'"
  by (auto simp: same_but_offsets_def same_frame_def)

lemma fix_offsets_frame:
  assumes "good c"
  shows "same_frame c (layout_fix_offsets c)" "layout_panes (layout_fix_offsets c) = layout_panes c"
proof -
  let ?c = "map_data (\<lambda>d. d\<lparr>lc_xoff := 0, lc_yoff := 0\<rparr>) c"
  have "same_frame c ?c" using small_root_offsets [OF same_frame_refl] assms by blast
  moreover from this have "same_frame ?c (layout_fix_offsets1 ?c)"
    using same_but_offsets_frame [OF fix_offsets_parts(1)] by (simp add: same_frame_def)
  ultimately show "same_frame c (layout_fix_offsets c)"
    unfolding layout_fix_offsets_def by (rule same_frame_trans)
  show "layout_panes (layout_fix_offsets c) = layout_panes c"
    using fix_offsets_parts(1) [of ?c] by (simp add: layout_fix_offsets_def same_but_offsets_def map_data_panes)
qed

section \<open>The cell of a pane\<close>

lemma pane_path_parts:
  "pane_path wp c = Some p \<Longrightarrow> \<exists>d cs. cell_at p c = Some (Cell d cs) \<and> lc_type d = LAYOUT_WINDOWPANE \<and> lc_wp d = Some wp"
  "pane_path_cells wp i cs = Some q \<Longrightarrow> \<exists>j p d ccs. q = (i + j) # p \<and> j < length cs \<and> cell_at p (cs ! j) = Some (Cell d ccs) \<and>
     lc_type d = LAYOUT_WINDOWPANE \<and> lc_wp d = Some wp"
proof (induction wp c and wp i cs arbitrary: p and q rule: pane_path_pane_path_cells.induct)
  case (1 wp d cs)
  then show ?case by (fastforce split: if_splits)
next
  case (3 wp i c cs)
  show ?case
  proof (cases "pane_path wp c")
    case None
    with 3 obtain j p d ccs where "q = (Suc i + j) # p" "j < length cs" "cell_at p (cs ! j) = Some (Cell d ccs)"
      "lc_type d = LAYOUT_WINDOWPANE" "lc_wp d = Some wp" by fastforce
    then show ?thesis by (intro exI [of _ "Suc j"]) auto
  next
    case (Some p)
    with 3 show ?thesis by (intro exI [of _ 0]) auto
  qed
qed simp

lemma pane_path_None:
  "pane_path wp c = None \<longleftrightarrow> Some wp \<notin> set (layout_panes c)"
  "pane_path_cells wp i cs = None \<longleftrightarrow> (\<forall>c \<in> set cs. Some wp \<notin> set (layout_panes c))"
  by (induction wp c and wp i cs rule: pane_path_pane_path_cells.induct) (auto split: option.splits)


section \<open>Closing a pane\<close>

fun small_tree :: "layout_cell \<Rightarrow> bool" where
  "small_tree (Cell d cs) \<longleftrightarrow> small_cell (Cell d cs) \<and> (\<forall>c \<in> set cs. small_tree c)"

lemma cell_at_small: "cell_at p root = Some c \<Longrightarrow> small_tree root \<Longrightarrow> small_tree c"
  by (induction p root rule: cell_at.induct) (auto split: if_splits)

lemma small_tree_cell: "small_tree c \<Longrightarrow> small_cell c"
  by (cases c) simp

text \<open>
  C26. Closing a pane: in a well-formed layout with consistent sizes, below what an \<^verbatim>\<open>int\<close> holds,
  and at least two panes, all different, \<^verbatim>\<open>layout_close_pane\<close> ends, removes exactly the given
  pane, and leaves a well-formed layout with consistent sizes that fills the same area.
\<close>

theorem layout_close_pane_correct:
  assumes "good root" "small_tree root" "distinct (layout_panes root)" "Some wp \<in> set (layout_panes root)"
    "2 \<le> length (layout_panes root)"
  shows "\<exists>root'. layout_close_pane env wp root = Some (Some root') \<and> good root' \<and>
    lc_sx (lc_data root') = lc_sx (lc_data root) \<and> lc_sy (lc_data root') = lc_sy (lc_data root) \<and>
    layout_panes root' = remove1 (Some wp) (layout_panes root)"
proof -
  obtain p where p: "pane_path wp root = Some p" using assms(4) pane_path_None(1) [of wp root] by auto
  then obtain d cs where c: "cell_at p root = Some (Cell d cs)" "lc_type d = LAYOUT_WINDOWPANE" "lc_wp d = Some wp"
    using pane_path_parts(1) by blast
  have "p \<noteq> []" using c(1,2) assms(5) by (cases p) auto
  from destroy_cell_frame [OF assms(1) c(1) this small_tree_cell [OF cell_at_small [OF c(1) assms(2)]], of env]
  obtain root1 pre post where r: "layout_destroy_cell env p root = Some (Some root1)" "same_frame root root1"
    "layout_panes root = pre @ layout_panes (Cell d cs) @ post" "layout_panes root1 = pre @ post" by blast
  have g: "good root1" using r(2) by (simp add: same_frame_def)
  have "remove1 (Some wp) (layout_panes root) = layout_panes root1"
    using assms(3) r(3,4) c(2,3) by (simp add: remove1_append)
  with p r(1,2) fix_offsets_frame [OF g] show ?thesis
    by (simp add: layout_close_pane_def same_frame_def)
qed

section \<open>Fitting children into a cell\<close>

lemma new_pane_size_last: "layout_new_pane_size env previous e lc type sz (Suc 0) left = Some left"
  by (simp add: layout_new_pane_size_def)

definition fits_children :: "layout_cell list \<Rightarrow> bool" where
  "fits_children cs \<longleftrightarrow> (\<forall>env e d c'. layout_resize_child_cells env e (Cell d cs) = Some c' \<longrightarrow> layout_wf (Cell d cs) \<longrightarrow>
     good c' \<and> lc_data c' = d \<and> layout_panes c' = layout_panes (Cell d cs))"

text \<open>One round of the loop: the new data of the child and what is left.\<close>

definition child_step :: "layout_env \<Rightarrow> edges \<Rightarrow> lcell \<Rightarrow> u32 \<Rightarrow> nat \<Rightarrow> u32 \<Rightarrow> lcell \<Rightarrow> layout_cell list \<Rightarrow> lcell \<Rightarrow> u32 \<Rightarrow> bool" where
  "child_step env ce d previous m available cd ccs cd' available' \<longleftrightarrow>
     (if lc_type d = LAYOUT_TOPBOTTOM
      then (\<exists>nsy. layout_new_pane_size env previous ce (Cell (cd\<lparr>lc_sx := lc_sx d, lc_xoff := lc_xoff d\<rparr>) ccs)
               LAYOUT_TOPBOTTOM (lc_sy d) m available = Some nsy \<and>
             cd' = cd\<lparr>lc_sx := lc_sx d, lc_xoff := lc_xoff d, lc_sy := nsy\<rparr> \<and> available' = available - (nsy + 1))
      else (\<exists>nsx. layout_new_pane_size env previous ce (Cell cd ccs) LAYOUT_LEFTRIGHT (lc_sx d) m available = Some nsx \<and>
             cd' = cd\<lparr>lc_sx := nsx, lc_sy := lc_sy d\<rparr> \<and> available' = available - (nsx + 1)))"

lemma resize_child_loop_step:
  assumes "resize_child_loop env e d previous i n available (Cell cd ccs # cs) = Some cs'" "direction (lc_type d)"
  obtains cd' available' c' cs'' where
    "child_step env (child_edge (lc_type d) i n e) d previous (n - i) available cd ccs cd' available'"
    "layout_resize_child_cells env (child_edge (lc_type d) i n e) (Cell cd' ccs) = Some c'"
    "resize_child_loop env e d previous (Suc i) n available' cs = Some cs''" "cs' = c' # cs''"
  using assms(2)
proof (elim disjE)
  assume t: "lc_type d = LAYOUT_LEFTRIGHT"
  with assms(1) show thesis
    by (auto simp: Let_def child_step_def split: option.splits intro!: that)
next
  assume t: "lc_type d = LAYOUT_TOPBOTTOM"
  with assms(1) show thesis
    by (auto simp: Let_def child_step_def split: option.splits intro!: that)
qed

lemma resize_child_loop_ok:
  assumes "direction (lc_type d)"
  shows "\<forall>c \<in> set cs. fits_children (lc_cells c) \<and> layout_wf c \<Longrightarrow> i + length cs = n \<Longrightarrow>
     resize_child_loop env e d previous i n available cs = Some cs' \<Longrightarrow>
     length cs' = length cs \<and> (\<forall>c \<in> set cs'. good c) \<and> map layout_panes cs' = map layout_panes cs \<and>
     (\<forall>c \<in> set cs'. if lc_type d = LAYOUT_LEFTRIGHT then lc_sy (lc_data c) = lc_sy d else lc_sx (lc_data c) = lc_sx d) \<and>
     (cs \<noteq> [] \<longrightarrow> sum_list (map (\<lambda>c. if lc_type d = LAYOUT_LEFTRIGHT then lc_sx (lc_data c) + 1 else lc_sy (lc_data c) + 1) cs') = available + 1)"
proof (induction cs arbitrary: i available cs')
  case (Cons c cs)
  obtain cd ccs where c: "c = Cell cd ccs" by (cases c)
  obtain cd' available' c' cs'' where s:
    "child_step env (child_edge (lc_type d) i n e) d previous (n - i) available cd ccs cd' available'"
    "layout_resize_child_cells env (child_edge (lc_type d) i n e) (Cell cd' ccs) = Some c'"
    "resize_child_loop env e d previous (Suc i) n available' cs = Some cs''" "cs' = c' # cs''"
    by (rule resize_child_loop_step [OF Cons.prems(3) [unfolded c] assms])
  have t: "lc_type cd' = lc_type cd" "lc_wp cd' = lc_wp cd" using s(1) by (auto simp: child_step_def split: if_splits)
  have "layout_wf (Cell cd' ccs)" "layout_panes (Cell cd' ccs) = layout_panes c" using Cons.prems(1) c t by auto
  then have c': "good c'" "lc_data c' = cd'" "layout_panes c' = layout_panes c"
    using s(2) Cons.prems(1) c unfolding fits_children_def by (metis layout_cell.sel(2) list.set_intros(1))+
  have rest: "\<forall>c \<in> set cs. fits_children (lc_cells c) \<and> layout_wf c" "Suc i + length cs = n"
    using Cons.prems(1,2) by auto
  note IH = Cons.IH [OF rest s(3)]
  have last: "available' + 1 = 0" if "cs = []"
    using s(1) Cons.prems(2) that by (auto simp: child_step_def new_pane_size_last split: if_splits)
  show ?case
    using assms IH c' s(1,4) last by (cases "cs = []") (auto simp: child_step_def split: if_splits)
qed simp

lemma fits_children_all: "fits_children (lc_cells c)"
proof (induction c)
  case (Cell d0 cs)
  show ?case
    unfolding fits_children_def layout_cell.sel
  proof (intro allI impI)
    fix env e d c'
    assume run: "layout_resize_child_cells env e (Cell d cs) = Some c'" and wf: "layout_wf (Cell d cs)"
    show "good c' \<and> lc_data c' = d \<and> layout_panes c' = layout_panes (Cell d cs)"
    proof (cases "lc_type d = LAYOUT_WINDOWPANE")
      case False
      have dir: "direction (lc_type d)" by (rule node_dir [OF wf False])
      have ne: "cs \<noteq> []" and cwf: "\<forall>c \<in> set cs. fits_children (lc_cells c) \<and> layout_wf c" using wf False Cell.IH by auto
      obtain previous cs' where cs': "c' = Cell d cs'" "resize_child_loop env e d previous 0 (length cs)
          (case lc_type d of LAYOUT_LEFTRIGHT \<Rightarrow> lc_sx d | LAYOUT_TOPBOTTOM \<Rightarrow> lc_sy d | _ \<Rightarrow> 0) cs = Some cs'"
        using run False by (auto simp: Let_def)
      from resize_child_loop_ok [OF dir cwf _ cs'(2)] ne dir wf False show ?thesis
        by (elim disjE) (auto simp: cs'(1) check_dims simp del: layout_check.simps)
    qed (use run wf in auto)
  qed
qed

lemma resize_child_cells_ok:
  "layout_resize_child_cells env e c = Some c' \<Longrightarrow> layout_wf c \<Longrightarrow>
     good c' \<and> lc_data c' = lc_data c \<and> layout_panes c' = layout_panes c"
  using fits_children_all [of c] by (cases c) (simp only: fits_children_def layout_cell.sel)


section \<open>Splitting a pane\<close>

lemma split_sizes_sum: "fst (split_sizes saved sz before) + 1 + (snd (split_sizes saved sz before) + 1) = saved + 1"
  by (simp add: split_sizes_def Let_def)

lemma set_size_parts [simp]:
  "layout_wf (layout_set_size lc sx sy x y) = layout_wf lc"
  "layout_panes (layout_set_size lc sx sy x y) = layout_panes lc"
  "lc_data (layout_set_size lc sx sy x y) = (lc_data lc)\<lparr>lc_sx := sx, lc_sy := sy, lc_xoff := x, lc_yoff := y\<rparr>"
  "lc_cells (layout_set_size lc sx sy x y) = lc_cells lc"
  by (cases lc; simp add: layout_set_size_def)+

lemma create_cell_parts [simp]:
  "layout_wf layout_create_cell" "layout_panes layout_create_cell = [None]"
  "lc_data layout_create_cell = \<lparr>lc_type = LAYOUT_WINDOWPANE, lc_sx = uint_max, lc_sy = uint_max,
     lc_xoff = 0x7fffffff, lc_yoff = 0x7fffffff, lc_wp = None\<rparr>"
  by (simp_all add: layout_create_cell_def)

lemma leaf_check: "lc_type (lc_data lc) = LAYOUT_WINDOWPANE \<Longrightarrow> layout_check lc"
  by (cases lc) simp

lemma make_leaf_parts [simp]:
  "layout_wf (layout_make_leaf lc wp)" "layout_panes (layout_make_leaf lc wp) = [Some wp]"
  "lc_data (layout_make_leaf lc wp) = (lc_data lc)\<lparr>lc_type := LAYOUT_WINDOWPANE, lc_wp := Some wp\<rparr>"
  by (simp_all add: layout_make_leaf_def)

text \<open>The two halves together take the place of the old cell.\<close>

lemma split_pair_parts:
  assumes "split_pair type sizes before lc = ab" "direction type" "layout_wf lc"
    "fst sizes + 1 + (snd sizes + 1) = (if type = LAYOUT_LEFTRIGHT then lc_sx (lc_data lc) else lc_sy (lc_data lc)) + 1"
  shows "length ab = 2" "\<forall>c \<in> set ab. layout_wf c"
    "concat (map layout_panes ab) = (if before then None # layout_panes lc else layout_panes lc @ [None])"
    "type = LAYOUT_LEFTRIGHT \<Longrightarrow> (\<forall>c \<in> set ab. lc_sy (lc_data c) = lc_sy (lc_data lc)) \<and>
       sum_list (map (\<lambda>c. lc_sx (lc_data c) + 1) ab) = lc_sx (lc_data lc) + 1"
    "type = LAYOUT_TOPBOTTOM \<Longrightarrow> (\<forall>c \<in> set ab. lc_sx (lc_data c) = lc_sx (lc_data lc)) \<and>
       sum_list (map (\<lambda>c. lc_sy (lc_data c) + 1) ab) = lc_sy (lc_data lc) + 1"
    "lc_type (lc_data lc) = LAYOUT_WINDOWPANE \<Longrightarrow> \<forall>c \<in> set ab. layout_check c"
    "lc_type (lc_data (ab ! (if before then 0 else 1))) = LAYOUT_WINDOWPANE"
    "lc_type (lc_data (ab ! (if before then 1 else 0))) = lc_type (lc_data lc)"
  using assms by (auto simp: split_pair_def place_pair_def leaf_check algebra_simps)

lemma splice_parts:
  assumes "i < length cs" "\<forall>c \<in> set ab. P c" "\<forall>c \<in> set cs. P c"
  shows "\<forall>c \<in> set (take i cs @ ab @ drop (Suc i) cs). P c"
    "length (take i cs @ ab @ drop (Suc i) cs) = length cs - 1 + length ab"
    "sum_list (map f (take i cs @ ab @ drop (Suc i) cs)) = sum_list (map f cs) - f (cs ! i) + (sum_list (map f ab) :: u32)"
proof -
  show "\<forall>c \<in> set (take i cs @ ab @ drop (Suc i) cs). P c"
    using assms by (auto dest: in_set_takeD in_set_dropD)
  have "sum_list (map f cs) = sum_list (map f (take i cs)) + (f (cs ! i) + sum_list (map f (drop (Suc i) cs)))"
    using assms(1) by (metis id_take_nth_drop list.simps(9) map_append sum_list.Cons sum_list_append)
  then show "sum_list (map f (take i cs @ ab @ drop (Suc i) cs)) = sum_list (map f cs) - f (cs ! i) + sum_list (map f ab)"
    by (simp add: algebra_simps)
qed (use assms(1) in auto)

lemma split_in_parent_frame:
  assumes "split_in_parent type sizes before wp i e (Cell d cs) = Some c'" "good (Cell d cs)" "i < length cs"
    "lc_type d = type" "direction type"
    "fst sizes + 1 + (snd sizes + 1) = (if type = LAYOUT_LEFTRIGHT then lc_sx (lc_data (cs ! i)) else lc_sy (lc_data (cs ! i))) + 1"
  shows "same_frame (Cell d cs) c' \<and> layout_panes c' = concat (map layout_panes (take i cs)) @
    (if before then [None, Some wp] else [Some wp, None]) @ concat (map layout_panes (drop (Suc i) cs))"
proof -
  define ab where "ab = split_pair type sizes before (layout_make_leaf (cs ! i) wp)"
  have c': "c' = Cell d (take i cs @ ab @ drop (Suc i) cs)" using assms(1) by (simp add: ab_def)
  have wf: "layout_wf (layout_make_leaf (cs ! i) wp)" by simp
  have sz: "fst sizes + 1 + (snd sizes + 1) = (if type = LAYOUT_LEFTRIGHT then lc_sx (lc_data (layout_make_leaf (cs ! i) wp))
      else lc_sy (lc_data (layout_make_leaf (cs ! i) wp))) + 1"
    using assms(6) by simp
  note ab = split_pair_parts [OF ab_def [symmetric] assms(5) wf sz]
  have cgood: "\<forall>c \<in> set cs. good c" using good_child [OF assms(2)] by (metis in_set_conv_nth)
  have gab: "\<forall>c \<in> set ab. good c" using ab(2,6) by simp
  note sp = splice_parts [OF assms(3) gab cgood]
  have ci: "cs ! i \<in> set cs" using assms(3) by simp
  have "same_frame (Cell d cs) c'"
    unfolding same_frame_def c'
  proof (intro conjI)
    show "layout_wf (Cell d (take i cs @ ab @ drop (Suc i) cs))"
    proof -
      have "lc_type d \<noteq> LAYOUT_WINDOWPANE" "lc_type d \<noteq> LAYOUT_FLOATING" using assms(4,5) by auto
      moreover from this have "2 \<le> length cs" using assms(2) by simp
      ultimately show ?thesis using sp(1,2) ab(1) by simp
    qed
    show "layout_check (Cell d (take i cs @ ab @ drop (Suc i) cs))"
      using assms(5)
    proof (elim disjE)
      assume t: "type = LAYOUT_LEFTRIGHT"
      then have d: "lc_type d = LAYOUT_LEFTRIGHT" using assms(4) by simp
      have cs: "\<forall>c \<in> set cs. lc_sy (lc_data c) = lc_sy d" "sum_list (map (\<lambda>c. lc_sx (lc_data c) + 1) cs) = lc_sx d + 1"
        using assms(2) check_dims(1) [OF d, of cs] by (auto simp: diff_eq_eq simp del: layout_check.simps)
      have "\<forall>c \<in> set ab. lc_sy (lc_data c) = lc_sy d"
        using ab(4) [OF t] cs(1) ci by simp
      from splice_parts(1) [OF assms(3) this cs(1)] sp(1)
      have "\<forall>c \<in> set (take i cs @ ab @ drop (Suc i) cs). lc_sy (lc_data c) = lc_sy d \<and> layout_check c" by blast
      moreover have "sum_list (map (\<lambda>c. lc_sx (lc_data c) + 1) (take i cs @ ab @ drop (Suc i) cs)) - 1 = lc_sx d"
        unfolding sp(3) using cs(2) ab(4) [OF t] by simp
      ultimately show ?thesis using check_dims(1) [OF d] by blast
    next
      assume t: "type = LAYOUT_TOPBOTTOM"
      then have d: "lc_type d = LAYOUT_TOPBOTTOM" using assms(4) by simp
      have cs: "\<forall>c \<in> set cs. lc_sx (lc_data c) = lc_sx d" "sum_list (map (\<lambda>c. lc_sy (lc_data c) + 1) cs) = lc_sy d + 1"
        using assms(2) check_dims(2) [OF d, of cs] by (auto simp: diff_eq_eq simp del: layout_check.simps)
      have "\<forall>c \<in> set ab. lc_sx (lc_data c) = lc_sx d"
        using ab(5) [OF t] cs(1) ci by simp
      from splice_parts(1) [OF assms(3) this cs(1)] sp(1)
      have "\<forall>c \<in> set (take i cs @ ab @ drop (Suc i) cs). lc_sx (lc_data c) = lc_sx d \<and> layout_check c" by blast
      moreover have "sum_list (map (\<lambda>c. lc_sy (lc_data c) + 1) (take i cs @ ab @ drop (Suc i) cs)) - 1 = lc_sy d"
        unfolding sp(3) using cs(2) ab(5) [OF t] by simp
      ultimately show ?thesis using check_dims(2) [OF d] by blast
    qed
  qed simp_all
  moreover have "lc_type d \<noteq> LAYOUT_WINDOWPANE" using assms(4,5) by auto
  ultimately show ?thesis using ab(3) by (simp add: c')
qed


lemma pair_node:
  assumes "direction type" "lc_type pd = type" "length ab = 2" "\<forall>c \<in> set ab. good c"
    "type = LAYOUT_LEFTRIGHT \<Longrightarrow> (\<forall>c \<in> set ab. lc_sy (lc_data c) = lc_sy pd) \<and> sum_list (map (\<lambda>c. lc_sx (lc_data c) + 1) ab) = lc_sx pd + 1"
    "type = LAYOUT_TOPBOTTOM \<Longrightarrow> (\<forall>c \<in> set ab. lc_sx (lc_data c) = lc_sx pd) \<and> sum_list (map (\<lambda>c. lc_sy (lc_data c) + 1) ab) = lc_sy pd + 1"
  shows "good (Cell pd ab)"
  using assms by auto

lemma split_new_parent_frame:
  assumes "split_new_parent env type sizes before full wp e lc = Some c'" "good lc" "direction type"
    "full \<or> layout_panes lc = [Some wp]"
    "fst sizes + 1 + (snd sizes + 1) = (if type = LAYOUT_LEFTRIGHT then lc_sx (lc_data lc) else lc_sy (lc_data lc)) + 1"
  shows "same_frame lc c' \<and> layout_panes c' = (if before then None # layout_panes lc else layout_panes lc @ [None])"
proof -
  define lc0 where "lc0 = (if full then lc else layout_make_leaf lc wp)"
  define ab where "ab = split_pair type sizes before lc0"
  define i where "i = (if before then 1 else 0 :: nat)"
  define pd where "pd = (lc_data lc)\<lparr>lc_type := type, lc_wp := None\<rparr>"
  have lc0: "layout_wf lc0" "lc_sx (lc_data lc0) = lc_sx (lc_data lc)" "lc_sy (lc_data lc0) = lc_sy (lc_data lc)"
    "layout_panes lc0 = layout_panes lc"
    using assms(2,4) by (auto simp: lc0_def)
  note ab = split_pair_parts [OF ab_def [symmetric] assms(3) lc0(1)]
  have sz: "fst sizes + 1 + (snd sizes + 1) = (if type = LAYOUT_LEFTRIGHT then lc_sx (lc_data lc0) else lc_sy (lc_data lc0)) + 1"
    using assms(5) lc0 by simp
  note ab = ab [OF sz]
  have node: "layout_make_node layout_create_cell type = Some (Cell \<lparr>lc_type = type, lc_sx = uint_max, lc_sy = uint_max,
     lc_xoff = 0x7fffffff, lc_yoff = 0x7fffffff, lc_wp = None\<rparr> [])" and type: "type \<noteq> LAYOUT_WINDOWPANE" "type \<noteq> LAYOUT_FLOATING"
    using assms(3) by (auto simp: layout_make_node_def)
  have pd: "lc_data (layout_set_size (Cell \<lparr>lc_type = type, lc_sx = uint_max, lc_sy = uint_max,
     lc_xoff = 0x7fffffff, lc_yoff = 0x7fffffff, lc_wp = None\<rparr> []) (lc_sx (lc_data lc)) (lc_sy (lc_data lc))
       (lc_xoff (lc_data lc)) (lc_yoff (lc_data lc))) = pd"
    by (simp add: pd_def)
  have panes: "concat (map layout_panes ab) = (if before then None # layout_panes lc else layout_panes lc @ [None])"
    using ab(3) lc0(4) by simp
  have dims: "type = LAYOUT_LEFTRIGHT \<Longrightarrow> (\<forall>c \<in> set ab. lc_sy (lc_data c) = lc_sy pd) \<and> sum_list (map (\<lambda>c. lc_sx (lc_data c) + 1) ab) = lc_sx pd + 1"
    "type = LAYOUT_TOPBOTTOM \<Longrightarrow> (\<forall>c \<in> set ab. lc_sx (lc_data c) = lc_sx pd) \<and> sum_list (map (\<lambda>c. lc_sy (lc_data c) + 1) ab) = lc_sy pd + 1"
    using ab(4,5) lc0 by (simp_all add: pd_def)
  show ?thesis
  proof (cases full)
    case False
    then have c': "c' = Cell pd ab" using assms(1) node pd by (simp add: split_new_parent_def Let_def ab_def lc0_def)
    have leaf: "lc_type (lc_data lc0) = LAYOUT_WINDOWPANE" using False by (simp add: lc0_def)
    have "good (Cell pd ab)"
      by (rule pair_node [OF assms(3) _ ab(1) _ dims]) (use ab(2) ab(6) [OF leaf] in \<open>simp_all add: pd_def\<close>)
    then show ?thesis using c' panes type by (simp add: same_frame_def) (simp add: pd_def)
  next
    case True
    then obtain b where b: "layout_resize_child_cells env (child_edge type i 2 e) (ab ! i) = Some b" and c': "c' = Cell pd (ab[i := b])"
      using assms(1) node pd by (auto simp: split_new_parent_def Let_def ab_def lc0_def i_def)
    have i: "i < length ab" using ab(1) by (simp add: i_def)
    have bo: "good b" "lc_data b = lc_data (ab ! i)" "layout_panes b = layout_panes (ab ! i)"
      using resize_child_cells_ok [OF b] ab(2) i by auto
    have other: "\<forall>c \<in> set (ab[i := b]). good c"
    proof -
      have "layout_check (ab ! (1 - i))" using ab(7) by (intro leaf_check) (simp add: i_def split: if_splits)
      then have "\<forall>j < 2. good (ab[i := b] ! j)"
        using bo(1) ab(1,2) i by (auto simp: nth_list_update i_def less_2_cases_iff)
      then show ?thesis using ab(1) by (metis in_set_conv_nth length_list_update)
    qed
    have same: "map lc_data (ab[i := b]) = map lc_data ab" "map layout_panes (ab[i := b]) = map layout_panes ab"
      using bo(2,3) i by (simp_all add: map_update list_update_same_conv)
    have sets: "lc_data ` set (ab[i := b]) = lc_data ` set ab" using same(1) by (metis list.set_map)
    have sums: "sum_list (map (\<lambda>c. f (lc_data c)) (ab[i := b])) = sum_list (map (\<lambda>c. f (lc_data c)) ab)" for f :: "lcell \<Rightarrow> u32"
      using arg_cong [OF same(1), of "\<lambda>l. sum_list (map f l)"] by (simp add: comp_def)
    have "good (Cell pd (ab[i := b]))"
    proof (rule pair_node [OF assms(3) _ _ other])
      show "(\<forall>c \<in> set (ab[i := b]). lc_sy (lc_data c) = lc_sy pd) \<and> sum_list (map (\<lambda>c. lc_sx (lc_data c) + 1) (ab[i := b])) = lc_sx pd + 1"
        if "type = LAYOUT_LEFTRIGHT"
        using dims(1) [OF that] sets sums [of "\<lambda>d. lc_sx d + 1"] by (metis imageE imageI)
      show "(\<forall>c \<in> set (ab[i := b]). lc_sx (lc_data c) = lc_sx pd) \<and> sum_list (map (\<lambda>c. lc_sy (lc_data c) + 1) (ab[i := b])) = lc_sy pd + 1"
        if "type = LAYOUT_TOPBOTTOM"
        using dims(2) [OF that] sets sums [of "\<lambda>d. lc_sy d + 1"] by (metis imageE imageI)
    qed (use ab(1) in \<open>simp_all add: pd_def\<close>)
    then show ?thesis using c' panes type same(2) by (simp add: same_frame_def) (simp add: pd_def)
  qed
qed


lemma split_root_same_frame:
  assumes "split_root_same env type saved new before (Cell d cs) = Some c'" "good (Cell d cs)" "lc_type d = type" "direction type"
    "saved = (if type = LAYOUT_LEFTRIGHT then lc_sx d else lc_sy d)"
  shows "same_frame (Cell d cs) c' \<and> layout_panes c' =
    (if before then None # layout_panes (Cell d cs) else layout_panes (Cell d cs) @ [None])"
proof -
  define d1 where "d1 = (if type = LAYOUT_LEFTRIGHT then d\<lparr>lc_sx := new\<rparr> else d\<lparr>lc_sy := new\<rparr>)"
  define lcnew where "lcnew = (if type = LAYOUT_LEFTRIGHT then layout_set_size layout_create_cell (saved - 1 - new) (lc_sy d) 0 0
    else layout_set_size layout_create_cell (lc_sx d) (saved - 1 - new) 0 0)"
  from assms(1) obtain d2 cs2 where r: "layout_resize_child_cells env root_edges (Cell d1 cs) = Some (Cell d2 cs2)"
    and c': "c' = Cell d (if before then lcnew # cs2 else cs2 @ [lcnew])"
    by (auto simp: Let_def d1_def lcnew_def split: option.splits layout_cell.splits)
  have "layout_wf (Cell d1 cs)" using assms(2) by (auto simp: d1_def)
  note rok = resize_child_cells_ok [OF r this]
  then have "d2 = d1" by simp
  with rok have ok: "good (Cell d1 cs2)" "layout_panes (Cell d1 cs2) = layout_panes (Cell d1 cs)"
    by blast+
  have t: "lc_type d1 = type" "lc_type d \<noteq> LAYOUT_WINDOWPANE" "lc_type d \<noteq> LAYOUT_FLOATING" using assms(3,4) by (auto simp: d1_def)
  have new: "good lcnew" "layout_panes lcnew = [None]"
    by (auto simp: lcnew_def leaf_check)
  have "good (Cell d (lcnew # cs2)) \<and> good (Cell d (cs2 @ [lcnew]))"
    using assms(4)
  proof (elim disjE)
    assume lr: "type = LAYOUT_LEFTRIGHT"
    have "sum_list (map (\<lambda>c. lc_sx (lc_data c) + 1) cs2) = new + 1"
      using ok(1) lr by (simp add: d1_def assms(3) diff_eq_eq)
    with ok(1) new assms(3,5) lr t show ?thesis by (simp add: d1_def lcnew_def algebra_simps)
  next
    assume tb: "type = LAYOUT_TOPBOTTOM"
    have "sum_list (map (\<lambda>c. lc_sy (lc_data c) + 1) cs2) = new + 1"
      using ok(1) tb by (simp add: d1_def assms(3) diff_eq_eq)
    with ok(1) new assms(3,5) tb t show ?thesis by (simp add: d1_def lcnew_def algebra_simps)
  qed
  with c' ok(2) new t assms(3) show ?thesis by (auto simp: same_frame_def)
qed

lemma edges_cell_at: "cell_at (p @ [i]) root = Some lc \<Longrightarrow> cell_at p root \<noteq> None"
  using cell_at_snoc by fastforce

text \<open>The panes of the new tree: an empty cell was inserted, everything else is as it was.\<close>

definition one_more :: "layout_cell \<Rightarrow> layout_cell \<Rightarrow> bool" where
  "one_more root root' \<longleftrightarrow> (\<exists>pre post. layout_panes root = pre @ post \<and> layout_panes root' = pre @ [None] @ post)"

lemma one_moreI: "layout_panes c' = (if before then None # layout_panes c else layout_panes c @ [None]) \<Longrightarrow> one_more c c'"
  unfolding one_more_def
  by (cases before) (auto intro: exI [of _ "[]"] exI [of _ "layout_panes c"])

lemma update_one_more:
  assumes "update_at f e p root = Some root'" "good root" "cell_at p root = Some c"
    "\<And>e c'. f e c = Some c' \<Longrightarrow> same_frame c c' \<and> one_more c c'"
  shows "same_frame root root' \<and> one_more root root'"
proof
  show "same_frame root root'"
    by (rule update_at_frame [OF assms(1,2)]) (use assms(3,4) in auto)
  have wf: "layout_wf root" using assms(2) by simp
  obtain pre post c1 e' c' where u: "cell_at p root = Some c1" "f e' c1 = Some c'"
    "layout_panes root = pre @ layout_panes c1 @ post" "layout_panes root' = pre @ layout_panes c' @ post"
    by (rule update_at_panes [OF assms(1) wf])
  have "one_more c c'" using assms(3) assms(4) [of e' c'] u(1,2) by simp
  then obtain a b where "layout_panes c1 = a @ b" "layout_panes c' = a @ [None] @ b"
    using u(1) assms(3) by (auto simp: one_more_def)
  with u(3,4) show "one_more root root'"
    unfolding one_more_def by (intro exI [of _ "pre @ a"] exI [of _ "b @ post"]) simp
qed

lemma fix_offsets_one_more: "good root' \<Longrightarrow> same_frame root root' \<and> one_more root root' \<Longrightarrow>
    same_frame root (layout_fix_offsets root') \<and> one_more root (layout_fix_offsets root')"
  using fix_offsets_frame [of root'] same_frame_trans by (auto simp: one_more_def)

lemma split_cell:
  assumes "pane_path wp root = Some path"
  obtains lc where "cell_at (if full then [] else path) root = Some lc" "full \<or> layout_panes lc = [Some wp]"
proof -
  obtain d cs where "cell_at path root = Some (Cell d cs)" "lc_type d = LAYOUT_WINDOWPANE" "lc_wp d = Some wp"
    using pane_path_parts(1) [OF assms] by blast
  then show thesis using that [of "if full then root else Cell d cs"] by auto
qed

lemma split_parent_one_more:
  assumes "split_in_parent type sizes before wp i e (Cell d cs) = Some c'" "good (Cell d cs)" "i < length cs" "lc_type d = type"
    "direction type" "layout_panes (cs ! i) = [Some wp]"
    "fst sizes + 1 + (snd sizes + 1) = (if type = LAYOUT_LEFTRIGHT then lc_sx (lc_data (cs ! i)) else lc_sy (lc_data (cs ! i))) + 1"
  shows "same_frame (Cell d cs) c' \<and> one_more (Cell d cs) c'"
proof -
  have d: "lc_type d \<noteq> LAYOUT_WINDOWPANE" using assms(4,5) by auto
  have panes: "layout_panes (Cell d cs) = concat (map layout_panes (take i cs)) @ [Some wp] @ concat (map layout_panes (drop (Suc i) cs))"
    using d concat_split [OF assms(3), of layout_panes] assms(6) by auto
  note f = split_in_parent_frame [OF assms(1-5,7)]
  have "one_more (Cell d cs) c'"
    unfolding one_more_def panes
    using f by (intro exI [of _ "concat (map layout_panes (take i cs)) @ (if before then [] else [Some wp])"]
        exI [of _ "(if before then [Some wp] else []) @ concat (map layout_panes (drop (Suc i) cs))"]) auto
  with f show ?thesis by simp
qed


end
