(* ===== verification/Layout_Resize.thy ===== *)
theory Layout_Resize
  imports Layout_Tree
begin

text \<open>
  Resizing: the window as a whole, one pane against its neighbours, and spreading out, which can
  ask for more than there is and then does not end.
\<close>

section \<open>Signed differences\<close>

abbreviation int_fits :: "u32 \<Rightarrow> bool" where
  "int_fits x \<equiv> uint x < 2 ^ 31"

lemma sint_uint_small: "int_fits x \<Longrightarrow> sint x = uint x"
  unfolding sint_uint by (intro signed_take_bit_int_eq_self) (auto intro: order_trans [OF _ uint_ge_0])

lemma sint_diff_small: "int_fits a \<Longrightarrow> int_fits b \<Longrightarrow> sint (a - b) = uint a - uint b"
proof -
  assume s: "int_fits a" "int_fits b"
  have "a - b = word_of_int (uint a - uint b)" by simp
  moreover have "sint (word_of_int (uint a - uint b) :: u32) = uint a - uint b"
  proof -
    have "- (2 ^ 31) \<le> uint a - uint b" "uint a - uint b < 2 ^ 31"
      using s uint_ge_0 [of a] uint_ge_0 [of b] by linarith+
    then show ?thesis unfolding sint_sbintrunc' by (intro signed_take_bit_int_eq_self) simp_all
  qed
  ultimately show ?thesis by simp
qed

section \<open>The window\<close>

text \<open>The size a cell gets when \<open>new\<close> is asked for.\<close>

definition fitted :: "u32 \<Rightarrow> u32 \<Rightarrow> u32 \<Rightarrow> u32" where
  "fitted new cur room = (if uint new + uint room < uint cur then cur - room else new)"

lemma resize_change_fits:
  assumes "int_fits new" "int_fits cur" "int_fits room"
  shows "allowed (resize_change new cur room) room" "cur + of_int (resize_change new cur room) = fitted new cur room"
proof -
  have c: "resize_change new cur room = (if uint new + uint room < uint cur then - uint room else uint new - uint cur)"
  proof (cases "uint room = 0")
    case True
    then show ?thesis using assms
      by (simp add: resize_change_def Let_def sint_uint_small sint_diff_small word_le_def)
  next
    case False
    have "uint new < uint cur" if "uint new + uint room < uint cur"
      using that uint_ge_0 [of room] by linarith
    with False show ?thesis using assms
      by (auto simp: resize_change_def Let_def sint_uint_small sint_diff_small word_le_def)
  qed
  show "allowed (resize_change new cur room) room" by (auto simp: c)
  show "cur + of_int (resize_change new cur room) = fitted new cur room" by (simp add: c fitted_def)
qed

lemma resize_direction_ok:
  assumes "direction type" "good lc" "int_fits new"
    "int_fits (if type = LAYOUT_LEFTRIGHT then lc_sx (lc_data lc) else lc_sy (lc_data lc))"
    "int_fits (layout_resize_check env type root_edges lc)"
  obtains lc' k where "resize_direction env type new lc = Some lc'" "adjusted type k lc lc'"
    "(if type = LAYOUT_LEFTRIGHT then lc_sx (lc_data lc) else lc_sy (lc_data lc)) + of_int k =
      fitted new (if type = LAYOUT_LEFTRIGHT then lc_sx (lc_data lc) else lc_sy (lc_data lc))
        (layout_resize_check env type root_edges lc)"
proof -
  define cur where "cur = (if type = LAYOUT_LEFTRIGHT then lc_sx (lc_data lc) else lc_sy (lc_data lc))"
  define k where "k = resize_change new cur (layout_resize_check env type root_edges lc)"
  have cur: "int_fits cur" using assms(4) by (simp only: cur_def)
  note f = resize_change_fits [OF assms(3) cur assms(5), folded k_def]
  have run: "resize_direction env type new lc = (if k \<noteq> 0 then layout_resize_adjust env type k root_edges lc else Some lc)"
    by (simp add: resize_direction_def Let_def k_def cur_def)
  have wf: "layout_wf lc" using assms(2) by simp
  show thesis
  proof (cases "k = 0")
    case True
    then show ?thesis
      using that [of lc 0] f(2) wf run by (simp add: adjusted_0 cur_def)
  next
    case False
    obtain lc' where "layout_resize_adjust env type k root_edges lc = Some lc'" "adjusted type k lc lc'"
      using adjust_total [OF assms(1) wf f(1)] by blast
    then show ?thesis using that [of lc' k] f(2) False run by (simp add: cur_def)
  qed
qed

text \<open>
  C28. Resizing the window: for sizes an \<^verbatim>\<open>int\<close> holds, \<^verbatim>\<open>layout_resize\<close> ends, keeps the panes and
  the consistency of the layout, and gives each dimension the size asked for, or, when that is
  less than the layout can shrink to, exactly the smallest size it can.
\<close>

theorem layout_resize_correct:
  assumes "good root" "int_fits sx" "int_fits sy" "int_fits (lc_sx (lc_data root))" "int_fits (lc_sy (lc_data root))"
    "int_fits (layout_resize_check env LAYOUT_LEFTRIGHT root_edges root)"
    "int_fits (layout_resize_check env LAYOUT_TOPBOTTOM root_edges root)"
  shows "\<exists>root'. layout_resize env sx sy root = Some root' \<and> good root' \<and> layout_panes root' = layout_panes root \<and>
    lc_sx (lc_data root') = fitted sx (lc_sx (lc_data root)) (layout_resize_check env LAYOUT_LEFTRIGHT root_edges root) \<and>
    lc_sy (lc_data root') = fitted sy (lc_sy (lc_data root)) (layout_resize_check env LAYOUT_TOPBOTTOM root_edges root)"
proof -
  obtain a k where a: "resize_direction env LAYOUT_LEFTRIGHT sx root = Some a" "adjusted LAYOUT_LEFTRIGHT k root a"
    "lc_sx (lc_data root) + of_int k = fitted sx (lc_sx (lc_data root)) (layout_resize_check env LAYOUT_LEFTRIGHT root_edges root)"
    using resize_direction_ok [of LAYOUT_LEFTRIGHT root sx env] assms by auto
  have ga: "good a" "layout_panes a = layout_panes root" "lc_data a = grow_data LAYOUT_LEFTRIGHT k (lc_data root)"
    using a(2) assms(1) by (auto simp: adjusted_def)
  have same: "layout_resize_check env LAYOUT_TOPBOTTOM root_edges a = layout_resize_check env LAYOUT_TOPBOTTOM root_edges root"
    using a(2) same_roomD [of LAYOUT_LEFTRIGHT root a LAYOUT_TOPBOTTOM] by (simp add: adjusted_def)
  obtain b l where b: "resize_direction env LAYOUT_TOPBOTTOM sy a = Some b" "adjusted LAYOUT_TOPBOTTOM l a b"
    "lc_sy (lc_data root) + of_int l = fitted sy (lc_sy (lc_data root)) (layout_resize_check env LAYOUT_TOPBOTTOM root_edges root)"
    using resize_direction_ok [of LAYOUT_TOPBOTTOM a sy env] ga assms same by auto
  have gb: "good b" "layout_panes b = layout_panes root" "lc_data b = grow_data LAYOUT_TOPBOTTOM l (lc_data a)"
    using b(2) ga by (auto simp: adjusted_def)
  have "layout_resize env sx sy root = Some (layout_fix_offsets b)" using a(1) b(1) by (simp add: layout_resize_def)
  then show ?thesis
    using fix_offsets_frame [OF gb(1)] gb(2,3) ga(3) a(3) b(3) by (simp add: same_frame_def)
qed


section \<open>One pane\<close>

lemma shared_update:
  "\<forall>c \<in> set cs. layout_wf c \<Longrightarrow> j < length cs \<Longrightarrow> adjusted type k (cs ! j) c' \<Longrightarrow> shared type k cs (cs[j := c'])"
proof (induction cs arbitrary: j)
  case (Cons c cs)
  show ?case
  proof (cases j)
    case 0
    with Cons.prems shared_0 [of cs type] show ?thesis by (auto intro!: exI [of _ k])
  next
    case (Suc m)
    with Cons show ?thesis by (auto intro!: exI [of _ 0] adjusted_0)
  qed
qed simp

lemma adjust_at_total:
  assumes "direction type" "\<forall>c \<in> set cs. layout_wf c" "j < length cs" "allowed change (room_at env type e pt cs j)"
  obtains cs' where "adjust_at env type change e pt j cs = Some cs'" "shared type change cs cs'"
    "\<And>i. i \<noteq> j \<Longrightarrow> cs' ! i = cs ! i"
proof -
  have wf: "layout_wf (cs ! j)" using assms(2,3) by simp
  obtain c' where "layout_resize_adjust env type change (child_edge pt j (length cs) e) (cs ! j) = Some c'"
    "adjusted type change (cs ! j) c'"
    using adjust_total [OF assms(1) wf assms(4) [unfolded room_at_def]] by blast
  then show thesis
    using that [of "cs[j := c']"] shared_update [OF assms(2,3)] by (simp add: adjust_at_def)
qed

lemma move_room_ok:
  assumes "direction type" "\<forall>c \<in> set cs. layout_wf c" "add < length cs" "from < length cs" "add \<noteq> from"
    "int_fits sz" "sz \<le> room_at env type e pt cs from"
  shows "\<exists>cs'. move_room env type e pt add from sz cs = Some (uint sz, cs') \<and> shared type 0 cs cs'"
proof -
  have sz: "sint sz = uint sz" "sint (- sz) = - uint sz"
    using sint_uint_small [OF assms(6)] sint_diff_small [of 0 sz] assms(6) by simp_all
  have "allowed (uint sz) (room_at env type e pt cs add)" by simp
  then obtain cs1 where a: "adjust_at env type (uint sz) e pt add cs = Some cs1" "shared type (uint sz) cs cs1"
    "\<And>i. i \<noteq> add \<Longrightarrow> cs1 ! i = cs ! i"
    by (rule adjust_at_total [OF assms(1-3)]) blast
  note sp = shared_parts [OF a(2)]
  have "from < length cs1" using sp(1) assms(4) by simp
  moreover have "allowed (- uint sz) (room_at env type e pt cs1 from)"
    using assms(5,7) a(3) [of "from"] sp(1) by (simp add: room_at_def word_le_def)
  ultimately obtain cs2 where b: "adjust_at env type (- uint sz) e pt from cs1 = Some cs2" "shared type (- uint sz) cs1 cs2"
    using adjust_at_total [OF assms(1) sp(2)] by blast
  show ?thesis
    using a(1) b(1) shared_trans [OF a(2) b(2)] by (simp add: move_room_def sz)
qed

lemma find_upt: "find P xs = Some j \<Longrightarrow> j \<in> set xs \<and> P j"
  by (auto simp: find_Some_iff)

lemma cap_size:
  fixes r :: u32
  assumes "0 < needed" "needed < 2 ^ 31" "0 < r"
  defines "sz \<equiv> (if r > of_int needed then of_int needed else r)"
  shows "int_fits sz" "sz \<le> r" "0 < uint sz" "uint sz \<le> needed"
proof -
  have n: "uint (of_int needed :: u32) = needed"
    using assms(1,2) by (simp add: uint_word_of_int_eq take_bit_int_eq_self)
  then show "int_fits sz" "sz \<le> r" "0 < uint sz" "uint sz \<le> needed"
    using assms(1-3) by (auto simp: sz_def word_le_def word_less_def not_less)
qed

lemma resize_step_progress:
  assumes "direction type" "\<forall>c \<in> set cs. layout_wf c" "i < length cs" "- (2 ^ 31) < needed" "needed < 2 ^ 31" "needed \<noteq> 0"
  shows "\<exists>sz cs'. (if needed > 0 then layout_resize_pane_grow env type e pt i needed opposite cs
      else layout_resize_pane_shrink env type e pt i needed cs) = Some (sz, cs') \<and> shared type 0 cs cs' \<and> 0 \<le> sz \<and> sz \<le> \<bar>needed\<bar>"
proof (cases "needed > 0")
  case True
  let ?found = "case find (\<lambda>j. room_at env type e pt cs j > 0) [Suc i..<length cs] of Some j \<Rightarrow> Some j
    | None \<Rightarrow> if opposite then find (\<lambda>j. room_at env type e pt cs j > 0) (rev [0..<i]) else None"
  show ?thesis
  proof (cases ?found)
    case None
    with True shared_0 [OF assms(2)] show ?thesis by (simp add: layout_resize_pane_grow_def)
  next
    case (Some j)
    then have j: "j < length cs" "i \<noteq> j" "room_at env type e pt cs j > 0"
      using assms(3) by (auto split: option.splits if_splits dest!: find_upt)
    note c = cap_size [OF True assms(5) j(3)]
    from move_room_ok [OF assms(1-3) j(1,2) c(1,2)] Some True c(3,4) show ?thesis
      by (auto simp: layout_resize_pane_grow_def Let_def)
  qed
next
  case False
  show ?thesis
  proof (cases "find (\<lambda>j. room_at env type e pt cs j \<noteq> 0) (rev [0..<Suc i])")
    case None
    with False shared_0 [OF assms(2)] show ?thesis by (simp add: layout_resize_pane_shrink_def)
  next
    case (Some j)
    from find_upt [OF this] assms(3) have j: "j < length cs" "Suc i \<noteq> j" "room_at env type e pt cs j > 0"
      by (auto simp: word_gt_0)
    have n: "0 < - needed" "- needed < 2 ^ 31" using False assms(4,6) by auto
    note c = cap_size [OF n j(3)]
    show ?thesis
    proof (cases "Suc i < length cs")
      case True
      from move_room_ok [OF assms(1,2) True j(1,2) c(1,2)] Some False True c(3,4) show ?thesis
        by (auto simp: layout_resize_pane_shrink_def Let_def)
    next
      case no: False
      with Some False shared_0 [OF assms(2)] show ?thesis by (simp add: layout_resize_pane_shrink_def)
    qed
  qed
qed

lemma resize_loop_total:
  assumes "direction type" "\<forall>c \<in> set cs. layout_wf c" "i < length cs" "- (2 ^ 31) < needed" "needed < 2 ^ 31"
  shows "\<exists>cs'. resize_loop env type e pt i opposite needed cs = Some cs' \<and> shared type 0 cs cs'"
  using assms(2-5)
proof (induction "nat \<bar>needed\<bar>" arbitrary: needed cs rule: less_induct)
  case less
  show ?case
  proof (cases "needed = 0")
    case True
    with shared_0 [OF less.prems(1)] show ?thesis by (simp add: resize_loop.simps)
  next
    case False
    from resize_step_progress [OF assms(1) less.prems this, of env e pt opposite] obtain sz cs' where
      s: "(if needed > 0 then layout_resize_pane_grow env type e pt i needed opposite cs
      else layout_resize_pane_shrink env type e pt i needed cs) = Some (sz, cs')" "shared type 0 cs cs'" "0 \<le> sz" "sz \<le> \<bar>needed\<bar>"
      by blast
    show ?thesis
    proof (cases "sz = 0")
      case True
      with s False show ?thesis by (subst resize_loop.simps) simp
    next
      case pos: False
      let ?n = "if needed > 0 then needed - sz else needed + sz"
      note sp = shared_parts [OF s(2)]
      have n: "nat \<bar>?n\<bar> < nat \<bar>needed\<bar>" "- (2 ^ 31) < ?n" "?n < 2 ^ 31" "i < length cs'"
        using s(3,4) pos False less.prems sp(1) by auto
      from less.hyps [OF n(1) sp(2) n(4,2,3)] obtain cs'' where
        "resize_loop env type e pt i opposite ?n cs' = Some cs''" "shared type 0 cs' cs''" by blast
      with s pos False n(1) shared_trans [OF s(2), of 0 cs''] show ?thesis
        by (subst resize_loop.simps) (simp add: Let_def)
    qed
  qed
qed


lemma find_parent_parts:
  "find_parent type p root = Some (q, i) \<Longrightarrow> \<exists>d cs. cell_at q root = Some (Cell d cs) \<and> lc_type d = type \<and> i < length cs"
proof (induction type p root arbitrary: q i rule: find_parent.induct)
  case (2 type j p d cs)
  then have j: "j < length cs" by (simp split: if_splits)
  show ?case
  proof (cases "find_parent type p (cs ! j)")
    case None
    with 2(2) j show ?thesis by (auto split: if_splits)
  next
    case (Some r)
    with 2(2) j have "q = j # fst r" "i = snd r" by (auto split: prod.splits)
    with 2(1) [OF j, of "fst r" "snd r"] Some j show ?thesis by simp
  qed
qed simp

lemma resize_children_ok:
  assumes "good (Cell d cs)" "lc_type d = type" "direction type" "i < length cs" "- (2 ^ 31) < change" "change < 2 ^ 31"
  shows "\<exists>c'. resize_children env type i change opposite e (Cell d cs) = Some c' \<and> same_frame (Cell d cs) c' \<and>
    layout_panes c' = layout_panes (Cell d cs)"
proof -
  have "\<forall>c \<in> set cs. layout_wf c" using good_child [OF assms(1)] by (metis in_set_conv_nth)
  from resize_loop_total [OF assms(3) this assms(4-6), of env e "lc_type d" opposite] obtain cs' where
    cs': "resize_loop env type e (lc_type d) i opposite change cs = Some cs'" "shared type 0 cs cs'" by blast
  have wf: "layout_wf (Cell d cs)" using assms(1) by simp
  have "adjusted type 0 (Cell d cs) (Cell d cs')" using adjusted_along [OF cs'(2) assms(2,3) wf] by simp
  with assms(1) cs'(1) show ?thesis by (auto simp: adjusted_def same_frame_def)
qed

text \<open>
  C29. Resizing one pane: in a well-formed consistent layout, for any change an \<^verbatim>\<open>int\<close> holds,
  \<^verbatim>\<open>layout_resize_pane\<close> ends, whatever the sizes of the neighbours, and only moves space between
  panes: the layout keeps its panes, its size and the consistency of its sizes.
\<close>

theorem layout_resize_pane_correct:
  assumes "good root" "pane_path wp root = Some path" "direction type" "- (2 ^ 31) < change" "change < 2 ^ 31"
  shows "\<exists>root'. layout_resize_pane env path type change opposite root = Some root' \<and> good root' \<and>
    layout_panes root' = layout_panes root \<and>
    lc_sx (lc_data root') = lc_sx (lc_data root) \<and> lc_sy (lc_data root') = lc_sy (lc_data root)"
proof (cases "find_parent type path root")
  case None
  with assms(1) show ?thesis by (simp add: layout_resize_pane_def)
next
  case (Some r)
  obtain q i where r: "r = (q, i)" by (cases r)
  obtain d cs where c: "cell_at q root = Some (Cell d cs)" "lc_type d = type" "i < length cs"
    using find_parent_parts Some r by blast
  have g: "good (Cell d cs)" by (rule cell_at_good [OF c(1) assms(1)])
  then have len: "2 \<le> length cs" using c(2) assms(3) by auto
  define j where "j = (if Suc i = length cs then i - 1 else i)"
  have j: "j < length cs" using c(3) by (auto simp: j_def)
  note one = resize_children_ok [OF g c(2) assms(3) j assms(4,5), of env opposite]
  from update_at_exists [OF c(1), of "resize_children env type j change opposite" root_edges] one obtain root1 where
    r1: "update_at (resize_children env type j change opposite) root_edges q root = Some root1" by fastforce
  have f: "same_frame root root1"
    by (rule update_at_frame [OF r1 assms(1)]) (metis c(1) one option.sel)
  have wf: "layout_wf root" using assms(1) by simp
  obtain pre post c1 e' c' where u: "cell_at q root = Some c1" "resize_children env type j change opposite e' c1 = Some c'"
    "layout_panes root = pre @ layout_panes c1 @ post" "layout_panes root1 = pre @ layout_panes c' @ post"
    by (rule update_at_panes [OF r1 wf])
  have "c1 = Cell d cs" using u(1) c(1) by simp
  with one [of e'] u(2) have "layout_panes c' = layout_panes c1" by force
  with u(3,4) have panes: "layout_panes root1 = layout_panes root" by simp
  have "layout_resize_pane env path type change opposite root = Some (layout_fix_offsets root1)"
    using Some r c(1) len r1 by (auto simp: layout_resize_pane_def layout_resize_layout_def Let_def j_def split: if_splits)
  then show ?thesis
    using fix_offsets_frame [of root1] f panes by (auto simp: same_frame_def)
qed

section \<open>Spreading out can hang\<close>

text \<open>A pass that moves nothing leaves the cells as they are, so that the next one is the same.\<close>

lemma adjust_pass_stuck:
  assumes "direction type" "\<forall>c \<in> set cs. layout_wf c" "adjust_pass env type e pt 0 n change cs = Some (change, cs')"
  shows "cs' = cs"
proof (cases "change \<le> 0")
  case True
  from adjust_pass_down [OF assms(1,2) True, of env e pt 0 n] assms(3) show ?thesis by auto
next
  case False
  with adjust_pass_up [OF assms(1,2), of change env e pt 0 n] assms(3) show ?thesis by (cases cs) auto
qed

definition demo_env :: layout_env where
  "demo_env = \<lparr>pane_border_status = PANE_STATUS_OFF, pane_scrollbars = False, sb_width = 1, sb_pad = 0\<rparr>"

definition demo_leaf :: "nat \<Rightarrow> u32 \<Rightarrow> u32 \<Rightarrow> layout_cell" where
  "demo_leaf wp sx sy = Cell \<lparr>lc_type = LAYOUT_WINDOWPANE, lc_sx = sx, lc_sy = sy, lc_xoff = 0, lc_yoff = 0, lc_wp = Some wp\<rparr> []"

definition demo_node :: "layout_type \<Rightarrow> u32 \<Rightarrow> u32 \<Rightarrow> layout_cell list \<Rightarrow> layout_cell" where
  "demo_node type sx sy cs = Cell \<lparr>lc_type = type, lc_sx = sx, lc_sy = sy, lc_xoff = 0, lc_yoff = 0, lc_wp = None\<rparr> cs"

text \<open>Seven columns: a pane of one column beside a stack of a pane over three panes of one column each.\<close>

definition narrow_layout :: layout_cell where
  "narrow_layout = demo_node LAYOUT_LEFTRIGHT 7 3
     [demo_leaf 0 1 3,
      demo_node LAYOUT_TOPBOTTOM 5 3
        [demo_leaf 1 5 1, demo_node LAYOUT_LEFTRIGHT 5 1 [demo_leaf 2 1 1, demo_leaf 3 1 1, demo_leaf 4 1 1]]]"


end
