(* ===== verification/Layout_Tiling.thy ===== *)
theory Layout_Tiling
  imports Layout_Resize
begin

text \<open>
  The geometry of a layout: once the offsets are fixed, the panes of a consistent layout lie
  within the window and any two of them have a separator between them.
\<close>

type_synonym rect = "nat \<times> nat \<times> nat \<times> nat"

definition cell_rect :: "lcell \<Rightarrow> rect" where
  "cell_rect d = (unat (lc_xoff d), unat (lc_yoff d), unat (lc_sx d), unat (lc_sy d))"

fun pane_rects :: "layout_cell \<Rightarrow> rect list" where
  "pane_rects (Cell d cs) = (if lc_type d = LAYOUT_WINDOWPANE then [cell_rect d] else concat (map pane_rects cs))"

fun within :: "rect \<Rightarrow> rect \<Rightarrow> bool" where
  "within (x, y, w, h) (x', y', w', h') \<longleftrightarrow> x' \<le> x \<and> x + w \<le> x' + w' \<and> y' \<le> y \<and> y + h \<le> y' + h'"

text \<open>At least one separator column or line lies between the two.\<close>

fun apart :: "rect \<Rightarrow> rect \<Rightarrow> bool" where
  "apart (x, y, w, h) (x', y', w', h') \<longleftrightarrow> x + w < x' \<or> x' + w' < x \<or> y + h < y' \<or> y' + h' < y"

lemma within_trans: "within a b \<Longrightarrow> within b c \<Longrightarrow> within a c"
  by (cases a; cases b; cases c) auto

text \<open>Sizes up to \<^verbatim>\<open>WINDOW_MAXIMUM\<close>.\<close>

fun layout_bounded :: "layout_cell \<Rightarrow> bool" where
  "layout_bounded (Cell d cs) \<longleftrightarrow> unat (lc_sx d) \<le> 10000 \<and> unat (lc_sy d) \<le> 10000 \<and> length cs \<le> 10001 \<and>
     (\<forall>c \<in> set cs. layout_bounded c)"

lemma sizes_sum:
  fixes f :: "layout_cell \<Rightarrow> u32"
  assumes "\<forall>c \<in> set cs. unat (f c) \<le> 10000" "length cs \<le> 10001" "sum_list (map (\<lambda>c. f c + 1) cs) - 1 = s"
    "unat s \<le> 10000"
  shows "sum_list (map (\<lambda>c. unat (f c) + 1) cs) = unat s + 1"
proof -
  have le: "sum_list (map (\<lambda>c. unat (f c) + 1) cs) \<le> length cs * 10001"
    using assms(1) by (induction cs) auto
  have "sum_list (map (\<lambda>c. f c + 1) cs) = of_nat (sum_list (map (\<lambda>c. unat (f c) + 1) cs))"
    by (induction cs) simp_all
  moreover have "sum_list (map (\<lambda>c. f c + 1) cs) = s + 1" using assms(3) by (simp add: diff_eq_eq)
  ultimately have "unat (s + 1) = unat (of_nat (sum_list (map (\<lambda>c. unat (f c) + 1) cs)) :: u32)" by simp
  moreover have "unat (s + 1) = unat s + 1" using assms(4) by (simp add: unat_word_ariths)
  ultimately show ?thesis using le assms(2) by (simp add: unat_of_nat)
qed

definition tiles :: "layout_cell \<Rightarrow> bool" where
  "tiles c \<longleftrightarrow> (\<forall>x y. good c \<longrightarrow> layout_bounded c \<longrightarrow> unat x + unat (lc_sx (lc_data c)) < 2 ^ 32 \<longrightarrow>
     unat y + unat (lc_sy (lc_data c)) < 2 ^ 32 \<longrightarrow>
     (\<forall>r \<in> set (pane_rects (fix_child x y c)). within r (unat x, unat y, unat (lc_sx (lc_data c)), unat (lc_sy (lc_data c)))) \<and>
     sorted_wrt apart (pane_rects (fix_child x y c)))"

lemma tiles_leftright:
  assumes "\<forall>c \<in> set cs. tiles c \<and> good c \<and> layout_bounded c \<and> lc_sy (lc_data c) = h"
    "unat x + sum_list (map (\<lambda>c. unat (lc_sx (lc_data c)) + 1) cs) \<le> 2 ^ 32" "unat y + unat h < 2 ^ 32"
  shows "(\<forall>r \<in> set (concat (map pane_rects (fix_leftright x y cs))). within r (unat x, unat y, sum_list (map (\<lambda>c. unat (lc_sx (lc_data c)) + 1) cs) - 1, unat h)) \<and>
    sorted_wrt apart (concat (map pane_rects (fix_leftright x y cs)))"
  using assms
proof (induction cs arbitrary: x)
  case (Cons c cs)
  let ?w = "unat (lc_sx (lc_data c))" and ?S = "sum_list (map (\<lambda>c. unat (lc_sx (lc_data c)) + 1) cs)"
  have c: "tiles c" "good c" "layout_bounded c" "lc_sy (lc_data c) = h" using Cons.prems(1) by simp_all
  have bx: "unat x + ?w < 2 ^ 32" using Cons.prems(2) by simp
  have first: "\<forall>r \<in> set (pane_rects (fix_child x y c)). within r (unat x, unat y, unat (lc_sx (lc_data c)), unat h)"
    "sorted_wrt apart (pane_rects (fix_child x y c))"
    using c bx Cons.prems(3) unfolding tiles_def by (metis c(4))+
  show ?case
  proof (cases "cs = []")
    case True
    with first show ?thesis by simp
  next
    case False
    then have S: "1 \<le> ?S" by (cases cs) auto
    have x': "unat (x + (lc_sx (lc_data c) + 1)) = unat x + ?w + 1"
      using Cons.prems(2) S by (simp add: unat_word_ariths)
    have rest: "\<forall>c \<in> set cs. tiles c \<and> good c \<and> layout_bounded c \<and> lc_sy (lc_data c) = h"
      "unat (x + (lc_sx (lc_data c) + 1)) + ?S \<le> 2 ^ 32"
      using Cons.prems(1,2) x' by simp_all
    note IH = Cons.IH [OF rest Cons.prems(3), unfolded x']
    have ap: "apart a b" if "within a (unat x, unat y, unat (lc_sx (lc_data c)), unat h)" "within b (unat x + ?w + 1, unat y, ?S - 1, unat h)" for a b
      using that by (cases a; cases b) auto
    have mono: "within r (unat x, unat y, sum_list (map (\<lambda>c. unat (lc_sx (lc_data c)) + 1) (c # cs)) - 1, unat h)" if "within r (unat x + ?w + 1, unat y, ?S - 1, unat h)" for r
      using that S by (cases r) auto
    have mono1: "within r (unat x, unat y, sum_list (map (\<lambda>c. unat (lc_sx (lc_data c)) + 1) (c # cs)) - 1, unat h)" if "within r (unat x, unat y, unat (lc_sx (lc_data c)), unat h)" for r
      using that S by (cases r) auto
    show ?thesis
      using first IH ap mono mono1 by (auto simp: sorted_wrt_append simp del: within.simps apart.simps)
  qed
qed simp

lemma tiles_topbottom:
  assumes "\<forall>c \<in> set cs. tiles c \<and> good c \<and> layout_bounded c \<and> lc_sx (lc_data c) = w"
    "unat y + sum_list (map (\<lambda>c. unat (lc_sy (lc_data c)) + 1) cs) \<le> 2 ^ 32" "unat x + unat w < 2 ^ 32"
  shows "(\<forall>r \<in> set (concat (map pane_rects (fix_topbottom x y cs))). within r (unat x, unat y, unat w, sum_list (map (\<lambda>c. unat (lc_sy (lc_data c)) + 1) cs) - 1)) \<and>
    sorted_wrt apart (concat (map pane_rects (fix_topbottom x y cs)))"
  using assms
proof (induction cs arbitrary: y)
  case (Cons c cs)
  let ?w = "unat (lc_sy (lc_data c))" and ?S = "sum_list (map (\<lambda>c. unat (lc_sy (lc_data c)) + 1) cs)"
  have c: "tiles c" "good c" "layout_bounded c" "lc_sx (lc_data c) = w" using Cons.prems(1) by simp_all
  have bx: "unat y + ?w < 2 ^ 32" using Cons.prems(2) by simp
  have first: "\<forall>r \<in> set (pane_rects (fix_child x y c)). within r (unat x, unat y, unat w, unat (lc_sy (lc_data c)))"
    "sorted_wrt apart (pane_rects (fix_child x y c))"
    using c bx Cons.prems(3) unfolding tiles_def by (metis c(4))+
  show ?case
  proof (cases "cs = []")
    case True
    with first show ?thesis by simp
  next
    case False
    then have S: "1 \<le> ?S" by (cases cs) auto
    have x': "unat (y + (lc_sy (lc_data c) + 1)) = unat y + ?w + 1"
      using Cons.prems(2) S by (simp add: unat_word_ariths)
    have rest: "\<forall>c \<in> set cs. tiles c \<and> good c \<and> layout_bounded c \<and> lc_sx (lc_data c) = w"
      "unat (y + (lc_sy (lc_data c) + 1)) + ?S \<le> 2 ^ 32"
      using Cons.prems(1,2) x' by simp_all
    note IH = Cons.IH [OF rest Cons.prems(3), unfolded x']
    have ap: "apart a b" if "within a (unat x, unat y, unat w, unat (lc_sy (lc_data c)))" "within b (unat x, unat y + ?w + 1, unat w, ?S - 1)" for a b
      using that by (cases a; cases b) auto
    have mono: "within r (unat x, unat y, unat w, sum_list (map (\<lambda>c. unat (lc_sy (lc_data c)) + 1) (c # cs)) - 1)" if "within r (unat x, unat y + ?w + 1, unat w, ?S - 1)" for r
      using that S by (cases r) auto
    have mono1: "within r (unat x, unat y, unat w, sum_list (map (\<lambda>c. unat (lc_sy (lc_data c)) + 1) (c # cs)) - 1)" if "within r (unat x, unat y, unat w, unat (lc_sy (lc_data c)))" for r
      using that S by (cases r) auto
    show ?thesis
      using first IH ap mono mono1 by (auto simp: sorted_wrt_append simp del: within.simps apart.simps)
  qed
qed simp


lemma tiles_all: "tiles c"
proof (induction c)
  case (Cell d cs)
  show ?case
    unfolding tiles_def
  proof (intro allI impI)
    fix x y :: u32
    assume g: "good (Cell d cs)" and b: "layout_bounded (Cell d cs)"
      and x: "unat x + unat (lc_sx (lc_data (Cell d cs))) < 2 ^ 32" and y: "unat y + unat (lc_sy (lc_data (Cell d cs))) < 2 ^ 32"
    have cs: "\<forall>c \<in> set cs. tiles c \<and> good c \<and> layout_bounded c"
      using Cell.IH b good_child [OF g] by (metis in_set_conv_nth layout_bounded.simps)
    have bs: "\<forall>c \<in> set cs. unat (lc_sx (lc_data c)) \<le> 10000" "\<forall>c \<in> set cs. unat (lc_sy (lc_data c)) \<le> 10000"
      using cs by (metis layout_bounded.elims(2) layout_cell.sel(1))+
    have ln: "length cs \<le> 10001" "unat (lc_sx d) \<le> 10000" "unat (lc_sy d) \<le> 10000" using b by simp_all
    show "(\<forall>r \<in> set (pane_rects (fix_child x y (Cell d cs))). within r (unat x, unat y,
          unat (lc_sx (lc_data (Cell d cs))), unat (lc_sy (lc_data (Cell d cs))))) \<and>
        sorted_wrt apart (pane_rects (fix_child x y (Cell d cs)))"
    proof (cases "lc_type d = LAYOUT_WINDOWPANE")
      case True
      then show ?thesis by (simp add: Let_def cell_rect_def)
    next
      case False
      from good_node [OF g False] show ?thesis
      proof
        assume lr: "lc_type d = LAYOUT_LEFTRIGHT"
        then have c: "\<forall>c \<in> set cs. tiles c \<and> good c \<and> layout_bounded c \<and> lc_sy (lc_data c) = lc_sy d"
          "sum_list (map (\<lambda>c. unat (lc_sx (lc_data c)) + 1) cs) = unat (lc_sx d) + 1"
          using cs g sizes_sum [OF bs(1) ln(1) _ ln(2)] by simp_all
        from tiles_leftright [OF c(1), of x y] c(2) x y lr show ?thesis by (simp add: Let_def)
      next
        assume tb: "lc_type d = LAYOUT_TOPBOTTOM"
        then have c: "\<forall>c \<in> set cs. tiles c \<and> good c \<and> layout_bounded c \<and> lc_sx (lc_data c) = lc_sx d"
          "sum_list (map (\<lambda>c. unat (lc_sy (lc_data c)) + 1) cs) = unat (lc_sy d) + 1"
          using cs g sizes_sum [OF bs(2) ln(1) _ ln(3)] by simp_all
        from tiles_topbottom [OF c(1), of y x] c(2) x y tb show ?thesis by (simp add: Let_def)
      qed
    qed
  qed
qed

lemma fix_offsets_child: "layout_wf root \<Longrightarrow> layout_fix_offsets root = fix_child 0 0 root"
  by (cases root) (auto simp: layout_fix_offsets_def Let_def)

text \<open>
  C25. Panes never overlap: in a consistent layout of cells up to \<^verbatim>\<open>WINDOW_MAXIMUM\<close>, once
  \<^verbatim>\<open>layout_fix_offsets\<close> has run, every pane lies within the window and between any two panes
  there is at least one column or line for the border.
\<close>

theorem layout_panes_apart:
  assumes "good root" "layout_bounded root"
  shows "(\<forall>r \<in> set (pane_rects (layout_fix_offsets root)).
      within r (0, 0, unat (lc_sx (lc_data root)), unat (lc_sy (lc_data root)))) \<and>
    sorted_wrt apart (pane_rects (layout_fix_offsets root))"
proof -
  have wf: "layout_wf root" using assms(1) by simp
  have "unat (lc_sx (lc_data root)) \<le> 10000" "unat (lc_sy (lc_data root)) \<le> 10000"
    using assms(2) by (metis layout_bounded.elims(2) layout_cell.sel(1))+
  then have "unat (0 :: u32) + unat (lc_sx (lc_data root)) < 2 ^ 32" "unat (0 :: u32) + unat (lc_sy (lc_data root)) < 2 ^ 32"
    by simp_all
  with tiles_all [of root] assms show ?thesis
    unfolding tiles_def fix_offsets_child [OF wf] by (metis unat_0)
qed

end
