(* ===== verification/Layout_Examples.thy ===== *)
theory Layout_Examples
  imports Layout_Tiling
begin

text \<open>
  The layout claims on a concrete layout of five panes: their hypotheses hold there and the
  operations run.
\<close>

lemma narrow_facts:
  "good narrow_layout" "small_tree narrow_layout" "distinct (layout_panes narrow_layout)"
  "layout_panes narrow_layout = [Some 0, Some 1, Some 2, Some 3, Some 4]"
  "lc_sx (lc_data narrow_layout) = 7" "lc_sy (lc_data narrow_layout) = 3"
  "pane_path 1 narrow_layout = Some [1, 0]" "layout_bounded narrow_layout"
  "layout_resize_check demo_env LAYOUT_LEFTRIGHT root_edges narrow_layout = 0"
  "layout_resize_check demo_env LAYOUT_TOPBOTTOM root_edges narrow_layout = 0"
  subgoal by code_simp
  subgoal by code_simp
  subgoal by code_simp
  subgoal by code_simp
  subgoal by code_simp
  subgoal by code_simp
  subgoal by code_simp
  subgoal by (simp add: narrow_layout_def demo_node_def demo_leaf_def)
  subgoal by code_simp
  subgoal by code_simp
  done

theorem layout_close_pane_correct_witness:
  "\<exists>root'. layout_close_pane demo_env 3 narrow_layout = Some (Some root') \<and> good root' \<and>
     layout_panes root' = [Some 0, Some 1, Some 2, Some 4]"
proof -
  have "Some 3 \<in> set (layout_panes narrow_layout)" "2 \<le> length (layout_panes narrow_layout)"
    "remove1 (Some 3) (layout_panes narrow_layout) = [Some 0, Some 1, Some 2, Some 4]"
    by (simp_all add: narrow_facts(4))
  with layout_close_pane_correct [OF narrow_facts(1-3) this(1,2), of demo_env] show ?thesis by metis
qed


theorem layout_resize_correct_witness:
  "\<exists>root'. layout_resize demo_env 20 2 narrow_layout = Some root' \<and> good root' \<and>
     lc_sx (lc_data root') = 20 \<and> lc_sy (lc_data root') = 3"
  using layout_resize_correct [OF narrow_facts(1), of 20 2 demo_env]
  by (simp add: narrow_facts fitted_def) blast

theorem layout_resize_pane_correct_witness:
  "\<exists>root'. layout_resize_pane demo_env [1, 0] LAYOUT_LEFTRIGHT 3 True narrow_layout = Some root' \<and> good root' \<and>
     lc_sx (lc_data root') = 7"
  using layout_resize_pane_correct [OF narrow_facts(1,7), of LAYOUT_LEFTRIGHT 3 demo_env True] narrow_facts(5) by auto

theorem layout_panes_apart_witness:
  "sorted_wrt apart (pane_rects (layout_fix_offsets narrow_layout))"
  using layout_panes_apart [OF narrow_facts(1,8)] by blast

end
