(* ===== verification/Cstring.thy ===== *)
theory Cstring
  imports Prelude
begin

text \<open>
  The functions of the C library on strings that several components use (with \<^verbatim>\<open>strtonum\<close> of
  \<^verbatim>\<open>compat/strtonum.c\<close> and \<^verbatim>\<open>strsep\<close> of \<^verbatim>\<open>compat/strsep.c\<close>): comparison without regard to case,
  numbers in a range, and fields between separators. A string is its list of characters.
\<close>

definition tolower :: "char \<Rightarrow> char" where
  "tolower c = (if CHR ''A'' \<le> c \<and> c \<le> CHR ''Z'' then char_of (of_char c + (32 :: nat)) else c)"

definition strcaseeq :: "string \<Rightarrow> string \<Rightarrow> bool" where
  "strcaseeq s t \<longleftrightarrow> map tolower s = map tolower t"

definition strncaseeq :: "string \<Rightarrow> string \<Rightarrow> nat \<Rightarrow> bool" where
  "strncaseeq s t n \<longleftrightarrow> map tolower (take n s) = map tolower (take n t)"

section \<open>Numbers\<close>

definition digit_char :: "nat \<Rightarrow> char" where
  "digit_char n = char_of (48 + n)"

definition hex_char :: "nat \<Rightarrow> char" where
  "hex_char n = (if n < 10 then char_of (48 + n) else char_of (87 + n))"

fun show_nat :: "nat \<Rightarrow> string" where
  "show_nat n = (if n < 10 then [digit_char n] else show_nat (n div 10) @ [digit_char (n mod 10)])"

declare show_nat.simps [simp del]

definition show_int :: "int \<Rightarrow> string" where
  "show_int i = (if i < 0 then CHR ''-'' # show_nat (nat (- i)) else show_nat (nat i))"

definition show_hex4 :: "u16 \<Rightarrow> string" where
  "show_hex4 w = map (\<lambda>k. hex_char (unat w div 16 ^ k mod 16)) [3, 2, 1, 0]"

definition isdigit :: "char \<Rightarrow> bool" where
  "isdigit c \<longleftrightarrow> of_char c \<in> {48..57 :: nat}"

definition isspace :: "char \<Rightarrow> bool" where
  "isspace c \<longleftrightarrow> of_char c \<in> {32 :: nat, 9, 10, 11, 12, 13}"

definition hex_value :: "char \<Rightarrow> nat option" where
  "hex_value c =
     (let n = of_char c in if n \<in> {48..57 :: nat} then Some (n - 48) else if n \<in> {97..102} then Some (n - 87)
      else if n \<in> {65..70} then Some (n - 55) else None)"

definition digits_value :: "string \<Rightarrow> nat" where
  "digits_value ds = foldl (\<lambda>v c. v * 10 + (of_char c - 48)) 0 ds"

definition hex_digits_value :: "string \<Rightarrow> nat" where
  "hex_digits_value ds = foldl (\<lambda>v c. v * 16 + the (hex_value c)) 0 ds"

text \<open>The number of the string when it is one and lies in the range: white space, a sign, digits.\<close>

definition strtonum :: "string \<Rightarrow> int \<Rightarrow> int \<Rightarrow> int option" where
  "strtonum s minval maxval =
     (let s1 = dropWhile isspace s;
          neg = (s1 \<noteq> [] \<and> hd s1 = CHR ''-'');
          s2 = (if neg \<or> s1 \<noteq> [] \<and> hd s1 = CHR ''+'' then tl s1 else s1);
          n = (if neg then - int (digits_value s2) else int (digits_value s2))
      in if minval > maxval \<or> s2 = [] \<or> \<not> list_all isdigit s2 \<or> n < minval \<or> n > maxval then None else Some n)"

lemma of_char_digit: "n < 10 \<Longrightarrow> of_char (digit_char n) = 48 + n"
  by (simp add: digit_char_def)

lemma show_nat_digits: "(\<forall>c \<in> set (show_nat n). isdigit c) \<and> show_nat n \<noteq> []"
proof (induction n rule: show_nat.induct)
  case (1 n)
  then show ?case
    by (subst (1 2) show_nat.simps) (auto simp: isdigit_def of_char_digit)
qed

lemma digits_value_snoc: "digits_value (ds @ [c]) = digits_value ds * 10 + (of_char c - 48)"
  by (simp add: digits_value_def)

lemma digits_value_show: "digits_value (show_nat n) = n"
proof (induction n rule: show_nat.induct)
  case (1 n)
  show ?case
  proof (cases "n < 10")
    case True
    then show ?thesis by (subst show_nat.simps) (simp add: digits_value_def of_char_digit)
  next
    case False
    with 1 show ?thesis by (subst show_nat.simps) (simp add: digits_value_snoc of_char_digit)
  qed
qed

text \<open>What may follow a number.\<close>

abbreviation ends_digits :: "string \<Rightarrow> bool" where
  "ends_digits r \<equiv> r = [] \<or> \<not> isdigit (hd r)"

lemma take_drop_digits:
  assumes "\<forall>c \<in> set ds. isdigit c" "ends_digits r"
  shows "takeWhile isdigit (ds @ r) = ds" "dropWhile isdigit (ds @ r) = r"
  using assms by (induction ds) (auto simp: takeWhile_eq_Nil_iff dropWhile_eq_self_iff)

lemma digit_not_space: "isdigit c \<Longrightarrow> \<not> isspace c \<and> c \<noteq> CHR ''-'' \<and> c \<noteq> CHR ''+'' \<and> c \<noteq> CHR ''x''"
  by (auto simp: isdigit_def isspace_def)

lemma strtonum_show:
  assumes "minval \<le> int n" "int n \<le> maxval"
  shows "strtonum (show_nat n) minval maxval = Some (int n)"
proof -
  obtain c cs where s: "show_nat n = c # cs" "isdigit c" using show_nat_digits [of n] by (cases "show_nat n") auto
  have "dropWhile isspace (show_nat n) = show_nat n" using s digit_not_space by simp
  then show ?thesis
    using s digit_not_space [of c] show_nat_digits [of n] digits_value_show [of n] assms
    by (simp add: strtonum_def Let_def list_all_iff)
qed

section \<open>Fields\<close>

text \<open>The fields that \<^verbatim>\<open>strsep\<close> takes from a string one after the other, empty ones included.\<close>

fun strsep_all :: "'a \<Rightarrow> 'a list \<Rightarrow> 'a list list" where
  "strsep_all sep [] = [[]]"
| "strsep_all sep (c # cs) =
     (if c = sep then [] # strsep_all sep cs
      else (case strsep_all sep cs of [] \<Rightarrow> [[c]] | f # fs \<Rightarrow> (c # f) # fs))"

lemma strsep_all_not_Nil [simp]: "strsep_all sep cs \<noteq> []"
  by (induction sep cs rule: strsep_all.induct) (auto split: list.split)

lemma strsep_all_fields: "f \<in> set (strsep_all sep cs) \<Longrightarrow> sep \<notin> set f \<and> set f \<subseteq> set cs"
proof (induction sep cs arbitrary: f rule: strsep_all.induct)
  case (2 sep c cs)
  then show ?case by (fastforce split: if_splits list.splits)
qed simp

lemma strsep_all_one: "sep \<notin> set cs \<Longrightarrow> strsep_all sep cs = [cs]"
  by (induction sep cs rule: strsep_all.induct) auto

lemma strsep_all_append: "sep \<notin> set f \<Longrightarrow> strsep_all sep (f @ sep # cs) = f # strsep_all sep cs"
  by (induction f) auto

end
