(* ===== verification/Layout_Custom.thy ===== *)
theory Layout_Custom
  imports Layout_Tree Cstring
begin

text \<open>
  Layout strings, \<^verbatim>\<open>windows/layout-custom.c\<close>: a layout is dumped as a checksum and a nested
  description of its cells, and parsed back into a tree whose leaves are given the panes of the
  window in order. C strings are lists of characters without the terminator. The parser moves a
  pointer over the string also where it fails, so its functions return what is left.

  The scanning functions follow \<^verbatim>\<open>sscanf\<close>: white space before a number is skipped and a sign
  accepted, and a number is reduced modulo \<open>2 ^ 32\<close> (as a 64-bit \<^verbatim>\<open>strtol\<close> and a conversion do).
\<close>

section \<open>Numbers\<close>

text \<open>The sign of a number: whether it is negative, and the rest.\<close>

fun scan_sign :: "string \<Rightarrow> bool \<times> string" where
  "scan_sign (c # s) = (if c = CHR ''-'' then (True, s) else if c = CHR ''+'' then (False, s) else (False, c # s))"
| "scan_sign [] = (False, [])"

text \<open>\<^verbatim>\<open>%u\<close> and \<^verbatim>\<open>%d\<close>.\<close>

definition scan_num :: "string \<Rightarrow> (u32 \<times> string) option" where
  "scan_num s =
     (case scan_sign (dropWhile isspace s) of (neg, s1) \<Rightarrow>
        let ds = takeWhile isdigit s1; v = of_nat (digits_value ds)
        in if ds = [] then None else Some (if neg then - v else v, dropWhile isdigit s1))"

fun scan_lit :: "char \<Rightarrow> string \<Rightarrow> string option" where
  "scan_lit c (d # s) = (if d = c then Some s else None)"
| "scan_lit c [] = None"

text \<open>\<^verbatim>\<open>sscanf(s, "%ux%u,%d,%d", ...)\<close> with four conversions.\<close>

definition scan_cell :: "string \<Rightarrow> (u32 \<times> u32 \<times> u32 \<times> u32) option" where
  "scan_cell s =
     (case scan_num s of None \<Rightarrow> None | Some (sx, s1) \<Rightarrow>
      case scan_lit (CHR ''x'') s1 of None \<Rightarrow> None | Some s2 \<Rightarrow>
      case scan_num s2 of None \<Rightarrow> None | Some (sy, s3) \<Rightarrow>
      case scan_lit (CHR '','') s3 of None \<Rightarrow> None | Some s4 \<Rightarrow>
      case scan_num s4 of None \<Rightarrow> None | Some (xoff, s5) \<Rightarrow>
      case scan_lit (CHR '','') s5 of None \<Rightarrow> None | Some s6 \<Rightarrow>
      case scan_num s6 of None \<Rightarrow> None | Some (yoff, s7) \<Rightarrow> Some (sx, sy, xoff, yoff))"

text \<open>\<^verbatim>\<open>%hx\<close>, with an optional \<^verbatim>\<open>0x\<close>.\<close>

definition scan_hex :: "string \<Rightarrow> (u16 \<times> string) option" where
  "scan_hex s =
     (case scan_sign (dropWhile isspace s) of (neg, s1) \<Rightarrow>
        let s2 = (if take 2 s1 = ''0x'' \<or> take 2 s1 = ''0X'' then drop 2 s1 else s1);
            ds = takeWhile (\<lambda>c. hex_value c \<noteq> None) s2; v = of_nat (hex_digits_value ds)
        in if ds = [] then None else Some (if neg then - v else v, drop (length ds) s2))"

section \<open>Dumping\<close>

definition layout_checksum :: "string \<Rightarrow> u16" where
  "layout_checksum layout =
     foldl (\<lambda>csum c. drop_bit 1 csum + push_bit 15 (csum AND 1) + scast (of_char c :: u8)) 0 layout"

text \<open>\<^verbatim>\<open>strlcat\<close> with the test for truncation, and without.\<close>

definition cat :: "nat \<Rightarrow> string \<Rightarrow> string \<Rightarrow> string option" where
  "cat len buf s = (if length buf + length s \<ge> len then None else Some (buf @ s))"

definition cat_trunc :: "nat \<Rightarrow> string \<Rightarrow> string \<Rightarrow> string" where
  "cat_trunc len buf s = (if length buf \<ge> len then buf else take (len - 1) (buf @ s))"

definition show_cell :: "lcell \<Rightarrow> string" where
  "show_cell d =
     show_nat (unat (lc_sx d)) @ ''x'' @ show_nat (unat (lc_sy d)) @ '','' @ show_int (sint (lc_xoff d)) @ '','' @
     show_int (sint (lc_yoff d)) @ (case lc_wp d of Some wp \<Rightarrow> '','' @ show_nat wp | None \<Rightarrow> '''')"

definition set_last :: "string \<Rightarrow> char \<Rightarrow> string" where
  "set_last buf c = butlast buf @ [c]"

fun layout_append :: "nat \<Rightarrow> layout_cell \<Rightarrow> string \<Rightarrow> string option"
  and append_children :: "nat \<Rightarrow> layout_cell list \<Rightarrow> string \<Rightarrow> string option" where
  "layout_append len (Cell d cs) buf =
     (if len = 0 then None
      else if length (show_cell d) > 63 then None
      else
        (case cat len buf (show_cell d) of None \<Rightarrow> None
         | Some buf1 \<Rightarrow>
             (case lc_type d of
                LAYOUT_LEFTRIGHT \<Rightarrow>
                  (case cat len buf1 ''{'' of None \<Rightarrow> None
                   | Some buf2 \<Rightarrow> map_option (\<lambda>b. set_last b (CHR ''}'')) (append_children len cs buf2))
              | LAYOUT_TOPBOTTOM \<Rightarrow>
                  (case cat len buf1 ''['' of None \<Rightarrow> None
                   | Some buf2 \<Rightarrow> map_option (\<lambda>b. set_last b (CHR '']'')) (append_children len cs buf2))
              | _ \<Rightarrow> Some buf1)))"
| "append_children len [] buf = Some buf"
| "append_children len (c # cs) buf =
     (case layout_append len c buf of None \<Rightarrow> None
      | Some buf1 \<Rightarrow>
          (case cat len buf1 '','' of None \<Rightarrow> None | Some buf2 \<Rightarrow> append_children len cs buf2))"

text \<open>A null cell appends nothing.\<close>

definition append_cell :: "nat \<Rightarrow> layout_cell option \<Rightarrow> string \<Rightarrow> string option" where
  "append_cell len lc buf = (case lc of None \<Rightarrow> if len = 0 then None else Some buf | Some c \<Rightarrow> layout_append len c buf)"

text \<open>
  The cells of the floating panes at the front of the window's z order follow the root; a
  truncation there is not noticed.
\<close>

fun append_floating :: "nat \<Rightarrow> bool \<Rightarrow> layout_cell option list \<Rightarrow> string \<Rightarrow> (bool \<times> string) option" where
  "append_floating len bracket [] buf = Some (bracket, buf)"
| "append_floating len bracket (c # cs) buf =
     (case append_cell len c (if bracket then buf else cat_trunc len buf ''<'') of
        None \<Rightarrow> None
      | Some buf1 \<Rightarrow> append_floating len True cs (cat_trunc len buf1 '',''))"

definition layout_dump :: "layout_cell option list \<Rightarrow> layout_cell option \<Rightarrow> string option" where
  "layout_dump floating root =
     (case append_cell 8192 root '''' of None \<Rightarrow> None
      | Some buf \<Rightarrow>
          (case append_floating 8192 False floating buf of None \<Rightarrow> None
           | Some (bracket, buf1) \<Rightarrow>
               (let layout = (if bracket then set_last buf1 (CHR ''>'') else buf1)
                in Some (show_hex4 (layout_checksum layout) @ '','' @ layout))))"

section \<open>Parsing\<close>

text \<open>
  The result of the parser: a value, a failure, or undefined behaviour (a null pointer, a use of
  freed memory, a read of an uninitialised variable). A failure says whether the floating cell
  was there to be freed with it.
\<close>

datatype 'a parsed = Parsed 'a | Failed bool | Undefined

text \<open>One cell; the pointer has moved also when there is none.\<close>

definition layout_construct_cell :: "string \<Rightarrow> layout_cell option \<times> string" where
  "layout_construct_cell s =
     (if s = [] \<or> \<not> isdigit (hd s) then (None, s)
      else case scan_cell s of
        None \<Rightarrow> (None, s)
      | Some (sx, sy, xoff, yoff) \<Rightarrow>
          (let s1 = dropWhile isdigit s
           in case scan_lit (CHR ''x'') s1 of None \<Rightarrow> (None, s1) | Some s2 \<Rightarrow>
          let s3 = dropWhile isdigit s2
           in case scan_lit (CHR '','') s3 of None \<Rightarrow> (None, s3) | Some s4 \<Rightarrow>
          let s5 = dropWhile isdigit s4
           in case scan_lit (CHR '','') s5 of None \<Rightarrow> (None, s5) | Some s6 \<Rightarrow>
          let s7 = dropWhile isdigit s6;
              s8 = (case scan_lit (CHR '','') s7 of
                      None \<Rightarrow> s7
                    | Some t \<Rightarrow>
                        (let u = dropWhile isdigit t in if u \<noteq> [] \<and> hd u = CHR ''x'' then s7 else u))
           in (Some (map_data (\<lambda>d. d\<lparr>lc_sx := sx, lc_sy := sy, lc_xoff := xoff, lc_yoff := yoff\<rparr>) layout_create_cell), s8)))"

definition set_type :: "layout_type \<Rightarrow> layout_cell \<Rightarrow> lcell" where
  "set_type type c = (lc_data c)\<lparr>lc_type := type\<rparr>"

text \<open>
  \<^verbatim>\<open>layout_construct\<close>: the cell (possibly none), the floating cell so far, and the rest of the
  string. The number bounds the depth of the recursion; twice the length of the string and two
  more are enough (\<open>construct_fuel\<close>), since one of two calls takes a character. A failure below a failure frees the floating cell twice.
\<close>

fun layout_construct :: "nat \<Rightarrow> string \<Rightarrow> layout_cell option \<Rightarrow> (layout_cell option \<times> layout_cell option \<times> string) parsed"
  and construct_children :: "nat \<Rightarrow> string \<Rightarrow> layout_cell option \<Rightarrow> (layout_cell list \<times> layout_cell option \<times> string) parsed" where
  "layout_construct 0 s fl = Undefined"
| "layout_construct (Suc n) s fl =
     (case layout_construct_cell s of (lc, rest) \<Rightarrow>
        if rest = [] \<or> hd rest \<in> {CHR '','', CHR ''}'', CHR '']'', CHR ''>''} then Parsed (lc, fl, rest)
        else if hd rest = CHR ''{'' \<or> hd rest = CHR ''['' then
          (case lc of
             None \<Rightarrow> Undefined
           | Some c \<Rightarrow>
               (case construct_children n rest fl of
                  Parsed (cs, fl', rest') \<Rightarrow>
                    if rest' \<noteq> [] \<and> hd rest' = (if hd rest = CHR ''{'' then CHR ''}'' else CHR '']'')
                    then Parsed (Some (Cell (set_type (if hd rest = CHR ''{'' then LAYOUT_LEFTRIGHT else LAYOUT_TOPBOTTOM) c) cs),
                           fl', tl rest')
                    else Failed (fl' \<noteq> None)
                | Failed freed \<Rightarrow> if freed then Undefined else Failed False
                | Undefined \<Rightarrow> Undefined))
        else if hd rest = CHR ''<'' then
          (case construct_children n rest fl of
             Parsed (cs, fl', rest') \<Rightarrow>
               if rest' \<noteq> [] \<and> hd rest' = CHR ''>''
               then Parsed (lc, Some (Cell (set_type LAYOUT_FLOATING layout_create_cell) cs), tl rest')
               else Failed (fl' \<noteq> None)
           | Failed freed \<Rightarrow> if freed then Undefined else Failed False
           | Undefined \<Rightarrow> Undefined)
        else Failed (fl \<noteq> None))"
| "construct_children 0 s fl = Undefined"
| "construct_children (Suc n) s fl =
     (case layout_construct n (tl s) fl of
        Parsed (Some c, fl', rest) \<Rightarrow>
          if rest \<noteq> [] \<and> hd rest = CHR '',''
          then (case construct_children n rest fl' of
                  Parsed (cs, fl'', rest') \<Rightarrow> Parsed (c # cs, fl'', rest')
                | r \<Rightarrow> r)
          else Parsed ([c], fl', rest)
      | Parsed (None, _, _) \<Rightarrow> Undefined
      | Failed freed \<Rightarrow> Failed freed
      | Undefined \<Rightarrow> Undefined)"

text \<open>The path of the bottom-right cell; \<open>None\<close> is the null pointer of a node without children.\<close>

fun layout_find_bottomright :: "layout_cell \<Rightarrow> nat list option"
  and bottomright_last :: "nat \<Rightarrow> layout_cell list \<Rightarrow> nat list option" where
  "layout_find_bottomright (Cell d cs) =
     (if lc_type d = LAYOUT_WINDOWPANE then Some [] else bottomright_last 0 cs)"
| "bottomright_last i [] = None"
| "bottomright_last i [c] = map_option ((#) i) (layout_find_bottomright c)"
| "bottomright_last i (c # c' # cs) = bottomright_last (Suc i) (c' # cs)"

text \<open>
  Close cells until the panes fit: floating ones first, then from the bottom right. Every round
  closes one cell, so the number of cells bounds the rounds. \<open>Inl\<close> is the failure with too many
  panes, the outer \<open>None\<close> undefined behaviour.
\<close>

fun fit_cells :: "nat \<Rightarrow> layout_env \<Rightarrow> nat \<Rightarrow> layout_cell option \<Rightarrow> layout_cell \<Rightarrow>
    (unit + layout_cell option \<times> layout_cell) option" where
  "fit_cells 0 env npanes fl tiled = None"
| "fit_cells (Suc n) env npanes fl tiled =
     (let ncells = layout_count_cells tiled + (case fl of None \<Rightarrow> 0 | Some f \<Rightarrow> layout_count_cells f)
      in if npanes > ncells then Some (Inl ())
         else if npanes = ncells then Some (Inr (fl, tiled))
         else if fl \<noteq> None \<and> lc_cells (the fl) \<noteq> []
         then fit_cells n env npanes (Some (Cell (lc_data (the fl)) (tl (lc_cells (the fl))))) tiled
         else (case layout_find_bottomright tiled of None \<Rightarrow> None
               | Some p \<Rightarrow>
                   (case layout_destroy_cell env p tiled of
                      Some (Some tiled') \<Rightarrow> fit_cells n env npanes fl tiled'
                    | _ \<Rightarrow> None)))"

text \<open>Give the leaves the panes in order; \<open>None\<close> is the null pointer when there are too few.\<close>

fun layout_assign :: "nat list \<Rightarrow> layout_cell \<Rightarrow> (nat list \<times> layout_cell) option"
  and assign_cells :: "nat list \<Rightarrow> layout_cell list \<Rightarrow> (nat list \<times> layout_cell list) option" where
  "layout_assign wps (Cell d cs) =
     (if lc_type d = LAYOUT_WINDOWPANE
      then (case wps of [] \<Rightarrow> None | wp # wps' \<Rightarrow> Some (wps', layout_make_leaf (Cell d cs) wp))
      else map_option (map_prod id (Cell d)) (assign_cells wps cs))"
| "assign_cells wps [] = Some (wps, [])"
| "assign_cells wps (c # cs) =
     (case layout_assign wps c of None \<Rightarrow> None
      | Some (wps', c') \<Rightarrow> map_option (map_prod id ((#) c')) (assign_cells wps' cs))"

text \<open>
  The outcome of a successful parse: the new root, the cells of the floating panes, and the size
  the window is resized to, if it is.
\<close>

record parse_result =
  pr_root :: layout_cell
  pr_floating :: "layout_cell list"
  pr_resize :: "(u32 \<times> u32) option"

text \<open>The size of the children of the root plus one in each direction, zero for a single pane.\<close>

definition children_size :: "layout_cell \<Rightarrow> u32 \<times> u32" where
  "children_size c =
     (case lc_type (lc_data c) of
        LAYOUT_LEFTRIGHT \<Rightarrow> (sum_list (map (\<lambda>c. lc_sx (lc_data c) + 1) (lc_cells c)),
          if lc_cells c = [] then 0 else lc_sy (lc_data (last (lc_cells c))) + 1)
      | LAYOUT_TOPBOTTOM \<Rightarrow> (if lc_cells c = [] then 0 else lc_sx (lc_data (last (lc_cells c))) + 1,
          sum_list (map (\<lambda>c. lc_sy (lc_data c) + 1) (lc_cells c)))
      | _ \<Rightarrow> (0, 0))"

definition fix_root_size :: "layout_cell \<Rightarrow> layout_cell" where
  "fix_root_size c =
     (case children_size c of (sx, sy) \<Rightarrow>
        if lc_type (lc_data c) \<noteq> LAYOUT_WINDOWPANE \<and> (lc_sx (lc_data c) \<noteq> sx \<or> lc_sy (lc_data c) \<noteq> sy)
        then map_data (\<lambda>d. d\<lparr>lc_sx := sx - 1, lc_sy := sy - 1\<rparr>) c else c)"

text \<open>
  \<^verbatim>\<open>layout_parse\<close> for a window of size \<open>wsx\<close>, \<open>wsy\<close> with the panes \<open>wps\<close> (all of them, in the order of
  the window). The checksum must take four characters and a comma; without a comma the number of
  characters read is never set.
\<close>

definition layout_parse :: "layout_env \<Rightarrow> u32 \<Rightarrow> u32 \<Rightarrow> nat list \<Rightarrow> string \<Rightarrow> parse_result parsed" where
  "layout_parse env wsx wsy wps s =
     (case scan_hex s of
        None \<Rightarrow> Failed False
      | Some (csum, rest) \<Rightarrow>
          (case scan_lit (CHR '','') rest of
             None \<Rightarrow> Undefined
           | Some layout \<Rightarrow>
               if length s - length layout \<noteq> 5 \<or> csum \<noteq> layout_checksum layout then Failed False
               else (case layout_construct (2 * length layout + 2) layout None of
                  Failed _ \<Rightarrow> Failed False
                | Undefined \<Rightarrow> Undefined
                | Parsed (lc, fl, rest) \<Rightarrow>
                    (let tiled0 = (case lc of
                           None \<Rightarrow> layout_set_size (Cell (set_type LAYOUT_LEFTRIGHT layout_create_cell) []) wsx wsy 0 0
                         | Some c \<Rightarrow> c)
                     in if rest \<noteq> [] then Failed False
                        else (case fit_cells (Suc (layout_count_cells tiled0 + (case fl of None \<Rightarrow> 0 | Some f \<Rightarrow> layout_count_cells f)))
                                     env (length wps) fl tiled0 of
                           None \<Rightarrow> Undefined
                         | Some (Inl _) \<Rightarrow> Failed False
                         | Some (Inr (fl', tiled1)) \<Rightarrow>
                             if lc_type (lc_data tiled1) = LAYOUT_FLOATING then Failed False
                             else
                               (let tiled2 = fix_root_size tiled1; (sx, sy) = children_size tiled1
                                in if \<not> layout_check tiled2 then Failed False
                                   else (case layout_assign wps tiled2 of
                                       None \<Rightarrow> Undefined
                                     | Some (wps', root) \<Rightarrow>
                                         (case (case fl' of None \<Rightarrow> Some ([], []) | Some f \<Rightarrow> assign_cells wps' (lc_cells f)) of
                                            None \<Rightarrow> Undefined
                                          | Some (_, floats) \<Rightarrow>
                                              Parsed \<lparr>pr_root = layout_fix_offsets root, pr_floating = floats,
                                                pr_resize = (if sx \<noteq> 0 \<and> sy \<noteq> 0
                                                  then Some (lc_sx (lc_data tiled2), lc_sy (lc_data tiled2)) else None)\<rparr>))))))))"

end
