(* ===== verification/Layout_Roundtrip.thy ===== *)
theory Layout_Roundtrip
  imports Layout_Custom Layout_Resize
begin

text \<open>
  Dumping a layout and parsing the string gives the layout back, and what the parser makes of
  strings that are not dumps.
\<close>

section \<open>Numbers\<close>

lemma scan_num_show:
  assumes "ends_digits r"
  shows "scan_num (show_nat n @ r) = Some (of_nat n, r)"
proof -
  obtain c cs where s: "show_nat n = c # cs" "isdigit c" using show_nat_digits [of n] by (cases "show_nat n") auto
  have "dropWhile isspace (show_nat n @ r) = show_nat n @ r" using s digit_not_space by simp
  moreover have "scan_sign (show_nat n @ r) = (False, show_nat n @ r)" using s digit_not_space [of c] by simp
  ultimately show ?thesis
    using show_nat_digits [of n] take_drop_digits [OF _ assms, of "show_nat n"]
    by (simp add: scan_num_def Let_def digits_value_show)
qed

lemma show_int_word:
  fixes w :: u32
  assumes "0 \<le> sint w"
  shows "show_int (sint w) = show_nat (nat (sint w))" "of_nat (nat (sint w)) = w"
proof -
  show "show_int (sint w) = show_nat (nat (sint w))" using assms unfolding show_int_def by simp
  have "(of_nat (nat (sint w)) :: u32) = of_int (sint w)" using assms by (simp only: of_nat_nat)
  then show "of_nat (nat (sint w)) = w" by simp
qed

section \<open>One cell\<close>

text \<open>Cells the dump can show: offsets not negative, panes in the leaves and only there.\<close>

fun dumpable :: "layout_cell \<Rightarrow> bool" where
  "dumpable (Cell d cs) \<longleftrightarrow> 0 \<le> sint (lc_xoff d) \<and> 0 \<le> sint (lc_yoff d) \<and>
     (if lc_type d = LAYOUT_WINDOWPANE then cs = [] \<and> lc_wp d \<noteq> None
      else direction (lc_type d) \<and> cs \<noteq> [] \<and> lc_wp d = None \<and> (\<forall>c \<in> set cs. dumpable c))"

text \<open>The cell as the parser makes it: no pane.\<close>

fun bare :: "layout_cell \<Rightarrow> layout_cell" where
  "bare (Cell d cs) = Cell (d\<lparr>lc_wp := None\<rparr>) (map bare cs)"

lemma nx: "\<not> isdigit (CHR ''x'')" "\<not> isdigit (CHR '','')" "\<not> isdigit (CHR ''{'')" "\<not> isdigit (CHR ''['')"
  "\<not> isdigit (CHR ''}'')" "\<not> isdigit (CHR '']'')" "\<not> isdigit (CHR ''>'')"
  by (simp_all add: isdigit_def)

lemma construct_cell_show:
  assumes "0 \<le> sint (lc_xoff d)" "0 \<le> sint (lc_yoff d)" "ends_digits r"
    "case lc_wp d of None \<Rightarrow> r = [] \<or> hd r \<noteq> CHR '','' | Some wp \<Rightarrow> r = [] \<or> hd r \<noteq> CHR ''x''"
  shows "layout_construct_cell (show_cell d @ r) =
    (Some (Cell (d\<lparr>lc_type := LAYOUT_WINDOWPANE, lc_wp := None\<rparr>) []), r)"
proof -
  define a b c e where "a = show_nat (unat (lc_sx d))" and "b = show_nat (unat (lc_sy d))"
    and "c = show_nat (nat (sint (lc_xoff d)))" and "e = show_nat (nat (sint (lc_yoff d)))"
  define t where "t = (case lc_wp d of Some wp \<Rightarrow> CHR '','' # show_nat wp | None \<Rightarrow> []) @ r"
  have s: "show_cell d @ r = a @ CHR ''x'' # b @ CHR '','' # c @ CHR '','' # e @ t"
    using assms(1,2) by (simp add: show_cell_def show_int_word a_def b_def c_def e_def t_def split: option.splits)
  have t: "ends_digits t" using assms(3) nx by (auto simp: t_def split: option.splits)
  have dt: "dropWhile isdigit t = t" using t by (cases t) auto
  have scan: "scan_cell (show_cell d @ r) = Some (lc_sx d, lc_sy d, lc_xoff d, lc_yoff d)"
    unfolding s using assms(1,2) t nx
    by (simp add: scan_cell_def a_def b_def c_def e_def scan_num_show show_int_word)
  have digs: "\<forall>x \<in> set a. isdigit x" "\<forall>x \<in> set b. isdigit x" "\<forall>x \<in> set c. isdigit x" "\<forall>x \<in> set e. isdigit x"
    "a \<noteq> []" using show_nat_digits by (auto simp: a_def b_def c_def e_def)
  have last: "(case scan_lit (CHR '','') t of None \<Rightarrow> t
      | Some t' \<Rightarrow> (let u = dropWhile isdigit t' in if u \<noteq> [] \<and> hd u = CHR ''x'' then t else u)) = r"
  proof (cases "lc_wp d")
    case None
    then show ?thesis using assms(4) by (cases r) (auto simp: t_def)
  next
    case (Some wp)
    then show ?thesis
      using assms(3,4) show_nat_digits [of wp] take_drop_digits(2) [OF _ assms(3), of "show_nat wp"]
      by (auto simp: t_def Let_def)
  qed
  have hd: "a @ CHR ''x'' # b @ CHR '','' # c @ CHR '','' # e @ t \<noteq> []" "isdigit (hd (a @ CHR ''x'' # b @ CHR '','' # c @ CHR '','' # e @ t))"
    using digs(1,5) by (cases a; simp)+
  show ?thesis
    unfolding layout_construct_cell_def scan
    using hd digs nx dt last
    by (simp add: s take_drop_digits Let_def layout_create_cell_def)
qed

section \<open>The tree\<close>

text \<open>The text of a tree: what \<open>layout_append\<close> writes.\<close>

fun show_tree :: "layout_cell \<Rightarrow> string"
  and show_children :: "layout_cell list \<Rightarrow> char \<Rightarrow> string" where
  "show_tree (Cell d cs) = show_cell d @
     (case lc_type d of LAYOUT_LEFTRIGHT \<Rightarrow> CHR ''{'' # show_children cs (CHR ''}'')
      | LAYOUT_TOPBOTTOM \<Rightarrow> CHR ''['' # show_children cs (CHR '']'') | _ \<Rightarrow> [])"
| "show_children [] e = [e]"
| "show_children (c # cs) e = show_tree c @ (if cs = [] then [e] else CHR '','' # show_children cs e)"

lemma catD: "cat len buf s = Some b \<Longrightarrow> b = buf @ s"
  by (simp add: cat_def split: if_splits)

lemma set_last_children:
  "cs \<noteq> [] \<Longrightarrow> set_last (buf @ concat (map (\<lambda>c. show_tree c @ '','') cs)) e = buf @ show_children cs e"
proof (induction cs arbitrary: buf)
  case (Cons c cs)
  then show ?case
    by (cases "cs = []") (simp_all add: set_last_def butlast_append)
qed simp

lemma layout_append_show:
  "dumpable c \<Longrightarrow> layout_append len c buf = Some b \<Longrightarrow> b = buf @ show_tree c"
  "\<forall>c \<in> set cs. dumpable c \<Longrightarrow> append_children len cs buf = Some b \<Longrightarrow>
     b = buf @ concat (map (\<lambda>c. show_tree c @ '','') cs)"
proof (induction len c buf and len cs buf arbitrary: b and b rule: layout_append_append_children.induct)
  case (1 len d cs buf)
  from 1(4) obtain b1 where b1: "cat len buf (show_cell d) = Some b1" "len \<noteq> 0" "length (show_cell d) \<le> 63"
    by (auto split: if_splits option.splits)
  show ?case
  proof (cases "lc_type d = LAYOUT_WINDOWPANE")
    case True
    then show ?thesis using 1(4) b1 catD [OF b1(1)] by simp
  next
    case False
    then have dir: "direction (lc_type d)" "cs \<noteq> []" "\<forall>c \<in> set cs. dumpable c" using 1(3) by auto
    from dir(1) show ?thesis
    proof
      assume t: "lc_type d = LAYOUT_LEFTRIGHT"
      with 1(4) b1 obtain b2 b3 where b2: "cat len b1 ''{'' = Some b2" "append_children len cs b2 = Some b3"
        "b = set_last b3 (CHR ''}'')" by (auto split: option.splits)
      have "b3 = b2 @ concat (map (\<lambda>c. show_tree c @ '','') cs)"
        using 1(1) [OF _ _ b1(1) t b2(1) dir(3) b2(2)] b1 by simp
      then show ?thesis using b2(3) catD [OF b1(1)] catD [OF b2(1)] t set_last_children [OF dir(2), of b2] by simp
    next
      assume t: "lc_type d = LAYOUT_TOPBOTTOM"
      with 1(4) b1 obtain b2 b3 where b2: "cat len b1 ''['' = Some b2" "append_children len cs b2 = Some b3"
        "b = set_last b3 (CHR '']'')" by (auto split: option.splits)
      have "b3 = b2 @ concat (map (\<lambda>c. show_tree c @ '','') cs)"
        using 1(2) [OF _ _ b1(1) t b2(1) dir(3) b2(2)] b1 by simp
      then show ?thesis using b2(3) catD [OF b1(1)] catD [OF b2(1)] t set_last_children [OF dir(2), of b2] by simp
    qed
  qed
next
  case (3 len c cs buf)
  from 3(4) obtain b1 b2 where b: "layout_append len c buf = Some b1" "cat len b1 '','' = Some b2"
    "append_children len cs b2 = Some b" by (auto split: option.splits)
  then show ?case using 3(1) [of b1] 3(2) [OF b(1,2), of b] 3(3) catD [OF b(2)] by simp
qed simp

text \<open>What may follow a cell in a dump.\<close>

abbreviation terminated :: "string \<Rightarrow> bool" where
  "terminated r \<equiv> r = [] \<or> hd r \<in> {CHR '','', CHR ''}'', CHR '']'', CHR ''>''}"

lemma terminated_no_digit: "terminated r \<Longrightarrow> ends_digits r"
  using nx by auto

lemma show_cell_not_empty: "show_cell d \<noteq> []"
  using show_nat_digits by (simp add: show_cell_def)

lemma construct_show:
  "dumpable c \<Longrightarrow> lc_type (lc_data c) = LAYOUT_WINDOWPANE \<longrightarrow> terminated r \<Longrightarrow> length (show_tree c @ r) < n \<Longrightarrow>
     layout_construct n (show_tree c @ r) fl = Parsed (Some (bare c), fl, r)"
  "cs \<noteq> [] \<Longrightarrow> \<forall>c \<in> set cs. dumpable c \<Longrightarrow> e = CHR ''}'' \<or> e = CHR '']'' \<Longrightarrow>
     length (b # show_children cs e @ r) < n \<Longrightarrow>
     construct_children n (b # show_children cs e @ r) fl = Parsed (map bare cs, fl, e # r)"
proof (induction c and cs e arbitrary: n r fl and n r fl b rule: show_tree_show_children.induct)
  case (1 d cs)
  then obtain m where n: "n = Suc m" by (cases n) auto
  show ?case
  proof (cases "lc_type d = LAYOUT_WINDOWPANE")
    case True
    then have trm: "terminated r" using 1(4) by simp
    from True 1(3) obtain wp where wp: "lc_wp d = Some wp" "cs = []" "0 \<le> sint (lc_xoff d)" "0 \<le> sint (lc_yoff d)" by auto
    have "layout_construct_cell (show_cell d @ r) =
        (Some (Cell (d\<lparr>lc_type := LAYOUT_WINDOWPANE, lc_wp := None\<rparr>) []), r)"
      using construct_cell_show [OF wp(3,4), of r] trm terminated_no_digit [OF trm] wp(1) by auto
    moreover have "d\<lparr>lc_type := LAYOUT_WINDOWPANE\<rparr> = d" using True by (cases d) simp
    ultimately show ?thesis using True trm wp n by simp
  next
    case False
    with 1(3) have d: "direction (lc_type d)" "cs \<noteq> []" "\<forall>c \<in> set cs. dumpable c" "lc_wp d = None"
      "0 \<le> sint (lc_xoff d)" "0 \<le> sint (lc_yoff d)" by auto
    have cell: "layout_construct_cell (show_cell d @ x # r') =
        (Some (Cell (d\<lparr>lc_type := LAYOUT_WINDOWPANE, lc_wp := None\<rparr>) []), x # r')"
      if "x = CHR ''{'' \<or> x = CHR ''[''" for x r'
      using construct_cell_show [OF d(5,6), of "x # r'"] d(4) that nx by auto
    from d(1) show ?thesis
    proof
      assume t: "lc_type d = LAYOUT_LEFTRIGHT"
      have "construct_children m (CHR ''{'' # show_children cs (CHR ''}'') @ r) fl = Parsed (map bare cs, fl, CHR ''}'' # r)"
        using 1(1) [OF t d(2,3)] 1(5) n t show_cell_not_empty [of d] by (cases "show_cell d") simp_all
      moreover have "d\<lparr>lc_type := LAYOUT_LEFTRIGHT, lc_wp := None\<rparr> = d\<lparr>lc_wp := None\<rparr>" using t by (cases d) simp
      ultimately show ?thesis using t n cell by (simp add: set_type_def)
    next
      assume t: "lc_type d = LAYOUT_TOPBOTTOM"
      have "construct_children m (CHR ''['' # show_children cs (CHR '']'') @ r) fl = Parsed (map bare cs, fl, CHR '']'' # r)"
        using 1(2) [OF t d(2,3)] 1(5) n t show_cell_not_empty [of d] by (cases "show_cell d") simp_all
      moreover have "d\<lparr>lc_type := LAYOUT_TOPBOTTOM, lc_wp := None\<rparr> = d\<lparr>lc_wp := None\<rparr>" using t by (cases d) simp
      ultimately show ?thesis using t n cell by (simp add: set_type_def)
    qed
  qed
next
  case (3 c cs e)
  then obtain m where n: "n = Suc m" by (cases n) auto
  show ?case
  proof (cases "cs = []")
    case True
    then have "layout_construct m (show_tree c @ e # r) fl = Parsed (Some (bare c), fl, e # r)"
      using 3(1) [of "e # r" m fl] 3(4,5,6) n by auto
    then show ?thesis using True 3(5) n by auto
  next
    case False
    define u where "u = show_children cs e @ r"
    have "layout_construct m (show_tree c @ CHR '','' # u) fl = Parsed (Some (bare c), fl, CHR '','' # u)"
      using 3(1) [of "CHR '','' # u" m fl] 3(4,6) False n by (auto simp: u_def)
    moreover have "construct_children m (CHR '','' # u) fl = Parsed (map bare cs, fl, e # r)"
      unfolding u_def using 3(2) [OF False False _ 3(5)] 3(4,6) False n by auto
    ultimately show ?thesis using False n by (simp add: u_def)
  qed
qed simp

section \<open>The fuel of the parser\<close>

lemma length_dropWhile: "length (dropWhile P s) \<le> length s"
  by (induction s) auto

lemma scan_lit_length: "scan_lit c s = Some t \<Longrightarrow> length s = Suc (length t)"
  by (cases s) (auto split: if_splits)

lemma construct_cell_length: "length (snd (layout_construct_cell s)) \<le> length s"
proof -
  have d: "length (dropWhile isdigit t) \<le> n" if "length t \<le> n" for t n
    using length_dropWhile [of isdigit t] that by linarith
  have l: "length t \<le> length u" if "scan_lit c (dropWhile isdigit u) = Some t" for c t u
    using scan_lit_length [OF that] length_dropWhile [of isdigit u] by linarith
  show ?thesis
    unfolding layout_construct_cell_def Let_def by (auto split: option.splits prod.splits dest!: l intro: d)
qed

lemma construct_length:
  "layout_construct n s fl = Parsed (lc, fl', r) \<Longrightarrow> length r \<le> length s"
  "construct_children n s fl = Parsed (cs, fl', r) \<Longrightarrow> length r \<le> length s"
proof (induction n s fl and n s fl arbitrary: lc fl' r and cs fl' r rule: layout_construct_construct_children.induct)
  case (2 n s fl)
  obtain c rest where c: "layout_construct_cell s = (c, rest)" by force
  have "length rest \<le> length s" using construct_cell_length [of s] c by simp
  then show ?case
    using 2 c by (fastforce split: if_splits option.splits parsed.splits prod.splits)
next
  case (4 n s fl)
  then show ?case
    by (fastforce split: if_splits option.splits parsed.splits prod.splits)
qed auto

lemma construct_fuel:
  "2 * length s + 2 \<le> n \<Longrightarrow> 2 * length s + 2 \<le> m \<Longrightarrow> layout_construct n s fl = layout_construct m s fl"
  "s \<noteq> [] \<Longrightarrow> 2 * length s + 1 \<le> n \<Longrightarrow> 2 * length s + 1 \<le> m \<Longrightarrow> construct_children n s fl = construct_children m s fl"
proof (induction n s fl and n s fl arbitrary: m and m rule: layout_construct_construct_children.induct)
  case (2 n s fl)
  then obtain k where m: "m = Suc k" by (cases m) auto
  obtain c rest where c: "layout_construct_cell s = (c, rest)" by force
  have len: "length rest \<le> length s" using construct_cell_length [of s] c by simp
  have b: "2 * length rest + 1 \<le> n" "2 * length rest + 1 \<le> k" using 2(3,4) m len by simp_all
  have "construct_children n rest fl = construct_children k rest fl"
    if "rest \<noteq> []" "hd rest = CHR ''{'' \<or> hd rest = CHR ''[''" "c = Some x" for x
    using 2(1) [OF c [symmetric] _ that(2,3) that(1) b] that by auto
  moreover have "construct_children n rest fl = construct_children k rest fl"
    if "rest \<noteq> []" "hd rest = CHR ''<''"
    using 2(2) [OF c [symmetric] _ _ that(2,1) b] that by auto
  ultimately show ?case using c m by (auto split: option.splits parsed.splits)
next
  case (4 n s fl)
  then obtain k where m: "m = Suc k" by (cases m) auto
  have hd: "layout_construct n (tl s) fl = layout_construct k (tl s) fl"
    using 4(1) [of k] 4(3-) m by (cases s) auto
  show ?case
  proof (cases "layout_construct k (tl s) fl")
    case (Parsed p)
    obtain lc fl' rest where p: "p = (lc, fl', rest)" by (cases p)
    then have con: "layout_construct n (tl s) fl = Parsed (lc, fl', rest)" using hd Parsed by simp
    have b: "2 * length rest + 1 \<le> n" "2 * length rest + 1 \<le> k"
      using construct_length(1) [OF con] 4(3-) m by (cases s; simp)+
    have "construct_children n rest fl' = construct_children k rest fl'"
      if "rest \<noteq> []" "hd rest = CHR '',''" "lc = Some c" for c
      using 4(2) [OF con refl that(3) refl _ that(1) b] that by simp
    then show ?thesis using Parsed p con m by (cases lc) simp_all
  qed (use hd m in simp_all)
qed auto

section \<open>The checksum in front\<close>

lemma hex_char_facts:
  assumes "n < 16"
  shows "hex_value (hex_char n) = Some n \<and> \<not> isspace (hex_char n) \<and> hex_char n \<noteq> CHR ''-'' \<and>
    hex_char n \<noteq> CHR ''+'' \<and> hex_char n \<noteq> CHR ''x'' \<and> hex_char n \<noteq> CHR ''X''"
proof -
  have v: "(of_char (hex_char n) :: nat) = (if n < 10 then 48 + n else 87 + n)"
    using assms by (simp add: hex_char_def)
  have ne: "hex_char n \<noteq> c" if "(of_char c :: nat) < 48 \<or> 102 < (of_char c :: nat) \<or> (of_char c :: nat) = 88" for c
    using that v assms by (auto split: if_splits)
  have "hex_char n \<noteq> CHR ''-'' \<and> hex_char n \<noteq> CHR ''+'' \<and> hex_char n \<noteq> CHR ''x'' \<and> hex_char n \<noteq> CHR ''X''"
    by (intro conjI ne) simp_all
  moreover have "hex_value (hex_char n) = Some n" using v assms by (simp add: hex_value_def)
  moreover have "\<not> isspace (hex_char n)" using v by (simp add: isspace_def)
  ultimately show ?thesis by blast
qed

lemmas hex_char_value = hex_char_facts [THEN conjunct1]
lemmas hex_char_plain = hex_char_facts [THEN conjunct2]

lemma hex_digits:
  assumes "(u :: nat) < 65536"
  shows "((u div 4096 mod 16 * 16 + u div 256 mod 16) * 16 + u div 16 mod 16) * 16 + u mod 16 = u"
proof -
  have d: "u div 256 = u div 16 div 16" "u div 4096 = u div 16 div 16 div 16" by (simp_all flip: div_mult2_eq)
  have "u div 16 div 16 div 16 < 16" using assms by (simp flip: div_mult2_eq)
  then show ?thesis unfolding d by simp
qed

lemma scan_hex_show: "scan_hex (show_hex4 w @ CHR '','' # r) = Some (w, CHR '','' # r)"
proof -
  define a b c d where "a = unat w div 4096 mod 16" and "b = unat w div 256 mod 16"
    and "c = unat w div 16 mod 16" and "d = unat w mod 16"
  have s: "show_hex4 w = map hex_char [a, b, c, d]"
    by (simp add: show_hex4_def a_def b_def c_def d_def power_numeral_reduce)
  have lt: "a < 16" "b < 16" "c < 16" "d < 16" by (simp_all add: a_def b_def c_def d_def)
  have "unat w < 2 ^ LENGTH(16)" by (rule unsigned_less)
  then have "unat w < 65536" by simp
  then have val: "hex_digits_value (map hex_char [a, b, c, d]) = unat w"
    using hex_digits [of "unat w"] lt by (simp add: hex_digits_value_def hex_char_value a_def b_def c_def d_def)
  have comma: "hex_value (CHR '','') = None" by (simp add: hex_value_def)
  have "take 2 (map hex_char [a, b, c, d] @ CHR '','' # r) = [hex_char a, hex_char b]" by simp
  moreover have "[hex_char a, hex_char b] \<noteq> ''0x''" "[hex_char a, hex_char b] \<noteq> ''0X''" using hex_char_plain [OF lt(2)] by auto
  ultimately show ?thesis
    unfolding scan_hex_def s
    using hex_char_plain [OF lt(1)] hex_char_plain [OF lt(2)] lt val comma by (simp add: hex_char_value)
qed

section \<open>The round trip\<close>

lemma count_cells_panes: "layout_count_cells c = length (layout_panes c)"
  by (induction c) (simp add: length_concat, metis (mono_tags, lifting) comp_apply map_eq_conv)

lemma bare_simps [simp]: "lc_data (bare c) = (lc_data c)\<lparr>lc_wp := None\<rparr>" "lc_cells (bare c) = map bare (lc_cells c)"
  by (cases c; simp)+

lemma count_cells_bare [simp]: "layout_count_cells (bare c) = layout_count_cells c"
  by (induction c) (simp, metis (mono_tags, lifting) comp_apply map_eq_conv)

lemma check_bare [simp]: "layout_check (bare c) = layout_check c"
  by (induction c) (auto simp: comp_def split: layout_type.splits)

lemma fix_root_size_good:
  assumes "layout_check c" "lc_type (lc_data c) \<noteq> LAYOUT_FLOATING" "lc_type (lc_data c) \<noteq> LAYOUT_WINDOWPANE \<Longrightarrow> lc_cells c \<noteq> []"
  shows "fix_root_size c = c"
proof -
  obtain d cs where c: "c = Cell d cs" by (cases c)
  have l: "cs \<noteq> [] \<Longrightarrow> last cs \<in> set cs" by simp
  show ?thesis
    using assms l unfolding c
    by (cases "lc_type d") (auto simp: fix_root_size_def children_size_def)
qed

lemma assign_cells_bare:
  assumes "\<And>c r. c \<in> set cs \<Longrightarrow> layout_assign (map the (layout_panes c) @ r) (bare c) = Some (r, c)"
  shows "assign_cells (concat (map (\<lambda>c. map the (layout_panes c)) cs) @ r) (map bare cs) = Some (r, cs)"
  using assms by (induction cs) simp_all

lemma assign_bare:
  "dumpable c \<Longrightarrow> layout_assign (map the (layout_panes c) @ r) (bare c) = Some (r, c)"
proof (induction c arbitrary: r)
  case (Cell d cs)
  show ?case
  proof (cases "lc_type d = LAYOUT_WINDOWPANE")
    case True
    moreover have "d\<lparr>lc_type := LAYOUT_WINDOWPANE, lc_wp := lc_wp d\<rparr> = d" using True by (cases d) simp
    ultimately show ?thesis using Cell(2) by (auto simp: layout_make_leaf_def)
  next
    case False
    with Cell have "assign_cells (concat (map (\<lambda>c. map the (layout_panes c)) cs) @ r) (map bare cs) = Some (r, cs)"
      by (intro assign_cells_bare) auto
    moreover have "d\<lparr>lc_wp := None\<rparr> = d" using False Cell(2) by (cases d) simp
    ultimately show ?thesis using False by (simp add: map_concat comp_def)
  qed
qed

text \<open>
  C23. A layout string restores the layout: what \<^verbatim>\<open>layout_dump\<close> writes for a tree of cells whose
  sizes add up, \<^verbatim>\<open>layout_parse\<close> reads, in a window with the same panes in order, as the same tree
  with the same panes in the same cells (with the offsets computed from the sizes), whatever the
  size of the window, which is resized to the size of the layout. The checksum, the numbers and
  the brackets of the string never make the parser fail on such a string.
\<close>

theorem layout_roundtrip:
  assumes "dumpable root" "layout_check root" "layout_dump [] (Some root) = Some s"
    "map Some wps = layout_panes root"
  shows "\<exists>r. layout_parse env wsx wsy wps s = Parsed r \<and> pr_root r = layout_fix_offsets root \<and>
    pr_floating r = []"
proof -
  obtain buf where buf: "layout_append 8192 root [] = Some buf"
    "s = show_hex4 (layout_checksum buf) @ CHR '','' # buf"
    using assms(3) by (auto simp: layout_dump_def append_cell_def Let_def split: option.splits)
  have b: "buf = show_tree root" using layout_append_show(1) [OF assms(1) buf(1)] by simp
  have len: "length s - length buf = 5" by (simp add: buf(2) show_hex4_def)
  have con: "layout_construct (2 * length buf + 2) buf None = Parsed (Some (bare root), None, [])"
    using construct_show(1) [OF assms(1), of "[]" "2 * length buf + 2" None] b by simp
  have ty: "lc_type (lc_data root) \<noteq> LAYOUT_FLOATING" "lc_type (lc_data root) \<noteq> LAYOUT_WINDOWPANE \<Longrightarrow> lc_cells root \<noteq> []"
    using assms(1) by (cases root; auto split: if_splits)+
  have fixed: "fix_root_size (bare root) = bare root" using fix_root_size_good [of "bare root"] assms(2) ty by simp
  have wps: "map the (layout_panes root) = wps" "length wps = layout_count_cells root"
    using assms(4) by (simp flip: assms(4) add: comp_def) (metis assms(4) count_cells_panes length_map)
  have asg: "layout_assign wps (bare root) = Some ([], root)" using assign_bare [OF assms(1), of "[]"] wps(1) by simp
  obtain sx sy where cs: "children_size (bare root) = (sx, sy)" by (cases "children_size (bare root)")
  show ?thesis
    unfolding layout_parse_def buf(2) scan_hex_show
    using len buf(2) con ty fixed wps(2) asg assms(2) cs by (simp add: Let_def)
qed

text \<open>A window of twelve columns with two panes.\<close>

definition demo_pair :: layout_cell where
  "demo_pair = demo_node LAYOUT_LEFTRIGHT 12 3 [demo_leaf 7 6 3, demo_leaf 9 5 3]"

lemma demo_hex: "show_hex4 0x6da5 = ''6da5''" "show_hex4 0xa91c = ''a91c''"
proof -
  have "hex_char 6 = CHR ''6''" "hex_char 13 = CHR ''d''" "hex_char 10 = CHR ''a''" "hex_char 5 = CHR ''5''"
    "hex_char 9 = CHR ''9''" "hex_char (Suc 0) = CHR ''1''" "hex_char 12 = CHR ''c''" by code_simp+
  then show "show_hex4 0x6da5 = ''6da5''" "show_hex4 0xa91c = ''a91c''" by (simp_all add: show_hex4_def)
qed

lemma demo_pair_append: "layout_append 8192 demo_pair [] = Some ''12x3,0,0{6x3,0,0,7,5x3,0,0,9}''"
proof -
  have cells: "show_cell (lc_data demo_pair) = ''12x3,0,0''" "show_cell (lc_data (demo_leaf 7 6 3)) = ''6x3,0,0,7''"
    "show_cell (lc_data (demo_leaf 9 5 3)) = ''5x3,0,0,9''" by code_simp+
  have leaf: "layout_append 8192 (demo_leaf 7 6 3) b = cat 8192 b ''6x3,0,0,7''"
    "layout_append 8192 (demo_leaf 9 5 3) b = cat 8192 b ''5x3,0,0,9''" for b
    using cells(2,3) by (simp_all add: demo_leaf_def split: option.splits)
  have "layout_append 8192 demo_pair [] =
      map_option (\<lambda>b. set_last b (CHR ''}'')) (append_children 8192 [demo_leaf 7 6 3, demo_leaf 9 5 3] ''12x3,0,0{'')"
    using cells(1) by (simp add: demo_pair_def demo_node_def cat_def)
  also have "append_children 8192 [demo_leaf 7 6 3, demo_leaf 9 5 3] ''12x3,0,0{'' = Some ''12x3,0,0{6x3,0,0,7,5x3,0,0,9,''"
    by (simp add: leaf cat_def)
  finally show ?thesis by (simp add: set_last_def)
qed

theorem layout_roundtrip_witness:
  "layout_dump [] (Some demo_pair) = Some ''6da5,12x3,0,0{6x3,0,0,7,5x3,0,0,9}'' \<and>
   (\<exists>r. layout_parse demo_env 80 24 [7, 9] ''6da5,12x3,0,0{6x3,0,0,7,5x3,0,0,9}'' = Parsed r \<and>
     pr_root r = layout_fix_offsets demo_pair \<and> pr_floating r = [])"
proof -
  have "layout_checksum ''12x3,0,0{6x3,0,0,7,5x3,0,0,9}'' = 0x6da5" by code_simp
  then have d: "layout_dump [] (Some demo_pair) = Some ''6da5,12x3,0,0{6x3,0,0,7,5x3,0,0,9}''"
    by (simp add: layout_dump_def append_cell_def demo_pair_append demo_hex)
  have "dumpable demo_pair" "layout_check demo_pair" "map Some [7, 9] = layout_panes demo_pair"
    by (simp_all add: demo_pair_def demo_node_def demo_leaf_def)
  from layout_roundtrip [OF this(1,2) d this(3)] d show ?thesis by blast
qed

section \<open>Strings that are not dumps of a tree\<close>

lemma cat_trunc_prefix: "\<exists>t. cat_trunc len buf s = buf @ t"
  by (auto simp: cat_trunc_def)

lemma append_floating_prefix:
  "append_floating len True (map Some cs) buf = Some (b, buf') \<Longrightarrow> \<forall>c \<in> set cs. dumpable c \<Longrightarrow> b \<and> (\<exists>t. buf' = buf @ t)"
proof (induction cs arbitrary: buf)
  case (Cons c cs)
  then obtain buf1 where b1: "layout_append len c buf = Some buf1"
    "append_floating len True (map Some cs) (cat_trunc len buf1 '','') = Some (b, buf')" by (auto simp: append_cell_def split: option.splits)
  obtain t where "cat_trunc len buf1 '','' = buf1 @ t" using cat_trunc_prefix by blast
  then show ?case using Cons.IH [OF b1(2)] Cons.prems(2) layout_append_show(1) [OF _ b1(1)] by auto
qed simp

lemma show_tree_not_empty: "show_tree c \<noteq> []"
  using show_cell_not_empty by (cases c) simp

text \<open>With floating panes the dump goes on with \<open><\<close> after the root.\<close>

lemma dump_floating_shape:
  assumes "dumpable root" "floating \<noteq> []" "\<forall>c \<in> set floating. dumpable c" "layout_dump (map Some floating) (Some root) = Some s"
  shows "\<exists>t. s = show_hex4 (layout_checksum (show_tree root @ CHR ''<'' # t)) @ CHR '','' # show_tree root @ CHR ''<'' # t"
proof -
  obtain f fs where fs: "floating = f # fs" using assms(2) by (cases floating) auto
  let ?b1 = "cat_trunc 8192 (show_tree root) ''<''"
  obtain b2 br b3 where b: "layout_append 8192 f ?b1 = Some b2"
    "append_floating 8192 True (map Some fs) (cat_trunc 8192 b2 '','') = Some (br, b3)"
    "s = show_hex4 (layout_checksum (if br then set_last b3 (CHR ''>'') else b3)) @ CHR '','' #
       (if br then set_last b3 (CHR ''>'') else b3)"
    using assms(4) layout_append_show(1) [OF assms(1), of 8192 "[]"]
    by (fastforce simp: layout_dump_def append_cell_def fs Let_def split: option.splits)
  have b2: "b2 = ?b1 @ show_tree f" using layout_append_show(1) [OF _ b(1)] assms(3) fs by simp
  obtain t where br: "br" "b3 = b2 @ t"
    using append_floating_prefix [OF b(2)] cat_trunc_prefix [of 8192 b2 "'',''"] assms(3) fs by auto
  have "length ?b1 + length (show_cell (lc_data f)) < 8192"
    using b(1) by (cases f) (auto simp: cat_def split: if_splits option.splits)
  moreover have "0 < length (show_cell (lc_data f))" using show_cell_not_empty by blast
  ultimately have "length ?b1 < 8191" by linarith
  then have "?b1 = show_tree root @ ''<''" by (auto simp: cat_trunc_def split: if_splits)
  then have "set_last b3 (CHR ''>'') = show_tree root @ CHR ''<'' # set_last (show_tree f @ t) (CHR ''>'')"
    using b2 br(2) show_tree_not_empty [of f] by (simp add: set_last_def butlast_append)
  then show ?thesis using b(3) br(1) by auto
qed

text \<open>
  C24. A layout with floating panes is lost: when the tiled panes of a window are more than one, the
  string \<^verbatim>\<open>layout_dump\<close> writes with the cells of the floating panes after the root is refused by
  \<^verbatim>\<open>layout_parse\<close>, in every window, since the parser of a node stops after its closing bracket and
  takes what follows for garbage. (A pane closed beside a floating one cannot be put back.)
\<close>

theorem layout_dump_floating_refused:
  assumes "dumpable root" "lc_type (lc_data root) \<noteq> LAYOUT_WINDOWPANE" "floating \<noteq> []"
    "\<forall>c \<in> set floating. dumpable c" "layout_dump (map Some floating) (Some root) = Some s"
  shows "layout_parse env wsx wsy wps s = Failed False"
proof -
  obtain t where s: "s = show_hex4 (layout_checksum (show_tree root @ CHR ''<'' # t)) @ CHR '','' # show_tree root @ CHR ''<'' # t"
    using dump_floating_shape [OF assms(1,3,4,5)] by blast
  define u where "u = show_tree root @ CHR ''<'' # t"
  have len: "length s - length u = 5" by (simp add: s u_def show_hex4_def)
  have con: "layout_construct (2 * length u + 2) u None = Parsed (Some (bare root), None, CHR ''<'' # t)"
    using construct_show(1) [OF assms(1), of "CHR ''<'' # t" "2 * length u + 2" None] assms(2) by (simp add: u_def)
  show ?thesis unfolding layout_parse_def s [folded u_def] scan_hex_show
    using len s con by (simp add: Let_def flip: u_def)
qed

theorem layout_dump_floating_refused_witness:
  "layout_dump [Some (demo_leaf 4 2 2)] (Some demo_pair) = Some ''a91c,12x3,0,0{6x3,0,0,7,5x3,0,0,9}<2x2,0,0,4>'' \<and>
   layout_parse demo_env 12 3 [7, 9, 4] ''a91c,12x3,0,0{6x3,0,0,7,5x3,0,0,9}<2x2,0,0,4>'' = Failed False"
proof -
  have root: "layout_append 8192 demo_pair [] = Some ''12x3,0,0{6x3,0,0,7,5x3,0,0,9}''" by (rule demo_pair_append)
  have leaf: "layout_append 8192 (demo_leaf 4 2 2) b = cat 8192 b ''2x2,0,0,4''" for b
  proof -
    have "show_cell (lc_data (demo_leaf 4 2 2)) = ''2x2,0,0,4''" by code_simp
    then show ?thesis by (simp add: demo_leaf_def split: option.splits)
  qed
  have "layout_checksum ''12x3,0,0{6x3,0,0,7,5x3,0,0,9}<2x2,0,0,4>'' = 0xa91c" by code_simp
  then have d: "layout_dump [Some (demo_leaf 4 2 2)] (Some demo_pair) = Some ''a91c,12x3,0,0{6x3,0,0,7,5x3,0,0,9}<2x2,0,0,4>''"
    by (simp add: layout_dump_def append_cell_def root leaf cat_def cat_trunc_def set_last_def demo_hex)
  have "dumpable demo_pair" "lc_type (lc_data demo_pair) \<noteq> LAYOUT_WINDOWPANE" "\<forall>c \<in> set [demo_leaf 4 2 2]. dumpable c"
    by (simp_all add: demo_pair_def demo_node_def demo_leaf_def)
  from layout_dump_floating_refused [OF this(1,2) _ this(3), of _ demo_env 12 3 "[7, 9, 4]"] d show ?thesis by simp
qed

text \<open>
  A layout string from outside can make the parser go wrong: with a right checksum, a bracket
  without a cell before it makes \<^verbatim>\<open>layout_construct\<close> set the type of a null pointer, and floating
  cells in a node that is not closed, two levels down, are freed once at each level.
\<close>

theorem layout_parse_undefined:
  "layout_parse env wsx wsy wps ''007b,{'' = Undefined \<and>
   layout_parse env wsx wsy wps ''2b2d,1x1,0,0{1x1,0,0{1x1,0,0<1x1,0,0>'' = Undefined"
proof
  show "layout_parse env wsx wsy wps ''007b,{'' = Undefined" by code_simp
  have "scan_hex ''2b2d,1x1,0,0{1x1,0,0{1x1,0,0<1x1,0,0>'' = Some (0x2b2d, '',1x1,0,0{1x1,0,0{1x1,0,0<1x1,0,0>'')"
    by code_simp
  moreover have "layout_checksum ''1x1,0,0{1x1,0,0{1x1,0,0<1x1,0,0>'' = 0x2b2d" by code_simp
  moreover have "layout_construct (2 * length ''1x1,0,0{1x1,0,0{1x1,0,0<1x1,0,0>'' + 2)
      ''1x1,0,0{1x1,0,0{1x1,0,0<1x1,0,0>'' None = Undefined" by code_simp
  ultimately show "layout_parse env wsx wsy wps ''2b2d,1x1,0,0{1x1,0,0{1x1,0,0<1x1,0,0>'' = Undefined"
    by (simp add: layout_parse_def del: layout_construct.simps)
qed

end
