(* ===== verification/Server.thy ===== *)
theory Server
  imports Winlink Layout_Custom Grid
begin

text \<open>
  The state of the server: its sessions, session groups, windows and panes (\<^verbatim>\<open>tmux.h\<close>), with the
  counters that name new ones. Windows, panes and sessions are identified by their ids, winlinks
  by their addresses; the lists of a window hold pane ids, and a pane knows the id of its window.
  The cell of a tiled pane is the leaf of its window's layout with its id; a floating pane has a
  cell of its own.

  The values of the options that the code reads are fields of the object that has them. Clients,
  timers, terminals and the references that clients hold on sessions are not part of the state.
\<close>

section \<open>Objects\<close>

record screen =
  sc_grid :: grid
  sc_saved_grid :: "grid option"

datatype pane_mode = Copy_mode | View_mode | Other_mode

text \<open>
  \<^verbatim>\<open>wp_argv\<close> is the command line as \<^verbatim>\<open>cmd_stringify_argv\<close> writes it, \<^verbatim>\<open>wp_dirty\<close> the option
  \<^verbatim>\<open>@newmux-dirty\<close>, if it is set on the pane.
\<close>

record pane =
  wp_active_point :: nat
  wp_window :: nat
  wp_cell :: "lcell option"
  wp_sx :: u32
  wp_sy :: u32
  wp_xoff :: u32
  wp_yoff :: u32
  wp_flags :: u32
  wp_argc :: nat
  wp_argv :: "string option"
  wp_shell :: "string option"
  wp_fd :: int
  wp_base :: screen
  wp_modes :: "pane_mode list"
  wp_sb_width :: int
  wp_sb_pad :: int
  wp_dirty :: "string option"

definition PANE_VISITED :: u32 where "PANE_VISITED = 0x8"
definition PANE_ZOOMED :: u32 where "PANE_ZOOMED = 0x10"
definition PANE_FLOATING :: u32 where "PANE_FLOATING = 0x20"
definition PANE_REDRAWSCROLLBAR :: u32 where "PANE_REDRAWSCROLLBAR = 0x8000"
definition PANE_NEWMUX_HISTORY_PROTECTED :: u32 where "PANE_NEWMUX_HISTORY_PROTECTED = 0x10000"

record window =
  w_name :: string
  w_active :: "nat option"
  w_last_panes :: "nat list"
  w_z_index :: "nat list"
  w_panes :: "nat list"
  w_layout_root :: "layout_cell option"
  w_saved_layout_root :: "layout_cell option"
  w_sx :: u32
  w_sy :: u32
  w_xpixel :: u32
  w_ypixel :: u32
  w_flags :: u32
  w_references :: nat
  w_pane_base_index :: nat
  w_border_status :: pane_status
  w_scrollbars :: nat
  w_scrollbars_left :: bool

definition WINDOW_ALERTFLAGS :: u32 where "WINDOW_ALERTFLAGS = 7"
definition WINDOW_ZOOMED :: u32 where "WINDOW_ZOOMED = 0x8"
definition WINDOW_WASZOOMED :: u32 where "WINDOW_WASZOOMED = 0x10"

record session =
  s_id :: nat
  s_name :: string
  s_cwd :: string
  s_curw :: "nat option"
  s_lastw :: "nat list"
  s_windows :: winlinks
  s_base_index :: int
  s_renumber :: bool

text \<open>A session group has a name and the sessions in it in order.\<close>

type_synonym session_group = "string \<times> nat list"

record server =
  sessions :: "session list"
  session_groups :: "session_group list"
  windows :: "nat \<rightharpoonup> window"
  panes :: "nat \<rightharpoonup> pane"
  next_session_id :: nat
  next_window_id :: nat
  next_winlink :: nat
  next_active_point :: nat
  marked_wl :: "nat option"
  marked_wp :: "nat option"
  utf8_items_table :: utf8_table

text \<open>
  What the operations rely on outside the code modelled: what the operating system tells of a
  pane's process, the resizing of a screen (\<^verbatim>\<open>screen_resize\<close>, with the flag that asks for a
  reflow), the fitting of the windows to the clients (\<^verbatim>\<open>recalculate_sizes\<close>), and objects with the
  global values of the options, which new sessions and windows start from.
\<close>

record host =
  osdep_get_name :: "pane \<Rightarrow> string option"
  screen_resize :: "screen \<Rightarrow> u32 \<Rightarrow> u32 \<Rightarrow> bool \<Rightarrow> screen"
  recalculate_sizes :: "server \<Rightarrow> server"
  new_session_options :: session
  new_window_options :: window

section \<open>Updates\<close>

definition upd_pane :: "nat \<Rightarrow> (pane \<Rightarrow> pane) \<Rightarrow> server \<Rightarrow> server" where
  "upd_pane p f st = st\<lparr>panes := (panes st)(p := map_option f (panes st p))\<rparr>"

definition upd_window :: "nat \<Rightarrow> (window \<Rightarrow> window) \<Rightarrow> server \<Rightarrow> server" where
  "upd_window w f st = st\<lparr>windows := (windows st)(w := map_option f (windows st w))\<rparr>"

definition upd_session :: "nat \<Rightarrow> (session \<Rightarrow> session) \<Rightarrow> server \<Rightarrow> server" where
  "upd_session i f st = st\<lparr>sessions := map (\<lambda>s. if s_id s = i then f s else s) (sessions st)\<rparr>"

definition the_session :: "server \<Rightarrow> nat \<Rightarrow> session option" where
  "the_session st i = find (\<lambda>s. s_id s = i) (sessions st)"

abbreviation set_flag :: "u32 \<Rightarrow> u32 \<Rightarrow> u32" where
  "set_flag m f \<equiv> f OR m"

abbreviation clear_flag :: "u32 \<Rightarrow> u32 \<Rightarrow> u32" where
  "clear_flag m f \<equiv> f AND NOT m"

abbreviation has_flag :: "u32 \<Rightarrow> u32 \<Rightarrow> bool" where
  "has_flag m f \<equiv> f AND m \<noteq> 0"

lemma upd_pane_simps [simp]:
  "panes (upd_pane p f st) q = (if q = p then map_option f (panes st p) else panes st q)"
  "windows (upd_pane p f st) = windows st" "sessions (upd_pane p f st) = sessions st"
  "session_groups (upd_pane p f st) = session_groups st" "next_session_id (upd_pane p f st) = next_session_id st"
  "next_window_id (upd_pane p f st) = next_window_id st" "next_winlink (upd_pane p f st) = next_winlink st"
  "marked_wl (upd_pane p f st) = marked_wl st" "marked_wp (upd_pane p f st) = marked_wp st"
  "utf8_items_table (upd_pane p f st) = utf8_items_table st"
  by (simp_all add: upd_pane_def)

lemma upd_window_simps [simp]:
  "windows (upd_window w f st) v = (if v = w then map_option f (windows st w) else windows st v)"
  "panes (upd_window w f st) = panes st" "sessions (upd_window w f st) = sessions st"
  "session_groups (upd_window w f st) = session_groups st" "next_session_id (upd_window w f st) = next_session_id st"
  "next_window_id (upd_window w f st) = next_window_id st" "next_winlink (upd_window w f st) = next_winlink st"
  "marked_wl (upd_window w f st) = marked_wl st" "marked_wp (upd_window w f st) = marked_wp st"
  "utf8_items_table (upd_window w f st) = utf8_items_table st"
  by (simp_all add: upd_window_def)

lemma upd_session_simps [simp]:
  "windows (upd_session i f st) = windows st" "panes (upd_session i f st) = panes st"
  "session_groups (upd_session i f st) = session_groups st" "next_session_id (upd_session i f st) = next_session_id st"
  "next_window_id (upd_session i f st) = next_window_id st" "next_winlink (upd_session i f st) = next_winlink st"
  "marked_wl (upd_session i f st) = marked_wl st" "marked_wp (upd_session i f st) = marked_wp st"
  "utf8_items_table (upd_session i f st) = utf8_items_table st"
  "sessions (upd_session i f st) = map (\<lambda>s. if s_id s = i then f s else s) (sessions st)"
  by (simp_all add: upd_session_def)

lemma the_session_upd [simp]:
  assumes "\<And>s. s_id (f s) = s_id s"
  shows "the_session (upd_session i f st) j = (if j = i then map_option f (the_session st i) else the_session st j)"
proof -
  have "find (\<lambda>s. s_id s = j) (map (\<lambda>s. if s_id s = i then f s else s) xs) =
      (if j = i then map_option f (find (\<lambda>s. s_id s = i) xs) else find (\<lambda>s. s_id s = j) xs)" for xs
    using assms by (induction xs) auto
  then show ?thesis by (simp add: the_session_def)
qed

lemma the_session_frame [simp]:
  "the_session (upd_pane p g st) j = the_session st j" "the_session (upd_window w h st) j = the_session st j"
  "the_session (st\<lparr>next_winlink := n\<rparr>) j = the_session st j" "the_session (st\<lparr>panes := ps\<rparr>) j = the_session st j"
  "the_session (st\<lparr>windows := ws\<rparr>) j = the_session st j" "the_session (st\<lparr>session_groups := gs\<rparr>) j = the_session st j"
  "the_session (st\<lparr>next_active_point := n\<rparr>) j = the_session st j"
  by (simp_all add: the_session_def)

lemma the_session_id: "the_session st i = Some s \<Longrightarrow> s_id s = i"
  by (auto simp: the_session_def dest: find_SomeD)

end
