(* ===== verification/Window.thy ===== *)
theory Window
  imports Server
begin

text \<open>
  The windows of \<^verbatim>\<open>windows/window.c\<close>: the list of panes, the active pane and the stack of panes that
  were active before, zooming, references and destruction, and the part of \<^verbatim>\<open>windows/layout.c\<close>
  that gives the panes the places of their cells. \<open>None\<close> as the result of an operation is a
  crash: a null pointer, or an adjustment of the layout that does not end.
\<close>

section \<open>The stack of last panes\<close>

definition window_pane_stack_remove :: "nat \<Rightarrow> nat option \<Rightarrow> server \<Rightarrow> server" where
  "window_pane_stack_remove w wpo st =
     (case wpo of None \<Rightarrow> st
      | Some p \<Rightarrow>
          (case panes st p of None \<Rightarrow> st
           | Some wp \<Rightarrow>
               if has_flag PANE_VISITED (wp_flags wp)
               then upd_pane p (wp_flags_update (clear_flag PANE_VISITED))
                      (upd_window w (w_last_panes_update (remove1 p)) st)
               else st))"

definition window_pane_stack_push :: "nat \<Rightarrow> nat option \<Rightarrow> server \<Rightarrow> server" where
  "window_pane_stack_push w wpo st =
     (case wpo of None \<Rightarrow> st
      | Some p \<Rightarrow>
          upd_pane p (wp_flags_update (set_flag PANE_VISITED))
            (upd_window w (w_last_panes_update ((#) p)) (window_pane_stack_remove w wpo st)))"

section \<open>Lookup\<close>

definition window_has_pane :: "window \<Rightarrow> nat \<Rightarrow> bool" where
  "window_has_pane win p \<longleftrightarrow> p \<in> set (w_panes win)"

definition is_floating :: "server \<Rightarrow> nat \<Rightarrow> bool" where
  "is_floating st p = (case panes st p of None \<Rightarrow> False | Some wp \<Rightarrow> has_flag PANE_FLOATING (wp_flags wp))"

definition window_has_floating_panes :: "server \<Rightarrow> window \<Rightarrow> bool" where
  "window_has_floating_panes st win = list_ex (is_floating st) (w_panes win)"

definition window_count_panes :: "server \<Rightarrow> window \<Rightarrow> bool \<Rightarrow> nat" where
  "window_count_panes st win with_floating =
     length (filter (\<lambda>p. with_floating \<or> \<not> is_floating st p) (w_panes win))"

definition window_pane_at_index :: "window \<Rightarrow> nat \<Rightarrow> nat option" where
  "window_pane_at_index win idx =
     (if w_pane_base_index win \<le> idx \<and> idx - w_pane_base_index win < length (w_panes win)
      then Some (w_panes win ! (idx - w_pane_base_index win)) else None)"

text \<open>The loop of \<^verbatim>\<open>window_pane_index\<close>: the result and the value it leaves in the variable.\<close>

fun pane_index_from :: "nat \<Rightarrow> nat list \<Rightarrow> nat \<Rightarrow> bool \<times> nat" where
  "pane_index_from i [] p = (False, i)"
| "pane_index_from i (q # qs) p = (if q = p then (True, i) else pane_index_from (Suc i) qs p)"

definition window_pane_index :: "window \<Rightarrow> nat \<Rightarrow> bool \<times> nat" where
  "window_pane_index win p = pane_index_from (w_pane_base_index win) (w_panes win) p"

abbreviation tailq_next :: "nat list \<Rightarrow> nat \<Rightarrow> nat option" where
  "tailq_next xs p \<equiv> rb_next id p xs"

abbreviation tailq_prev :: "nat list \<Rightarrow> nat \<Rightarrow> nat option" where
  "tailq_prev xs p \<equiv> rb_prev id p xs"

fun window_pane_next_by_number :: "window \<Rightarrow> nat option \<Rightarrow> nat \<Rightarrow> nat option" where
  "window_pane_next_by_number win wp 0 = wp"
| "window_pane_next_by_number win wp (Suc n) =
     window_pane_next_by_number win
       (case wp of None \<Rightarrow> None
        | Some p \<Rightarrow> (case tailq_next (w_panes win) p of None \<Rightarrow> rb_min (w_panes win) | q \<Rightarrow> q)) n"

fun window_pane_previous_by_number :: "window \<Rightarrow> nat option \<Rightarrow> nat \<Rightarrow> nat option" where
  "window_pane_previous_by_number win wp 0 = wp"
| "window_pane_previous_by_number win wp (Suc n) =
     window_pane_previous_by_number win
       (case wp of None \<Rightarrow> None
        | Some p \<Rightarrow> (case tailq_prev (w_panes win) p of None \<Rightarrow> rb_max (w_panes win) | q \<Rightarrow> q)) n"

section \<open>The places of the panes\<close>

text \<open>The leaves of a layout with the edges of the window they touch.\<close>

fun leaves :: "edges \<Rightarrow> layout_cell \<Rightarrow> (edges \<times> lcell) list"
  and leaves_cells :: "edges \<Rightarrow> layout_type \<Rightarrow> nat \<Rightarrow> nat \<Rightarrow> layout_cell list \<Rightarrow> (edges \<times> lcell) list" where
  "leaves e (Cell d cs) =
     (if lc_type d = LAYOUT_WINDOWPANE then [(e, d)] else leaves_cells e (lc_type d) 0 (length cs) cs)"
| "leaves_cells e type i n [] = []"
| "leaves_cells e type i n (c # cs) = leaves (child_edge type i n e) c @ leaves_cells e type (Suc i) n cs"

text \<open>
  \<^verbatim>\<open>wp->layout_cell\<close>: the leaf of the layout; a floating pane has its own cell, which is put away
  with the others while the window is zoomed.
\<close>

definition pane_layout_cell :: "window \<Rightarrow> nat \<Rightarrow> pane \<Rightarrow> (edges \<times> lcell) option" where
  "pane_layout_cell win p wp =
     (case (case w_layout_root win of None \<Rightarrow> None
            | Some root \<Rightarrow> find (\<lambda>(e, d). lc_wp d = Some p) (leaves root_edges root)) of
        Some ed \<Rightarrow> Some ed
      | None \<Rightarrow> if has_flag WINDOW_ZOOMED (w_flags win) then None
               else map_option (Pair root_edges) (wp_cell wp))"

definition window_pane_mode :: "pane \<Rightarrow> nat" where
  "window_pane_mode wp = (case wp_modes wp of Copy_mode # _ \<Rightarrow> 1 | View_mode # _ \<Rightarrow> 2 | _ \<Rightarrow> 0)"

definition window_pane_show_scrollbar :: "pane \<Rightarrow> nat \<Rightarrow> bool" where
  "window_pane_show_scrollbar wp sb_option \<longleftrightarrow>
     sc_saved_grid (wp_base wp) = None \<and>
     (sb_option = 2 \<or> sb_option = 1 \<and> window_pane_mode wp \<noteq> 0)"

text \<open>Resizing the screen; the queue of sizes to tell the process and the pane's mode are left out.\<close>

definition window_pane_resize :: "host \<Rightarrow> u32 \<Rightarrow> u32 \<Rightarrow> pane \<Rightarrow> pane" where
  "window_pane_resize h sx sy wp =
     (if sx = wp_sx wp \<and> sy = wp_sy wp then wp
      else wp\<lparr>wp_sx := sx, wp_sy := sy,
              wp_base := screen_resize h (wp_base wp) sx sy (sc_saved_grid (wp_base wp) = None)\<rparr>)"

text \<open>The width and the shift of a pane with a scrollbar.\<close>

definition scrollbar_place :: "window \<Rightarrow> pane \<Rightarrow> u32 \<times> u32 \<Rightarrow> u32 \<times> u32" where
  "scrollbar_place win wp place =
     (case place of (xoff, sx) \<Rightarrow>
      let sb_w = (if wp_sb_width wp < 1 then 1 else wp_sb_width wp);
          sb_pad = (if wp_sb_pad wp < 0 then 0 else wp_sb_pad wp)
      in if w_scrollbars_left win then
           (if sint sx - sb_w < 1 then (xoff + sx - PANE_MINIMUM, PANE_MINIMUM)
            else (xoff + of_int sb_w + of_int sb_pad, sx - of_int sb_w - of_int sb_pad))
         else (xoff, if sint sx - sb_w - sb_pad < 1 then PANE_MINIMUM else sx - of_int sb_w - of_int sb_pad))"

definition layout_fix_pane :: "host \<Rightarrow> window \<Rightarrow> edges \<times> lcell \<Rightarrow> pane \<Rightarrow> pane" where
  "layout_fix_pane h win cell wp =
     (case cell of (e, d) \<Rightarrow>
      let border = \<not> has_flag PANE_FLOATING (wp_flags wp) \<and> layout_add_horizontal_border e (w_border_status win);
          yoff = (if border \<and> w_border_status win = PANE_STATUS_TOP then lc_yoff d + 1 else lc_yoff d);
          sy = (if border then lc_sy d - 1 else lc_sy d);
          bar = window_pane_show_scrollbar wp (w_scrollbars win);
          (xoff, sx) = (if bar then scrollbar_place win wp (lc_xoff d, lc_sx d) else (lc_xoff d, lc_sx d));
          wp1 = wp\<lparr>wp_xoff := xoff, wp_yoff := yoff,
                   wp_flags := (if bar then set_flag PANE_REDRAWSCROLLBAR (wp_flags wp) else wp_flags wp)\<rparr>
      in window_pane_resize h sx sy wp1)"

definition layout_fix_panes :: "host \<Rightarrow> nat \<Rightarrow> server \<Rightarrow> server" where
  "layout_fix_panes h w st =
     (case windows st w of None \<Rightarrow> st
      | Some win \<Rightarrow>
          fold (\<lambda>p. upd_pane p (\<lambda>wp. case pane_layout_cell win p wp of None \<Rightarrow> wp | Some cell \<Rightarrow> layout_fix_pane h win cell wp))
            (w_panes win) st)"

text \<open>The options of the window and the scrollbar style of its active pane; \<open>None\<close> without one.\<close>

definition window_env :: "server \<Rightarrow> window \<Rightarrow> layout_env option" where
  "window_env st win =
     (case w_active win of None \<Rightarrow> None
      | Some p \<Rightarrow>
          map_option (\<lambda>wp. \<lparr>pane_border_status = w_border_status win, pane_scrollbars = (w_scrollbars win \<noteq> 0),
              sb_width = of_int (wp_sb_width wp), sb_pad = of_int (wp_sb_pad wp)\<rparr>) (panes st p))"

definition window_layout_init :: "host \<Rightarrow> nat \<Rightarrow> nat \<Rightarrow> server \<Rightarrow> server" where
  "window_layout_init h w p st =
     layout_fix_panes h w
       (upd_window w (\<lambda>win. win\<lparr>w_layout_root := Some (layout_init (w_sx win) (w_sy win) p)\<rparr>) st)"

text \<open>\<^verbatim>\<open>layout_close_pane\<close> for a pane of the window \<open>w\<close>.\<close>

definition window_close_pane :: "host \<Rightarrow> nat \<Rightarrow> nat \<Rightarrow> server \<Rightarrow> server option" where
  "window_close_pane h w p st =
     (case (windows st w, panes st p) of
        (Some win, Some wp) \<Rightarrow>
          (case pane_layout_cell win p wp of None \<Rightarrow> Some st
           | Some _ \<Rightarrow>
               (if has_flag PANE_FLOATING (wp_flags wp)
                then Some (layout_fix_panes h w
                       (upd_window w (w_layout_root_update (map_option layout_fix_offsets))
                         (upd_pane p (wp_cell_update (\<lambda>_. None)) st)))
                else (case w_layout_root win of None \<Rightarrow> None
                      | Some (Cell d cs) \<Rightarrow>
                          if lc_type d = LAYOUT_WINDOWPANE then Some (upd_window w (w_layout_root_update (\<lambda>_. None)) st)
                          else (case window_env st win of None \<Rightarrow> None
                                | Some env \<Rightarrow>
                                    map_option (\<lambda>root'. layout_fix_panes h w (upd_window w (w_layout_root_update (\<lambda>_. root')) st))
                                      (layout_close_pane env p (Cell d cs))))))
      | _ \<Rightarrow> None)"

section \<open>Zooming\<close>

definition window_unzoom :: "host \<Rightarrow> nat \<Rightarrow> server \<Rightarrow> bool \<times> server" where
  "window_unzoom h w st =
     (case windows st w of None \<Rightarrow> (False, st)
      | Some win \<Rightarrow>
          if \<not> has_flag WINDOW_ZOOMED (w_flags win) then (False, st)
          else (True, layout_fix_panes h w
                 (fold (\<lambda>p. upd_pane p (wp_flags_update (clear_flag PANE_ZOOMED))) (w_panes win)
                   (upd_window w (\<lambda>win. win\<lparr>w_flags := clear_flag WINDOW_ZOOMED (w_flags win),
                      w_layout_root := w_saved_layout_root win, w_saved_layout_root := None\<rparr>) st))))"

definition window_set_active_pane :: "host \<Rightarrow> nat \<Rightarrow> nat \<Rightarrow> server \<Rightarrow> bool \<times> server" where
  "window_set_active_pane h w p st =
     (case windows st w of None \<Rightarrow> (False, st)
      | Some win \<Rightarrow>
          if w_active win = Some p then (False, st)
          else
            (let st1 = snd (window_unzoom h w st);
                 st2 = window_pane_stack_push w (w_active win) (window_pane_stack_remove w (Some p) st1);
                 st3 = upd_window w (w_active_update (\<lambda>_. Some p)) st2
             in (True, (upd_pane p (\<lambda>wp. wp\<lparr>wp_active_point := next_active_point st,
                    wp_flags := set_flag PANE_CHANGED (wp_flags wp)\<rparr>) st3)
                  \<lparr>next_active_point := next_active_point st + 1\<rparr>)))"

definition window_zoom :: "host \<Rightarrow> nat \<Rightarrow> nat \<Rightarrow> server \<Rightarrow> bool \<times> server" where
  "window_zoom h w p st =
     (case windows st w of None \<Rightarrow> (False, st)
      | Some win \<Rightarrow>
          if has_flag WINDOW_ZOOMED (w_flags win) then (False, st)
          else if window_count_panes st win True = 1 then (False, st)
          else
            (let st1 = snd (window_set_active_pane h w p st);
                 st2 = upd_pane p (wp_flags_update (set_flag PANE_ZOOMED)) st1;
                 st3 = upd_window w (\<lambda>win. win\<lparr>w_saved_layout_root := w_layout_root win,
                         w_layout_root := Some (layout_init (w_sx win) (w_sy win) p),
                         w_flags := set_flag WINDOW_ZOOMED (w_flags win)\<rparr>) st2
             in (True, layout_fix_panes h w st3)))"

definition window_push_zoom :: "host \<Rightarrow> nat \<Rightarrow> bool \<Rightarrow> bool \<Rightarrow> server \<Rightarrow> bool \<times> server" where
  "window_push_zoom h w always flag st =
     (case windows st w of None \<Rightarrow> (False, st)
      | Some win \<Rightarrow>
          window_unzoom h w
            (upd_window w (w_flags_update
               (if flag \<and> (always \<or> has_flag WINDOW_ZOOMED (w_flags win)) then set_flag WINDOW_WASZOOMED
                else clear_flag WINDOW_WASZOOMED)) st))"

definition window_pop_zoom :: "host \<Rightarrow> nat \<Rightarrow> server \<Rightarrow> bool \<times> server" where
  "window_pop_zoom h w st =
     (case windows st w of None \<Rightarrow> (False, st)
      | Some win \<Rightarrow>
          if has_flag WINDOW_WASZOOMED (w_flags win)
          then (case w_active win of None \<Rightarrow> (False, st) | Some p \<Rightarrow> window_zoom h w p st) else (False, st))"

section \<open>Losing a pane\<close>

definition server_clear_marked :: "server \<Rightarrow> server" where
  "server_clear_marked st = st\<lparr>marked_wl := None, marked_wp := None\<rparr>"

text \<open>
  \<open>links\<close> is the list that the pane's own links were last part of: the recovery code takes a pane
  from the list of its window first, and its links still lead to its old neighbours.
\<close>

definition window_lost_pane :: "nat list \<Rightarrow> nat \<Rightarrow> nat \<Rightarrow> server \<Rightarrow> server" where
  "window_lost_pane links w p st =
     (let st1 = (if marked_wp st = Some p then server_clear_marked st else st);
          st2 = window_pane_stack_remove w (Some p) st1
      in case windows st2 w of None \<Rightarrow> st2
         | Some win \<Rightarrow>
             if w_active win \<noteq> Some p then st2
             else
               (let active = (case w_last_panes win of q # _ \<Rightarrow> Some q
                              | [] \<Rightarrow> (case tailq_prev links p of Some q \<Rightarrow> Some q | None \<Rightarrow> tailq_next links p));
                    st3 = upd_window w (w_active_update (\<lambda>_. active)) st2
                in case active of None \<Rightarrow> st3
                   | Some q \<Rightarrow> upd_pane q (wp_flags_update (set_flag PANE_CHANGED)) (window_pane_stack_remove w (Some q) st3)))"

text \<open>Taking the pane from the two lists.\<close>

definition window_unlist_pane :: "nat \<Rightarrow> nat \<Rightarrow> server \<Rightarrow> server" where
  "window_unlist_pane w p st =
     upd_window w (\<lambda>win. win\<lparr>w_panes := remove1 p (w_panes win), w_z_index := remove1 p (w_z_index win)\<rparr>) st"

definition window_pane_destroy :: "nat \<Rightarrow> server \<Rightarrow> server" where
  "window_pane_destroy p st = st\<lparr>panes := (panes st)(p := None)\<rparr>"

definition window_remove_pane :: "nat \<Rightarrow> nat \<Rightarrow> server \<Rightarrow> server" where
  "window_remove_pane w p st =
     (case windows st w of None \<Rightarrow> st
      | Some win \<Rightarrow> window_pane_destroy p (window_unlist_pane w p (window_lost_pane (w_panes win) w p st)))"

section \<open>References\<close>

text \<open>\<open>options\<close> supplies the values of the options of the new window.\<close>

definition window_create :: "u32 \<Rightarrow> u32 \<Rightarrow> u32 \<Rightarrow> u32 \<Rightarrow> window \<Rightarrow> server \<Rightarrow> nat \<times> server" where
  "window_create sx sy xpixel ypixel options st =
     (let w = next_window_id st;
          win = options\<lparr>w_name := [], w_flags := 0, w_active := None, w_last_panes := [], w_z_index := [], w_panes := [],
                  w_layout_root := None, w_saved_layout_root := None, w_sx := sx, w_sy := sy,
                  w_xpixel := (if xpixel = 0 then 16 else xpixel), w_ypixel := (if ypixel = 0 then 32 else ypixel),
                  w_references := 0\<rparr>
      in (w, st\<lparr>windows := (windows st)(w \<mapsto> win), next_window_id := w + 1\<rparr>))"

definition window_destroy_panes :: "nat \<Rightarrow> server \<Rightarrow> server" where
  "window_destroy_panes w st =
     (case windows st w of None \<Rightarrow> st
      | Some win \<Rightarrow>
          fold window_pane_destroy (w_panes win)
            (upd_window w (\<lambda>win. win\<lparr>w_panes := [], w_z_index := []\<rparr>)
              (fold (\<lambda>p. window_pane_stack_remove w (Some p)) (w_last_panes win) st)))"

definition window_destroy :: "host \<Rightarrow> nat \<Rightarrow> server \<Rightarrow> server" where
  "window_destroy h w st =
     (let st1 = window_destroy_panes w (snd (window_unzoom h w st)) in st1\<lparr>windows := (windows st1)(w := None)\<rparr>)"

definition window_add_ref :: "nat \<Rightarrow> server \<Rightarrow> server" where
  "window_add_ref w st = upd_window w (w_references_update Suc) st"

definition window_remove_ref :: "host \<Rightarrow> nat \<Rightarrow> server \<Rightarrow> server" where
  "window_remove_ref h w st =
     (let st1 = upd_window w (w_references_update (\<lambda>n. n - 1)) st
      in case windows st1 w of None \<Rightarrow> st1
         | Some win \<Rightarrow> if w_references win = 0 then window_destroy h w st1 else st1)"

text \<open>A pixel size of \<open>None\<close> is \<open>-1\<close>, leave as it is.\<close>

definition window_resize :: "nat \<Rightarrow> u32 \<Rightarrow> u32 \<Rightarrow> u32 option \<Rightarrow> u32 option \<Rightarrow> server \<Rightarrow> server" where
  "window_resize w sx sy xpixel ypixel st =
     upd_window w (\<lambda>win. win\<lparr>w_sx := sx, w_sy := sy,
       w_xpixel := (case xpixel of None \<Rightarrow> w_xpixel win | Some x \<Rightarrow> if x = 0 then 16 else x),
       w_ypixel := (case ypixel of None \<Rightarrow> w_ypixel win | Some y \<Rightarrow> if y = 0 then 32 else y)\<rparr>) st"

section \<open>The stack of last panes as a most-recently-used stack\<close>

definition last_panes :: "nat \<Rightarrow> server \<Rightarrow> nat list" where
  "last_panes w st = (case windows st w of None \<Rightarrow> [] | Some win \<Rightarrow> w_last_panes win)"

definition pane_live :: "nat \<Rightarrow> server \<Rightarrow> nat \<Rightarrow> bool" where
  "pane_live w st p \<longleftrightarrow> windows st w \<noteq> None \<and> (\<exists>wp. panes st p = Some wp \<and> wp_window wp = w)"

definition pane_marked :: "server \<Rightarrow> nat \<Rightarrow> bool" where
  "pane_marked st p = (case panes st p of None \<Rightarrow> False | Some wp \<Rightarrow> has_flag PANE_VISITED (wp_flags wp))"

lemma pane_flag_facts [flag_simps, simp]: "PANE_VISITED \<noteq> 0"
  by (simp add: PANE_VISITED_def)

lemma stack_remove_pane:
  "pane_live w st p \<Longrightarrow> window_pane_stack_remove w (Some p) st =
     (if pane_marked st p
      then upd_pane p (wp_flags_update (clear_flag PANE_VISITED)) (upd_window w (w_last_panes_update (remove1 p)) st)
      else st)"
  by (auto simp: window_pane_stack_remove_def pane_live_def pane_marked_def)

interpretation last_panes: mru_stack "last_panes w" pane_marked "pane_live w"
  "\<lambda>p. window_pane_stack_push w (Some p)" "\<lambda>p. window_pane_stack_remove w (Some p)" for w
proof unfold_locales
  fix st p q
  assume live: "pane_live w st p"
  note shape = stack_remove_pane [OF live]
  show "last_panes w (window_pane_stack_remove w (Some p) st) =
      (if pane_marked st p then remove1 p (last_panes w st) else last_panes w st)"
    using live by (auto simp: shape last_panes_def pane_live_def)
  show "pane_marked (window_pane_stack_remove w (Some p) st) q = (pane_marked st q \<and> q \<noteq> p)"
    by (auto simp: shape pane_marked_def flag_simps split: option.splits)
  show live': "pane_live w (window_pane_stack_remove w (Some p) st) q = pane_live w st q"
    by (auto simp: shape pane_live_def)
  show "last_panes w (window_pane_stack_push w (Some p) st) = p # last_panes w (window_pane_stack_remove w (Some p) st)"
    using live by (auto simp: window_pane_stack_push_def shape last_panes_def pane_live_def)
  show "pane_live w (window_pane_stack_push w (Some p) st) q = pane_live w st q"
    using live' by (auto simp: window_pane_stack_push_def pane_live_def)
  show "pane_marked (window_pane_stack_push w (Some p) st) q = (pane_marked st q \<or> q = p)" if "pane_live w st q"
    using live that
    by (auto simp: window_pane_stack_push_def shape pane_marked_def pane_live_def flag_simps split: option.splits)
qed

text \<open>A window whose stack of last panes holds its marked panes, without the active one.\<close>

definition window_ok :: "nat \<Rightarrow> server \<Rightarrow> bool" where
  "window_ok w st \<longleftrightarrow> last_panes.stack_ok w st \<and>
     (case windows st w of None \<Rightarrow> False
      | Some win \<Rightarrow> distinct (w_panes win) \<and> (\<forall>p. pane_live w st p \<longleftrightarrow> p \<in> set (w_panes win)) \<and>
          (case w_active win of None \<Rightarrow> w_panes win = [] | Some p \<Rightarrow> p \<in> set (w_panes win) - set (w_last_panes win)))"

lemma window_okD:
  assumes "window_ok w st"
  obtains win where "windows st w = Some win" "distinct (w_panes win)" "last_panes.stack_ok w st"
    "\<And>p. pane_live w st p \<longleftrightarrow> p \<in> set (w_panes win)" "last_panes w st = w_last_panes win"
    "set (w_last_panes win) \<subseteq> set (w_panes win)"
proof -
  obtain win where win: "windows st w = Some win" using assms by (auto simp: window_ok_def split: option.splits)
  moreover have "set (w_last_panes win) \<subseteq> set (w_panes win)"
    using assms win unfolding window_ok_def last_panes.stack_ok_def by (auto simp: last_panes_def)
  ultimately show ?thesis using that assms by (auto simp: window_ok_def last_panes_def)
qed

lemma stack_ok_upd_active:
  "last_panes.stack_ok w (upd_window w (w_active_update f) st) = last_panes.stack_ok w st"
proof -
  have "pane_live w (upd_window w (w_active_update f) st) = pane_live w st"
    "pane_marked (upd_window w (w_active_update f) st) = pane_marked st"
    "last_panes w (upd_window w (w_active_update f) st) = last_panes w st"
    by (auto simp: fun_eq_iff pane_live_def pane_marked_def last_panes_def split: option.splits)
  then show ?thesis by (simp add: last_panes.stack_ok_def)
qed

lemma stack_ok_changed:
  "last_panes.stack_ok w (upd_pane q (wp_flags_update (set_flag PANE_CHANGED)) st) = last_panes.stack_ok w st"
proof -
  have m: "PANE_CHANGED AND PANE_VISITED = 0" by (simp add: PANE_CHANGED_def PANE_VISITED_def)
  have "pane_live w (upd_pane q (wp_flags_update (set_flag PANE_CHANGED)) st) = pane_live w st"
    "pane_marked (upd_pane q (wp_flags_update (set_flag PANE_CHANGED)) st) = pane_marked st"
    "last_panes w (upd_pane q (wp_flags_update (set_flag PANE_CHANGED)) st) = last_panes w st"
    using flag_or_disjoint [OF m]
    by (auto simp: fun_eq_iff pane_live_def pane_marked_def last_panes_def split: option.splits)
  then show ?thesis by (simp add: last_panes.stack_ok_def)
qed

section \<open>What the fixing of the panes leaves alone\<close>

definition pane_kept :: "pane \<Rightarrow> pane \<Rightarrow> bool" where
  "pane_kept wp wp' \<longleftrightarrow> wp_window wp' = wp_window wp \<and> wp_cell wp' = wp_cell wp \<and>
     (has_flag PANE_VISITED (wp_flags wp') \<longleftrightarrow> has_flag PANE_VISITED (wp_flags wp)) \<and>
     (has_flag PANE_FLOATING (wp_flags wp') \<longleftrightarrow> has_flag PANE_FLOATING (wp_flags wp))"

lemma pane_kept_refl: "pane_kept wp wp"
  by (simp add: pane_kept_def)

lemma pane_kept_trans: "pane_kept a b \<Longrightarrow> pane_kept b c \<Longrightarrow> pane_kept a c"
  by (simp add: pane_kept_def)

text \<open>States that differ only in the panes, which keep their window, cell and marks.\<close>

definition same_panes :: "server \<Rightarrow> server \<Rightarrow> bool" where
  "same_panes st st' \<longleftrightarrow> (\<exists>ps. st' = st\<lparr>panes := ps\<rparr>) \<and> (\<forall>p. rel_option pane_kept (panes st p) (panes st' p))"

lemma same_panes_refl: "same_panes st st"
  by (auto simp: same_panes_def pane_kept_refl intro: option.rel_refl exI [of _ "panes st"])

lemma same_panes_trans:
  assumes "same_panes a b" "same_panes b c"
  shows "same_panes a c"
proof -
  obtain ps qs where "b = a\<lparr>panes := ps\<rparr>" "c = b\<lparr>panes := qs\<rparr>" using assms unfolding same_panes_def by blast
  then have "c = a\<lparr>panes := qs\<rparr>" by simp
  moreover have "rel_option pane_kept (panes a p) (panes c p)" for p
    using assms unfolding same_panes_def by (blast intro: pane_kept_trans option.rel_transp [THEN transpD] transpI)
  ultimately show ?thesis unfolding same_panes_def by blast
qed

lemma same_panes_upd: "(\<And>wp. pane_kept wp (f wp)) \<Longrightarrow> same_panes st (upd_pane p f st)"
  by (auto simp: same_panes_def upd_pane_def option.rel_map pane_kept_refl intro: option.rel_refl)

lemma same_panes_fold: "(\<And>p st. same_panes st (f p st)) \<Longrightarrow> same_panes st (fold f ps st)"
  by (induction ps arbitrary: st) (auto intro: same_panes_refl same_panes_trans)

lemma mark_flags: "PANE_REDRAWSCROLLBAR AND PANE_VISITED = 0" "PANE_REDRAWSCROLLBAR AND PANE_FLOATING = 0"
  "PANE_ZOOMED AND PANE_VISITED = 0" "PANE_ZOOMED AND PANE_FLOATING = 0"
  by (simp_all add: PANE_REDRAWSCROLLBAR_def PANE_VISITED_def PANE_FLOATING_def PANE_ZOOMED_def)

lemma layout_fix_pane_keeps: "pane_kept wp (layout_fix_pane h win cell wp)"
  by (simp add: pane_kept_def layout_fix_pane_def window_pane_resize_def Let_def flag_or_disjoint [OF mark_flags(1)]
      flag_or_disjoint [OF mark_flags(2)] split: prod.split)

lemma fix_panes_same: "same_panes st (layout_fix_panes h w st)"
proof (cases "windows st w")
  case (Some win)
  have "same_panes s (upd_pane p (\<lambda>wp. case pane_layout_cell win p wp of None \<Rightarrow> wp | Some cell \<Rightarrow> layout_fix_pane h win cell wp) s)"
    for p s
    by (rule same_panes_upd) (simp add: layout_fix_pane_keeps pane_kept_refl split: option.split)
  then show ?thesis by (simp add: layout_fix_panes_def Some same_panes_fold)
qed (simp add: layout_fix_panes_def same_panes_refl)

lemma same_panesD:
  assumes "same_panes st st'"
  shows "windows st' = windows st" "sessions st' = sessions st" "session_groups st' = session_groups st"
    "next_session_id st' = next_session_id st" "next_window_id st' = next_window_id st"
    "next_winlink st' = next_winlink st" "marked_wl st' = marked_wl st" "marked_wp st' = marked_wp st"
    "pane_live w st' = pane_live w st" "pane_marked st' = pane_marked st" "is_floating st' = is_floating st"
    "last_panes w st' = last_panes w st" "panes st' p = None \<longleftrightarrow> panes st p = None"
proof -
  obtain ps where st': "st' = st\<lparr>panes := ps\<rparr>" using assms unfolding same_panes_def by blast
  show "windows st' = windows st" "sessions st' = sessions st" "session_groups st' = session_groups st"
    "next_session_id st' = next_session_id st" "next_window_id st' = next_window_id st"
    "next_winlink st' = next_winlink st" "marked_wl st' = marked_wl st" "marked_wp st' = marked_wp st"
    "last_panes w st' = last_panes w st"
    unfolding st' by (simp_all add: last_panes_def)
  have r: "rel_option pane_kept (panes st q) (panes st' q)" for q using assms unfolding same_panes_def by blast
  show "panes st' p = None \<longleftrightarrow> panes st p = None" using r [of p] by (cases "panes st p"; cases "panes st' p") auto
  have "pane_marked st' q = pane_marked st q" for q
    using r [of q] by (cases "panes st q"; cases "panes st' q") (auto simp: pane_marked_def pane_kept_def)
  then show "pane_marked st' = pane_marked st" by blast
  have "is_floating st' q = is_floating st q" for q
    using r [of q] by (cases "panes st q"; cases "panes st' q") (auto simp: is_floating_def pane_kept_def)
  then show "is_floating st' = is_floating st" by blast
  have "windows st' = windows st" unfolding st' by simp
  moreover have "(\<exists>wp. panes st' q = Some wp \<and> wp_window wp = w) \<longleftrightarrow> (\<exists>wp. panes st q = Some wp \<and> wp_window wp = w)" for q
    using r [of q] by (cases "panes st q"; cases "panes st' q") (auto simp: pane_kept_def)
  ultimately show "pane_live w st' = pane_live w st" by (simp add: fun_eq_iff pane_live_def)
qed

lemma same_panes_stack_ok: "same_panes st st' \<Longrightarrow> last_panes.stack_ok w st' = last_panes.stack_ok w st"
  by (simp add: last_panes.stack_ok_def same_panesD)

section \<open>Properties\<close>

lemma stack_ok_marked: "last_panes.stack_ok w (st\<lparr>marked_wl := a, marked_wp := b\<rparr>) = last_panes.stack_ok w st"
proof -
  have "pane_live w (st\<lparr>marked_wl := a, marked_wp := b\<rparr>) = pane_live w st"
    "pane_marked (st\<lparr>marked_wl := a, marked_wp := b\<rparr>) = pane_marked st"
    "last_panes w (st\<lparr>marked_wl := a, marked_wp := b\<rparr>) = last_panes w st"
    by (auto simp: fun_eq_iff pane_live_def pane_marked_def last_panes_def)
  then show ?thesis by (simp add: last_panes.stack_ok_def)
qed

lemma stack_remove_window:
  assumes "last_panes.stack_ok w st" "pane_live w st q" "windows st w = Some win"
  shows "windows (window_pane_stack_remove w (Some q) st) w = Some (win\<lparr>w_last_panes := remove1 q (w_last_panes win)\<rparr>)"
proof -
  have "pane_marked st q \<longleftrightarrow> q \<in> set (w_last_panes win)"
    using assms by (auto simp: last_panes.stack_ok_def last_panes_def)
  then show ?thesis using assms by (auto simp: stack_remove_pane [OF assms(2)] remove1_idem)
qed

text \<open>The first step forgets the lost pane; the second, when it was the active one, makes another pane active.\<close>

definition after_lost :: "window \<Rightarrow> nat \<Rightarrow> nat option" where
  "after_lost win p = (case w_last_panes win of q # _ \<Rightarrow> Some q
     | [] \<Rightarrow> (case tailq_prev (w_panes win) p of Some q \<Rightarrow> Some q | None \<Rightarrow> tailq_next (w_panes win) p))"

lemma after_lost_pane:
  assumes "distinct (w_panes win)" "w_panes win = pre @ p # post"
  shows "after_lost win p = (case w_last_panes win of q # _ \<Rightarrow> Some q
     | [] \<Rightarrow> if pre \<noteq> [] then Some (last pre) else if post \<noteq> [] then Some (hd post) else None)"
proof -
  have "p \<notin> set pre" "p \<notin> set post" using assms by auto
  then show ?thesis
    using rb_prev_append [of p id pre p post] rb_next_append [of p id pre p post] assms(2)
    by (auto simp: after_lost_def split: list.split)
qed

lemma lost_pane_forgotten:
  assumes "window_ok w st" "windows st w = Some win" "p \<in> set (w_panes win)"
    "st2 = window_pane_stack_remove w (Some p) (if marked_wp st = Some p then server_clear_marked st else st)"
  shows "last_panes.stack_ok w st2" "windows st2 w = Some (win\<lparr>w_last_panes := remove1 p (w_last_panes win)\<rparr>)"
    "pane_live w st2 = pane_live w st"
proof -
  let ?st1 = "if marked_wp st = Some p then server_clear_marked st else st"
  have ok: "last_panes.stack_ok w ?st1" "pane_live w ?st1 = pane_live w st" "windows ?st1 = windows st"
    using assms(1) by (auto simp: window_ok_def server_clear_marked_def stack_ok_marked pane_live_def fun_eq_iff)
  have live: "pane_live w ?st1 p" using assms(1-3) ok(2) by (auto simp: window_ok_def)
  show "last_panes.stack_ok w st2" using last_panes.stack_ok_drop [OF ok(1) live] unfolding assms(4) by blast
  show "windows st2 w = Some (win\<lparr>w_last_panes := remove1 p (w_last_panes win)\<rparr>)"
    using stack_remove_window [OF ok(1) live, of win] assms(2) ok(3) unfolding assms(4) by simp
  show "pane_live w st2 = pane_live w st"
    using last_panes.live_drop [OF live] ok(2) unfolding assms(4) by (simp add: fun_eq_iff)
qed

lemma lost_pane_replaced:
  assumes "last_panes.stack_ok w st2" "windows st2 w = Some win2" "pane_live w st2 q"
    "st3 = upd_window w (w_active_update (\<lambda>_. Some q)) st2"
  shows "last_panes.stack_ok w (window_pane_stack_remove w (Some q) st3)"
    "windows (window_pane_stack_remove w (Some q) st3) w =
       Some (win2\<lparr>w_active := Some q, w_last_panes := remove1 q (w_last_panes win2)\<rparr>)"
proof -
  have ok: "last_panes.stack_ok w st3" "windows st3 w = Some (win2\<lparr>w_active := Some q\<rparr>)"
    using assms(1,2) unfolding assms(4) by (simp_all add: stack_ok_upd_active)
  have live: "pane_live w st3 q" using assms(2,3) unfolding assms(4) by (auto simp: pane_live_def)
  show "last_panes.stack_ok w (window_pane_stack_remove w (Some q) st3)"
    using last_panes.stack_ok_drop [OF ok(1) live] by blast
  show "windows (window_pane_stack_remove w (Some q) st3) w =
       Some (win2\<lparr>w_active := Some q, w_last_panes := remove1 q (w_last_panes win2)\<rparr>)"
    using stack_remove_window [OF ok(1) live ok(2)] by simp
qed

text \<open>
  C21. A window that loses a pane (\<^verbatim>\<open>window_lost_pane\<close>) forgets it in the stack of last panes, and when
  the pane was the active one the pane that was active before it becomes active and leaves the
  stack; with no such pane it is the pane before it in the window, or the one after it when it is
  the first. The list of panes is not touched, and the stack still holds the visited panes.
\<close>

theorem window_lost_pane_correct:
  assumes "window_ok w st" "windows st w = Some win" "w_panes win = pre @ p # post"
  shows "last_panes.stack_ok w (window_lost_pane (w_panes win) w p st) \<and>
    (\<exists>win'. windows (window_lost_pane (w_panes win) w p st) w = Some win' \<and> w_panes win' = w_panes win \<and>
      (if w_active win \<noteq> Some p
       then w_active win' = w_active win \<and> w_last_panes win' = remove1 p (w_last_panes win)
       else case w_last_panes win of
           q # qs \<Rightarrow> w_active win' = Some q \<and> w_last_panes win' = qs
         | [] \<Rightarrow> w_last_panes win' = [] \<and>
             w_active win' = (if pre \<noteq> [] then Some (last pre) else if post \<noteq> [] then Some (hd post) else None)))"
proof -
  let ?st2 = "window_pane_stack_remove w (Some p) (if marked_wp st = Some p then server_clear_marked st else st)"
  let ?st3 = "upd_window w (w_active_update (\<lambda>_. after_lost win p)) ?st2"
  have ok: "distinct (w_panes win)" "\<And>q. pane_live w st q \<longleftrightarrow> q \<in> set (w_panes win)"
    "w_active win = Some p \<Longrightarrow> p \<notin> set (w_last_panes win)" "set (w_last_panes win) \<subseteq> set (w_panes win)"
    using assms(1,2) by (auto simp: window_ok_def last_panes.stack_ok_def last_panes_def)
  note st2 = lost_pane_forgotten [OF assms(1,2) _ refl, of p]
  have p: "p \<in> set (w_panes win)" using assms(3) by simp
  show ?thesis
  proof (cases "w_active win = Some p")
    case False
    then show ?thesis using st2(1,2) [OF p] by (auto simp: window_lost_pane_def Let_def)
  next
    case True
    then have win2: "windows ?st2 w = Some win" using st2(2) [OF p] ok(3) by (simp add: remove1_idem)
    have lost: "window_lost_pane (w_panes win) w p st = (case after_lost win p of None \<Rightarrow> ?st3
        | Some q \<Rightarrow> upd_pane q (wp_flags_update (set_flag PANE_CHANGED)) (window_pane_stack_remove w (Some q) ?st3))"
      using win2 True unfolding window_lost_pane_def Let_def after_lost_def by simp
    note active = after_lost_pane [OF ok(1) assms(3)]
    show ?thesis
    proof (cases "after_lost win p")
      case None
      then have "w_last_panes win = []" "pre = []" "post = []" using active by (auto split: list.splits if_splits)
      with None lost True win2 st2(1) [OF p] show ?thesis by (simp add: stack_ok_upd_active)
    next
      case (Some q)
      then have "q \<in> set (w_panes win)" using active ok(4) assms(3) by (auto split: list.splits if_splits)
      then have "pane_live w ?st2 q" unfolding st2(3) [OF p] ok(2) .
      note st3 = lost_pane_replaced [OF st2(1) [OF p] win2 this refl]
      have "last_panes.stack_ok w (window_lost_pane (w_panes win) w p st)"
        "windows (window_lost_pane (w_panes win) w p st) w =
           Some (win\<lparr>w_active := Some q, w_last_panes := remove1 q (w_last_panes win)\<rparr>)"
        using lost Some st3 by (simp_all add: stack_ok_changed)
      then show ?thesis using Some active True by (auto split: list.splits if_splits)
    qed
  qed
qed

lemma clear_set_flag: "f AND m = 0 \<Longrightarrow> (f OR m) AND NOT m = (f :: u32)"
proof (rule bit_word_eqI)
  fix i assume "f AND m = 0" "i < LENGTH(32)"
  then have "bit (f AND m) i = bit (0 :: u32) i" by simp
  with \<open>i < LENGTH(32)\<close> show "bit ((f OR m) AND NOT m) i = bit f i" by (auto simp: bit_simps)
qed

lemma window_unzoom_window:
  assumes "windows st w = Some win"
  shows "windows (snd (window_unzoom h w st)) w = Some (if has_flag WINDOW_ZOOMED (w_flags win)
      then win\<lparr>w_flags := clear_flag WINDOW_ZOOMED (w_flags win), w_layout_root := w_saved_layout_root win,
               w_saved_layout_root := None\<rparr> else win)"
proof -
  have "windows (fold (\<lambda>p. upd_pane p f) ps s) = windows s" for f ps s by (induction ps arbitrary: s) simp_all
  then show ?thesis using assms by (simp add: window_unzoom_def same_panesD(1) [OF fix_panes_same])
qed

lemma stack_frame:
  assumes "windows st w = Some win"
  shows "\<exists>ls. windows (window_pane_stack_remove w q st) w = Some (win\<lparr>w_last_panes := ls\<rparr>)"
    "\<exists>ls. windows (window_pane_stack_push w q st) w = Some (win\<lparr>w_last_panes := ls\<rparr>)"
proof -
  show a: "\<exists>ls. windows (window_pane_stack_remove w q st) w = Some (win\<lparr>w_last_panes := ls\<rparr>)"
    using assms by (auto simp: window_pane_stack_remove_def split: option.split) (metis window.surjective window.update_convs(3))+
  then show "\<exists>ls. windows (window_pane_stack_push w q st) w = Some (win\<lparr>w_last_panes := ls\<rparr>)"
    using assms by (auto simp: window_pane_stack_push_def split: option.split) (metis window.surjective window.update_convs(3))+
qed

lemma set_active_window:
  assumes "windows st w = Some win" "\<not> has_flag WINDOW_ZOOMED (w_flags win)"
  shows "\<exists>ls. windows (snd (window_set_active_pane h w p st)) w = Some (win\<lparr>w_active := Some p, w_last_panes := ls\<rparr>)"
proof (cases "w_active win = Some p")
  case True
  then have "win\<lparr>w_active := Some p, w_last_panes := w_last_panes win\<rparr> = win" by (cases win) simp
  then show ?thesis using True assms(1) by (intro exI [of _ "w_last_panes win"]) (simp add: window_set_active_pane_def)
next
  case False
  have 1: "windows (snd (window_unzoom h w st)) w = Some win" using window_unzoom_window [OF assms(1)] assms(2) by simp
  obtain l1 where 2: "windows (window_pane_stack_remove w (Some p) (snd (window_unzoom h w st))) w = Some (win\<lparr>w_last_panes := l1\<rparr>)"
    using stack_frame(1) [OF 1] by blast
  obtain l2 where "windows (window_pane_stack_push w (w_active win)
      (window_pane_stack_remove w (Some p) (snd (window_unzoom h w st)))) w = Some (win\<lparr>w_last_panes := l2\<rparr>)"
    using stack_frame(2) [OF 2] by auto
  moreover have "win\<lparr>w_last_panes := l2, w_active := Some p\<rparr> = win\<lparr>w_active := Some p, w_last_panes := l2\<rparr>" by simp
  ultimately show ?thesis
    using False assms(1) by (intro exI [of _ l2]) (simp add: window_set_active_pane_def Let_def)
qed

text \<open>
  C22. Zooming a pane of a window with several panes and unzooming the window brings back its
  layout and its flags: the window is as before, except that the pane has become the active one.
\<close>

theorem window_zoom_unzoom:
  assumes "windows st w = Some win" "\<not> has_flag WINDOW_ZOOMED (w_flags win)" "w_saved_layout_root win = None"
    "window_count_panes st win True \<noteq> 1"
  shows "fst (window_zoom h w p st) \<and> fst (window_unzoom h w (snd (window_zoom h w p st))) \<and>
    (\<exists>ls. windows (snd (window_unzoom h w (snd (window_zoom h w p st)))) w =
       Some (win\<lparr>w_active := Some p, w_last_panes := ls\<rparr>))"
proof -
  obtain ls where 1: "windows (snd (window_set_active_pane h w p st)) w = Some (win\<lparr>w_active := Some p, w_last_panes := ls\<rparr>)"
    using set_active_window [OF assms(1,2)] by blast
  let ?zoomed = "win\<lparr>w_active := Some p, w_last_panes := ls, w_saved_layout_root := w_layout_root win,
    w_layout_root := Some (layout_init (w_sx win) (w_sy win) p), w_flags := set_flag WINDOW_ZOOMED (w_flags win)\<rparr>"
  have z: "windows (snd (window_zoom h w p st)) w = Some ?zoomed" and t: "fst (window_zoom h w p st)"
    using assms 1 by (simp_all add: window_zoom_def Let_def same_panesD(1) [OF fix_panes_same])
  have f: "has_flag WINDOW_ZOOMED (w_flags ?zoomed)" by (simp add: WINDOW_ZOOMED_def flag_or_and)
  have "fst (window_unzoom h w (snd (window_zoom h w p st)))" using z f by (simp add: window_unzoom_def)
  moreover have "windows (snd (window_unzoom h w (snd (window_zoom h w p st)))) w =
      Some (win\<lparr>w_active := Some p, w_last_panes := ls\<rparr>)"
    using window_unzoom_window [OF z, of h] f assms(2,3) by (simp add: clear_set_flag)
  ultimately show ?thesis using t by blast
qed

end
