(* ===== verification/Session.thy ===== *)
theory Session
  imports Window "HOL-Library.Monad_Syntax"
begin

text \<open>
  Sessions and session groups, \<^verbatim>\<open>windows/session.c\<close>, with the winlink operations of
  \<^verbatim>\<open>windows/window.c\<close> that touch windows and the functions of \<^verbatim>\<open>server/server-fn.c\<close> that link and kill
  windows. Notifications, redraws, focus reports, timers and the clients' part of destroying a
  session leave no trace in the state and are not modelled. \<open>None\<close> as a result is a crash.
\<close>

section \<open>Lookup\<close>

definition session_find :: "server \<Rightarrow> string \<Rightarrow> session option" where
  "session_find st name = rb_find s_name name (sessions st)"

definition session_find_by_id :: "server \<Rightarrow> nat \<Rightarrow> session option" where
  "session_find_by_id st i = find (\<lambda>s. s_id s = i) (sessions st)"

definition session_alive :: "server \<Rightarrow> nat \<Rightarrow> bool" where
  "session_alive st i \<longleftrightarrow> i \<in> s_id ` set (sessions st)"

definition session_has :: "session \<Rightarrow> nat \<Rightarrow> bool" where
  "session_has s w \<longleftrightarrow> list_ex (\<lambda>wl. wl_window wl = Some w) (s_windows s)"

definition session_group_contains :: "server \<Rightarrow> nat \<Rightarrow> session_group option" where
  "session_group_contains st i = find (\<lambda>(name, ids). i \<in> set ids) (session_groups st)"

definition session_group_find :: "server \<Rightarrow> string \<Rightarrow> session_group option" where
  "session_group_find st name = rb_find fst name (session_groups st)"

definition session_group_count :: "session_group \<Rightarrow> nat" where
  "session_group_count sg = length (snd sg)"

text \<open>Whether a window of the session is linked from outside its group.\<close>

definition session_is_linked :: "server \<Rightarrow> nat \<Rightarrow> window \<Rightarrow> bool" where
  "session_is_linked st i win =
     (case session_group_contains st i of
        Some sg \<Rightarrow> w_references win \<noteq> session_group_count sg
      | None \<Rightarrow> w_references win \<noteq> 1)"

section \<open>Winlinks and windows\<close>

definition winlink_set_window :: "host \<Rightarrow> nat \<Rightarrow> nat \<Rightarrow> nat \<Rightarrow> server \<Rightarrow> server" where
  "winlink_set_window h i p w st =
     (let old = (case the_session st i of None \<Rightarrow> None
                 | Some s \<Rightarrow> (case wl_deref p (s_windows s) of None \<Rightarrow> None | Some wl \<Rightarrow> wl_window wl));
          st1 = (case old of None \<Rightarrow> st | Some w' \<Rightarrow> window_remove_ref h w' st)
      in window_add_ref w
           (upd_session i (s_windows_update (wl_update p (\<lambda>wl. wl\<lparr>wl_window := Some w\<rparr>))) st1))"

definition winlink_remove :: "host \<Rightarrow> nat \<Rightarrow> winlink \<Rightarrow> server \<Rightarrow> server" where
  "winlink_remove h i wl st =
     (let st1 = (case wl_window wl of None \<Rightarrow> st | Some w \<Rightarrow> window_remove_ref h w st)
      in upd_session i (s_windows_update (rb_remove wl_idx (wl_idx wl))) st1)"

definition clear_alerts :: "nat \<Rightarrow> winlinks \<Rightarrow> winlinks" where
  "clear_alerts w wwl =
     map (\<lambda>wl. if wl_window wl = Some w then wl\<lparr>wl_flags := clear_flag WINLINK_ALERTFLAGS (wl_flags wl)\<rparr> else wl) wwl"

definition winlink_clear_flags :: "nat \<Rightarrow> server \<Rightarrow> server" where
  "winlink_clear_flags w st =
     (upd_window w (w_flags_update (clear_flag WINDOW_ALERTFLAGS)) st)
       \<lparr>sessions := map (s_windows_update (clear_alerts w)) (sessions st)\<rparr>"

section \<open>The current window\<close>

text \<open>The result is \<open>-1\<close>, \<open>1\<close> or \<open>0\<close> as in the code.\<close>

definition session_set_current :: "nat \<Rightarrow> nat option \<Rightarrow> server \<Rightarrow> int \<times> server" where
  "session_set_current i wlo st =
     (case wlo of None \<Rightarrow> (- 1, st)
      | Some p \<Rightarrow>
          (case the_session st i of None \<Rightarrow> (- 1, st)
           | Some s \<Rightarrow>
               if s_curw s = Some p then (1, st)
               else
                 (let (wwl, lastw) = winlink_stack_push (s_curw s) (winlink_stack_remove (Some p) (s_windows s, s_lastw s));
                      st1 = upd_session i (\<lambda>s. s\<lparr>s_windows := wwl, s_lastw := lastw, s_curw := Some p\<rparr>) st
                  in (0, case wl_deref p wwl of None \<Rightarrow> st1
                         | Some wl \<Rightarrow> (case wl_window wl of None \<Rightarrow> st1 | Some w \<Rightarrow> winlink_clear_flags w st1)))))"

definition alerted :: "winlink \<Rightarrow> bool" where
  "alerted wl \<longleftrightarrow> has_flag WINLINK_ALERTFLAGS (wl_flags wl)"

text \<open>The walks along the tree from a winlink on.\<close>

definition session_next_alert :: "winlinks \<Rightarrow> winlink option \<Rightarrow> winlink option" where
  "session_next_alert wwl wlo =
     (case wlo of None \<Rightarrow> None | Some wl \<Rightarrow> find alerted (dropWhile (\<lambda>l. wl_idx l \<noteq> wl_idx wl) wwl))"

definition session_previous_alert :: "winlinks \<Rightarrow> winlink option \<Rightarrow> winlink option" where
  "session_previous_alert wwl wlo =
     (case wlo of None \<Rightarrow> None | Some wl \<Rightarrow> find alerted (dropWhile (\<lambda>l. wl_idx l \<noteq> wl_idx wl) (rev wwl)))"

definition session_next :: "nat \<Rightarrow> bool \<Rightarrow> server \<Rightarrow> int \<times> server" where
  "session_next i alert st =
     (case the_session st i of None \<Rightarrow> (- 1, st)
      | Some s \<Rightarrow>
          (case Option.bind (s_curw s) (\<lambda>p. wl_deref p (s_windows s)) of None \<Rightarrow> (- 1, st)
           | Some cur \<Rightarrow>
               (let wwl = s_windows s;
                    wl = winlink_next wwl cur;
                    wl1 = (if alert then session_next_alert wwl wl else wl)
                in case wl1 of
                     Some l \<Rightarrow> session_set_current i (Some (wl_ptr l)) st
                   | None \<Rightarrow>
                       (let wl2 = (if alert then session_next_alert wwl (rb_min wwl) else rb_min wwl)
                        in if alert \<and> wl2 = None then (- 1, st)
                           else session_set_current i (map_option wl_ptr wl2) st))))"

definition session_previous :: "nat \<Rightarrow> bool \<Rightarrow> server \<Rightarrow> int \<times> server" where
  "session_previous i alert st =
     (case the_session st i of None \<Rightarrow> (- 1, st)
      | Some s \<Rightarrow>
          (case Option.bind (s_curw s) (\<lambda>p. wl_deref p (s_windows s)) of None \<Rightarrow> (- 1, st)
           | Some cur \<Rightarrow>
               (let wwl = s_windows s;
                    wl = winlink_previous wwl cur;
                    wl1 = (if alert then session_previous_alert wwl wl else wl)
                in case wl1 of
                     Some l \<Rightarrow> session_set_current i (Some (wl_ptr l)) st
                   | None \<Rightarrow>
                       (let wl2 = (if alert then session_previous_alert wwl (rb_max wwl) else rb_max wwl)
                        in if alert \<and> wl2 = None then (- 1, st)
                           else session_set_current i (map_option wl_ptr wl2) st))))"

definition session_select :: "nat \<Rightarrow> int \<Rightarrow> server \<Rightarrow> int \<times> server" where
  "session_select i idx st =
     (case the_session st i of None \<Rightarrow> (- 1, st)
      | Some s \<Rightarrow> session_set_current i (map_option wl_ptr (winlink_find_by_index (s_windows s) idx)) st)"

definition session_last :: "nat \<Rightarrow> server \<Rightarrow> int \<times> server" where
  "session_last i st =
     (case the_session st i of None \<Rightarrow> (- 1, st)
      | Some s \<Rightarrow>
          (case s_lastw s of [] \<Rightarrow> (- 1, st)
           | p # _ \<Rightarrow> if s_curw s = Some p then (1, st) else session_set_current i (Some p) st))"

text \<open>The last window, else the previous one, else the next one.\<close>

definition session_move_off :: "nat \<Rightarrow> server \<Rightarrow> server" where
  "session_move_off i st =
     (let (r1, st1) = session_last i st
      in if r1 = 0 then st1
         else let (r2, st2) = session_previous i False st1
              in if r2 = 0 then st2 else snd (session_next i False st2))"

section \<open>Session groups\<close>

text \<open>Link the windows of the given winlinks at the given indexes, with their alerts.\<close>

fun link_all :: "host \<Rightarrow> nat \<Rightarrow> (int \<times> winlink) list \<Rightarrow> server \<Rightarrow> server option" where
  "link_all h i [] st = Some st"
| "link_all h i ((idx, wl) # wls) st =
     (case the_session st i of None \<Rightarrow> None
      | Some s \<Rightarrow>
          (case winlink_add (next_winlink st) (s_windows s) idx of None \<Rightarrow> None
           | Some (new, wwl) \<Rightarrow>
               (case wl_window wl of None \<Rightarrow> None
                | Some w \<Rightarrow>
                    let st1 = (upd_session i (s_windows_update (\<lambda>_.
                                  wl_update (wl_ptr new) (\<lambda>l. l\<lparr>wl_session := Some i,
                                    wl_flags := wl_flags l OR (wl_flags wl AND WINLINK_ALERTFLAGS)\<rparr>) wwl)) st)
                                \<lparr>next_winlink := next_winlink st + 1\<rparr>
                    in link_all h i wls (winlink_set_window h i (wl_ptr new) w st1))))"

text \<open>Rebuild the stack of last windows over the new winlinks, marking them.\<close>

fun relink_last :: "(nat \<Rightarrow> winlinks \<Rightarrow> winlink option) \<Rightarrow> nat list \<Rightarrow> winlinks \<Rightarrow> winlinks \<times> nat list" where
  "relink_last look [] wwl = (wwl, [])"
| "relink_last look (p # ps) wwl =
     (case look p wwl of None \<Rightarrow> relink_last look ps wwl
      | Some wl \<Rightarrow>
          (case relink_last look ps (wl_update (wl_ptr wl) (wl_flags_update (set_flag WINLINK_VISITED)) wwl) of
             (wwl', ps') \<Rightarrow> (wwl', wl_ptr wl # ps')))"

text \<open>The winlinks of the list give up their windows.\<close>

definition free_winlinks :: "host \<Rightarrow> winlinks \<Rightarrow> server \<Rightarrow> server" where
  "free_winlinks h wwl st =
     fold (\<lambda>wl st. case wl_window wl of None \<Rightarrow> st | Some w \<Rightarrow> window_remove_ref h w st) wwl st"

definition session_group_synchronize1 :: "host \<Rightarrow> nat \<Rightarrow> nat \<Rightarrow> server \<Rightarrow> server option" where
  "session_group_synchronize1 h target i st =
     do { t \<leftarrow> the_session st target;
          s0 \<leftarrow> the_session st i;
          if s_windows t = [] then Some st
          else do {
            let st1 = (case Option.bind (s_curw s0) (\<lambda>p. wl_deref p (s_windows s0)) of None \<Rightarrow> st
                       | Some cur \<Rightarrow> if winlink_find_by_index (s_windows t) (wl_idx cur) = None
                                     then session_move_off i st else st);
            t \<leftarrow> the_session st1 target;
            s \<leftarrow> the_session st1 i;
            let old = s_windows s;
            st2 \<leftarrow> link_all h i (map (\<lambda>wl. (wl_idx wl, wl)) (s_windows t)) (upd_session i (s_windows_update (\<lambda>_. [])) st1);
            s2 \<leftarrow> the_session st2 i;
            cur \<leftarrow> (case s_curw s of Some p \<Rightarrow> wl_deref p old
                    | None \<Rightarrow> Option.bind (s_curw t) (\<lambda>p. wl_deref p (s_windows t)));
            let curw = map_option wl_ptr (winlink_find_by_index (s_windows s2) (wl_idx cur));
            let (wwl, lastw) = relink_last (\<lambda>p wwl. Option.bind (wl_deref p old) (\<lambda>wl. winlink_find_by_index wwl (wl_idx wl)))
                                 (s_lastw s) (s_windows s2);
            Some (free_winlinks h old
              (upd_session i (\<lambda>s. s\<lparr>s_windows := wwl, s_lastw := lastw, s_curw := curw\<rparr>) st2)) } }"

fun synchronize_each :: "host \<Rightarrow> nat \<Rightarrow> nat list \<Rightarrow> server \<Rightarrow> server option" where
  "synchronize_each h target [] st = Some st"
| "synchronize_each h target (i # is) st =
     (if i = target then synchronize_each h target is st
      else Option.bind (session_group_synchronize1 h target i st) (synchronize_each h target is))"

definition session_group_synchronize_from :: "host \<Rightarrow> nat \<Rightarrow> server \<Rightarrow> server option" where
  "session_group_synchronize_from h target st =
     (case session_group_contains st target of None \<Rightarrow> Some st
      | Some sg \<Rightarrow> synchronize_each h target (snd sg) st)"

definition session_group_synchronize_to :: "host \<Rightarrow> nat \<Rightarrow> server \<Rightarrow> server option" where
  "session_group_synchronize_to h i st =
     (case session_group_contains st i of None \<Rightarrow> Some st
      | Some sg \<Rightarrow>
          (case find (\<lambda>j. j \<noteq> i) (snd sg) of None \<Rightarrow> Some st
           | Some target \<Rightarrow> session_group_synchronize1 h target i st))"

definition session_group_new :: "string \<Rightarrow> server \<Rightarrow> server" where
  "session_group_new name st =
     (if session_group_find st name \<noteq> None then st
      else st\<lparr>session_groups := rb_insert fst (name, []) (session_groups st)\<rparr>)"

definition session_group_add :: "string \<Rightarrow> nat \<Rightarrow> server \<Rightarrow> server" where
  "session_group_add name i st =
     (if session_group_contains st i \<noteq> None then st
      else st\<lparr>session_groups := map (\<lambda>(n, ids). (n, if n = name then ids @ [i] else ids)) (session_groups st)\<rparr>)"

definition session_group_remove :: "nat \<Rightarrow> server \<Rightarrow> server" where
  "session_group_remove i st =
     (case session_group_contains st i of None \<Rightarrow> st
      | Some (name, ids) \<Rightarrow>
          st\<lparr>session_groups :=
               (if remove1 i ids = [] then rb_remove fst name (session_groups st)
                else map (\<lambda>(n, l). if n = name then (n, remove1 i l) else (n, l)) (session_groups st))\<rparr>)"

section \<open>Creating and destroying\<close>

text \<open>
  The loop that looks for an unused name: \<open>n\<close> bounds the rounds, and one more than the number of
  sessions is enough, since every round tries another name.
\<close>

fun fresh_session :: "nat \<Rightarrow> string option \<Rightarrow> server \<Rightarrow> nat \<Rightarrow> (nat \<times> string) option" where
  "fresh_session 0 prefix st i = None"
| "fresh_session (Suc n) prefix st i =
     (let name = (case prefix of None \<Rightarrow> show_nat i | Some p \<Rightarrow> p @ ''-'' @ show_nat i)
      in if session_find st name = None then Some (i, name) else fresh_session n prefix st (i + 1))"

text \<open>\<open>options\<close> supplies the values of the options of the new session.\<close>

definition session_create :: "string option \<Rightarrow> string option \<Rightarrow> string \<Rightarrow> session \<Rightarrow> server \<Rightarrow> (nat \<times> server) option" where
  "session_create prefix name cwd options st =
     map_option (\<lambda>(i, n).
         (i, st\<lparr>sessions := rb_insert s_name (options\<lparr>s_id := i, s_name := n, s_cwd := cwd, s_curw := None, s_lastw := [],
                   s_windows := []\<rparr>) (sessions st),
               next_session_id := i + 1\<rparr>))
       (case name of Some n \<Rightarrow> Some (next_session_id st, n)
        | None \<Rightarrow> fresh_session (length (sessions st) + 1) prefix st (next_session_id st))"

text \<open>A session without a current window is left alone.\<close>

definition session_destroy :: "host \<Rightarrow> nat \<Rightarrow> server \<Rightarrow> server" where
  "session_destroy h i st =
     (case the_session st i of None \<Rightarrow> st
      | Some s \<Rightarrow>
          if s_curw s = None then st
          else free_winlinks h (s_windows s)
                 (session_group_remove i (st\<lparr>sessions := rb_remove s_name (s_name s) (sessions st)\<rparr>)))"

text \<open>The result: the address of the new winlink, or \<open>None\<close> with the index in use.\<close>

definition session_attach :: "host \<Rightarrow> nat \<Rightarrow> nat \<Rightarrow> int \<Rightarrow> server \<Rightarrow> (nat option \<times> server) option" where
  "session_attach h i w idx st =
     do { s \<leftarrow> the_session st i;
          case winlink_add (next_winlink st) (s_windows s) idx of None \<Rightarrow> Some (None, st)
          | Some (new, wwl) \<Rightarrow>
              (let st1 = (upd_session i (s_windows_update (\<lambda>_.
                             wl_update (wl_ptr new) (\<lambda>l. l\<lparr>wl_session := Some i\<rparr>) wwl)) st)
                           \<lparr>next_winlink := next_winlink st + 1\<rparr>
               in map_option (Pair (Some (wl_ptr new)))
                    (session_group_synchronize_from h i (winlink_set_window h i (wl_ptr new) w st1))) }"

text \<open>Take the winlink out of the session: no alerts, out of the stack and out of the tree.\<close>

definition drop_winlink :: "host \<Rightarrow> nat \<Rightarrow> nat \<Rightarrow> server \<Rightarrow> server" where
  "drop_winlink h i p st =
     (case the_session st i of None \<Rightarrow> st
      | Some s \<Rightarrow>
          (let (wwl, lastw) = winlink_stack_remove (Some p)
                 (wl_update p (wl_flags_update (clear_flag WINLINK_ALERTFLAGS)) (s_windows s), s_lastw s);
               st1 = upd_session i (\<lambda>s. s\<lparr>s_windows := wwl, s_lastw := lastw\<rparr>) st
           in case wl_deref p wwl of None \<Rightarrow> st1 | Some wl \<Rightarrow> winlink_remove h i wl st1))"

text \<open>The result says whether the session has become empty.\<close>

definition session_detach :: "host \<Rightarrow> nat \<Rightarrow> nat \<Rightarrow> server \<Rightarrow> (bool \<times> server) option" where
  "session_detach h i p st =
     do { s \<leftarrow> the_session st i;
          let st1 = (if s_curw s = Some p then session_move_off i st else st);
          st2 \<leftarrow> session_group_synchronize_from h i (drop_winlink h i p st1);
          s2 \<leftarrow> the_session st2 i;
          Some (s_windows s2 = [], st2) }"

definition session_renumber_windows :: "host \<Rightarrow> nat \<Rightarrow> server \<Rightarrow> server option" where
  "session_renumber_windows h i st =
     do { s \<leftarrow> the_session st i;
          let old = s_windows s;
          let numbered = zip (map (\<lambda>n. s_base_index s + int n) [0..<length old]) old;
          let new_index = (\<lambda>p. map_option fst (find (\<lambda>(_, wl). Some (wl_ptr wl) = p) numbered));
          st1 \<leftarrow> link_all h i numbered (upd_session i (s_windows_update (\<lambda>_. [])) st);
          s1 \<leftarrow> the_session st1 i;
          let (wwl, lastw) = relink_last (\<lambda>p wwl. do { wl \<leftarrow> wl_deref p old; w \<leftarrow> wl_window wl; winlink_find_by_window wwl w })
                               (s_lastw s) (s_windows s1);
          let st2 = (case (if marked_wl st = None then None else new_index (marked_wl st)) of None \<Rightarrow> st1
                     | Some idx \<Rightarrow> (case winlink_find_by_index wwl idx of None \<Rightarrow> server_clear_marked st1
                                    | Some wl \<Rightarrow> st1\<lparr>marked_wl := Some (wl_ptr wl)\<rparr>));
          let curw = map_option wl_ptr (winlink_find_by_index wwl
                       (case (if s_curw s = None then None else new_index (s_curw s)) of None \<Rightarrow> 0 | Some idx \<Rightarrow> idx));
          Some (free_winlinks h old
            (upd_session i (\<lambda>s. s\<lparr>s_windows := wwl, s_lastw := lastw, s_curw := curw\<rparr>) st2)) }"

section \<open>Server functions\<close>

definition server_unzoom_window :: "host \<Rightarrow> nat \<Rightarrow> server \<Rightarrow> server" where
  "server_unzoom_window h w st = snd (window_unzoom h w st)"

fun renumber_each :: "host \<Rightarrow> nat list \<Rightarrow> server \<Rightarrow> server option" where
  "renumber_each h [] st = Some st"
| "renumber_each h (i # is) st = Option.bind (session_renumber_windows h i st) (renumber_each h is)"

definition server_renumber_session :: "host \<Rightarrow> nat \<Rightarrow> server \<Rightarrow> server option" where
  "server_renumber_session h i st =
     (case the_session st i of None \<Rightarrow> Some st
      | Some s \<Rightarrow>
          if s_renumber s
          then renumber_each h (case session_group_contains st i of Some sg \<Rightarrow> snd sg | None \<Rightarrow> [i]) st
          else Some st)"

text \<open>
  The clients of a destroyed session are moved elsewhere first (\<^verbatim>\<open>server_destroy_session\<close>), which ends
  in \<^verbatim>\<open>recalculate_sizes\<close>.
\<close>

definition server_destroy_session :: "host \<Rightarrow> nat \<Rightarrow> server \<Rightarrow> server" where
  "server_destroy_session h i st = recalculate_sizes h st"

definition server_destroy_session_group :: "host \<Rightarrow> nat \<Rightarrow> server \<Rightarrow> server" where
  "server_destroy_session_group h i st =
     fold (\<lambda>j st. session_destroy h j (server_destroy_session h j st))
       (case session_group_contains st i of None \<Rightarrow> [i] | Some sg \<Rightarrow> snd sg) st"

definition server_unlink_window :: "host \<Rightarrow> nat \<Rightarrow> nat \<Rightarrow> server \<Rightarrow> server option" where
  "server_unlink_window h i p st =
     do { (empty, st1) \<leftarrow> session_detach h i p st;
          Some (if empty then server_destroy_session_group h i st1 else st1) }"

text \<open>The loop that detaches every winlink of a session to the window; each round takes one away.\<close>

fun kill_links :: "nat \<Rightarrow> host \<Rightarrow> nat \<Rightarrow> nat \<Rightarrow> server \<Rightarrow> server option" where
  "kill_links 0 h w i st = None"
| "kill_links (Suc n) h w i st =
     (case the_session st i of None \<Rightarrow> Some st
      | Some s \<Rightarrow>
          (case winlink_find_by_window (s_windows s) w of None \<Rightarrow> Some st
           | Some wl \<Rightarrow>
               do { (empty, st1) \<leftarrow> session_detach h i (wl_ptr wl) st;
                    if empty then Some (server_destroy_session_group h i st1) else kill_links n h w i st1 }))"

text \<open>The walk over the sessions of the start; one that is gone by then has no winlinks.\<close>

fun kill_window_in :: "host \<Rightarrow> nat \<Rightarrow> bool \<Rightarrow> nat list \<Rightarrow> server \<Rightarrow> server option" where
  "kill_window_in h w renumber [] st = Some st"
| "kill_window_in h w renumber (i # is) st =
     (case the_session st i of None \<Rightarrow> kill_window_in h w renumber is st
      | Some s \<Rightarrow>
          if \<not> session_has s w then kill_window_in h w renumber is st
          else do { st1 \<leftarrow> kill_links (length (s_windows s) + 1) h w i (server_unzoom_window h w st);
                    st2 \<leftarrow> (if renumber then server_renumber_session h i st1 else Some st1);
                    kill_window_in h w renumber is st2 })"

definition server_kill_window :: "host \<Rightarrow> nat \<Rightarrow> bool \<Rightarrow> server \<Rightarrow> server option" where
  "server_kill_window h w renumber st =
     map_option (recalculate_sizes h) (kill_window_in h w renumber (map s_id (sessions st)) st)"

text \<open>Both results are causes of failure: the sessions are grouped, or the index is the same or in use.\<close>

datatype link_error = Sessions_grouped | Same_index | Index_in_use

definition server_link_window :: "host \<Rightarrow> nat \<Rightarrow> nat \<Rightarrow> nat \<Rightarrow> int \<Rightarrow> bool \<Rightarrow> bool \<Rightarrow> server \<Rightarrow>
    (link_error + server) option" where
  "server_link_window h src srcwl dst dstidx killflag selectflag st =
     do { ss \<leftarrow> the_session st src;
          sd \<leftarrow> the_session st dst;
          wl \<leftarrow> wl_deref srcwl (s_windows ss);
          w \<leftarrow> wl_window wl;
          if src \<noteq> dst \<and> session_group_contains st src \<noteq> None \<and>
             session_group_contains st src = session_group_contains st dst then Some (Inl Sessions_grouped)
          else
            (let old = (if dstidx = - 1 then None else winlink_find_by_index (s_windows sd) dstidx)
             in if old \<noteq> None \<and> wl_window (the old) = Some w then Some (Inl Same_index)
                else do {
                  let was_current = (old \<noteq> None \<and> killflag \<and> s_curw sd = map_option wl_ptr old);
                  let st1 = (if old \<noteq> None \<and> killflag then drop_winlink h dst (wl_ptr (the old)) st else st);
                  let st2 = (if was_current then upd_session dst (s_curw_update (\<lambda>_. None)) st1 else st1);
                  (new, st3) \<leftarrow> session_attach h dst w (if dstidx = - 1 then - 1 - s_base_index sd else dstidx) st2;
                  case new of None \<Rightarrow> Some (Inl Index_in_use)
                  | Some p \<Rightarrow>
                      (let st4 = (if marked_wl st3 = Some srcwl then st3\<lparr>marked_wl := Some p\<rparr> else st3);
                           idx = (case the_session st4 dst of None \<Rightarrow> 0
                                  | Some s \<Rightarrow> (case wl_deref p (s_windows s) of None \<Rightarrow> 0 | Some l \<Rightarrow> wl_idx l))
                       in Some (Inr (if selectflag \<or> was_current then snd (session_select dst idx st4) else st4))) }) }"

end
