(* ===== verification/Recovery_History.thy ===== *)
theory Recovery_History
  imports Window Grid_History
begin

text \<open>
  The history of a pane that is put away or brought back
  (\<^verbatim>\<open>commands/cmd-newmux-recovery.c\<close>): what is visible is copied into the history before the pane
  leaves its window, unless it is there already, and the history a window had is restored after
  it came back and was resized. The loops over all columns compare cells as readers see them.
\<close>

section \<open>Comparing lines\<close>

definition newmux_grid_line_equal :: "utf8_table \<Rightarrow> grid \<Rightarrow> nat \<Rightarrow> grid \<Rightarrow> nat \<Rightarrow> bool" where
  "newmux_grid_line_equal tab gd1 py1 gd2 py2 =
     (case (grid_peek_line gd1 py1, grid_peek_line gd2 py2) of
        (Some gl1, Some gl2) \<Rightarrow>
          cellused gl1 = cellused gl2 \<and> gl_flags gl1 = gl_flags gl2 \<and>
          (\<forall>xx \<in> set [0..<max (gd_sx gd1) (gd_sx gd2)].
             grid_cells_equal (grid_get_cell tab gd1 xx py1) (grid_get_cell tab gd2 xx py2))
      | _ \<Rightarrow> False)"

definition newmux_alternate_saved_grid_in_history :: "utf8_table \<Rightarrow> screen \<Rightarrow> bool" where
  "newmux_alternate_saved_grid_in_history tab s =
     (case sc_saved_grid s of None \<Rightarrow> False
      | Some saved \<Rightarrow>
          (let gd = sc_grid s
           in if gd_sy saved = 0 \<or> hsize gd < gd_sy saved then False
              else \<forall>yy \<in> set [0..<gd_sy saved]. newmux_grid_line_equal tab gd (hsize gd - gd_sy saved + yy) saved yy))"

definition newmux_visible_grid_in_history :: "utf8_table \<Rightarrow> screen \<Rightarrow> bool" where
  "newmux_visible_grid_in_history tab s =
     (let gd = sc_grid s
      in if gd_sy gd = 0 \<or> hsize gd < gd_sy gd then False
         else \<forall>yy \<in> set [0..<gd_sy gd]. newmux_grid_line_equal tab gd (hsize gd - gd_sy gd + yy) gd (hsize gd + yy))"

section \<open>Preserving\<close>

text \<open>The new array has one more line than the old, zeroed between the history and the screen.\<close>

definition newmux_grid_insert_history_line :: "grid \<Rightarrow> grid \<Rightarrow> nat \<Rightarrow> grid" where
  "newmux_grid_insert_history_line gd src src_y =
     grid_duplicate_lines
       (gd\<lparr>linedata := take (hsize gd) (linedata gd) @ zero_line # take (gd_sy gd) (drop (hsize gd) (linedata gd)),
           hsize := hsize gd + 1\<rparr>) (hsize gd) src src_y 1"

definition insert_history_lines :: "grid \<Rightarrow> nat \<Rightarrow> grid \<Rightarrow> grid" where
  "insert_history_lines src n gd = fold (\<lambda>yy gd. newmux_grid_insert_history_line gd src yy) [0..<n] gd"

definition newmux_preserve_visible_grid :: "utf8_table \<Rightarrow> screen \<Rightarrow> screen" where
  "newmux_preserve_visible_grid tab s =
     (let gd = sc_grid s
      in if gd_sy gd = 0 \<or> newmux_visible_grid_in_history tab s then s
         else
           (let snapshot = grid_duplicate_lines (grid_create (gd_sx gd) (gd_sy gd) 0) 0 gd (hsize gd) (gd_sy gd)
            in s\<lparr>sc_grid := grid_collect_history (insert_history_lines snapshot (gd_sy snapshot) gd) True\<rparr>))"

definition newmux_preserve_alternate_saved_grid :: "utf8_table \<Rightarrow> screen \<Rightarrow> screen" where
  "newmux_preserve_alternate_saved_grid tab s =
     (case sc_saved_grid s of None \<Rightarrow> s
      | Some saved \<Rightarrow>
          if newmux_alternate_saved_grid_in_history tab s then s
          else s\<lparr>sc_grid := grid_collect_history (insert_history_lines saved (gd_sy saved) (sc_grid s)) True\<rparr>)"

definition newmux_preserve_pane_history :: "utf8_table \<Rightarrow> screen \<Rightarrow> screen" where
  "newmux_preserve_pane_history tab s =
     newmux_preserve_alternate_saved_grid tab (newmux_preserve_visible_grid tab s)"

section \<open>Snapshots\<close>

record newmux_pane_history_snapshot =
  sn_pane_id :: nat
  sn_hsize :: nat
  sn_grid :: grid

definition take_snapshot :: "nat \<Rightarrow> grid \<Rightarrow> newmux_pane_history_snapshot" where
  "take_snapshot p gd =
     \<lparr>sn_pane_id = p, sn_hsize = hsize gd,
      sn_grid = grid_duplicate_lines (grid_create (gd_sx gd) (hsize gd) 0) 0 gd 0 (hsize gd)\<rparr>"

definition newmux_history_snapshots_take :: "server \<Rightarrow> window \<Rightarrow> newmux_pane_history_snapshot list" where
  "newmux_history_snapshots_take st win =
     concat (map (\<lambda>p. case panes st p of None \<Rightarrow> []
        | Some wp \<Rightarrow> (let gd = sc_grid (wp_base wp) in if hsize gd = 0 then [] else [take_snapshot p gd])) (w_panes win))"

definition newmux_grid_history_matches_snapshot :: "utf8_table \<Rightarrow> grid \<Rightarrow> grid \<Rightarrow> bool" where
  "newmux_grid_history_matches_snapshot tab gd snapshot =
     (if hsize snapshot = 0 then hsize gd = 0
      else if hsize gd \<noteq> hsize snapshot then False
      else \<forall>yy \<in> set [0..<hsize snapshot]. newmux_grid_line_equal tab gd yy snapshot yy)"

definition restore_history :: "utf8_table \<Rightarrow> newmux_pane_history_snapshot \<Rightarrow> grid \<Rightarrow> grid" where
  "restore_history tab sn gd =
     (if newmux_grid_history_matches_snapshot tab gd (sn_grid sn) then gd
      else grid_collect_history (insert_history_lines (sn_grid sn) (sn_hsize sn) (grid_clear_history gd)) True)"

definition newmux_history_snapshots_restore_if_shrunk ::
  "newmux_pane_history_snapshot list \<Rightarrow> server \<Rightarrow> server" where
  "newmux_history_snapshots_restore_if_shrunk sns st =
     fold (\<lambda>sn st. upd_pane (sn_pane_id sn)
        (wp_base_update (sc_grid_update (restore_history (utf8_items_table st) sn))) st) sns st"

section \<open>Freshness\<close>

text \<open>What follows the last slash.\<close>

definition base_name :: "string \<Rightarrow> string" where
  "base_name cmd = rev (takeWhile (\<lambda>c. c \<noteq> CHR ''/'') (rev cmd))"

definition newmux_pane_current_command_is_shell :: "host \<Rightarrow> pane \<Rightarrow> bool" where
  "newmux_pane_current_command_is_shell h wp =
     (let cmd0 = osdep_get_name h wp;
          cmd1 = (if cmd0 = None \<or> cmd0 = Some '''' then wp_argv wp else cmd0);
          cmd = (if cmd1 = None \<or> cmd1 = Some '''' then (case wp_shell wp of Some sh \<Rightarrow> sh | None \<Rightarrow> '''') else the cmd1);
          base0 = base_name cmd;
          base = (if base0 \<noteq> '''' \<and> hd base0 = CHR ''-'' then tl base0 else base0)
      in base \<in> {''zsh'', ''bash'', ''fish'', ''sh''})"

definition newmux_pane_looks_fresh :: "host \<Rightarrow> pane \<Rightarrow> bool" where
  "newmux_pane_looks_fresh h wp =
     (let gd = sc_grid (wp_base wp)
      in if wp_fd wp = - 1 \<or> wp_modes wp \<noteq> [] then False
         else if wp_argc wp \<noteq> 0 then False
         else if \<not> newmux_pane_current_command_is_shell h wp then False
         else if sc_saved_grid (wp_base wp) \<noteq> None \<or> hsize gd \<noteq> 0 then False
         else length (filter (\<lambda>yy. case grid_peek_line gd (hsize gd + yy) of None \<Rightarrow> False | Some gl \<Rightarrow> cellused gl \<noteq> 0)
                [0..<gd_sy gd]) \<le> 1)"

definition newmux_window_looks_fresh :: "host \<Rightarrow> server \<Rightarrow> window \<Rightarrow> bool" where
  "newmux_window_looks_fresh h st win =
     (if window_count_panes st win True \<noteq> 1 then False
      else (case w_panes win of [] \<Rightarrow> False
            | p # _ \<Rightarrow> (case panes st p of None \<Rightarrow> False | Some wp \<Rightarrow> newmux_pane_looks_fresh h wp)))"

definition newmux_pane_is_dirty :: "pane \<Rightarrow> bool" where
  "newmux_pane_is_dirty wp =
     (case wp_dirty wp of None \<Rightarrow> False | Some value \<Rightarrow> value \<noteq> '''' \<and> value \<noteq> ''0'')"

definition newmux_window_is_dirty :: "server \<Rightarrow> window \<Rightarrow> bool" where
  "newmux_window_is_dirty st win =
     list_ex (\<lambda>p. case panes st p of None \<Rightarrow> False | Some wp \<Rightarrow> newmux_pane_is_dirty wp) (w_panes win)"

definition newmux_protect_pane_history_on_next_clear :: "nat \<Rightarrow> server \<Rightarrow> server" where
  "newmux_protect_pane_history_on_next_clear p st =
     upd_pane p (wp_flags_update (set_flag PANE_NEWMUX_HISTORY_PROTECTED)) st"

definition newmux_protect_window_history_on_next_clear :: "nat \<Rightarrow> server \<Rightarrow> server" where
  "newmux_protect_window_history_on_next_clear w st =
     (case windows st w of None \<Rightarrow> st
      | Some win \<Rightarrow> fold newmux_protect_pane_history_on_next_clear (w_panes win) st)"

section \<open>A history as a log\<close>

text \<open>
  What adding a line to a history promises: the line comes after the others, and the grid stays
  well formed with the same size and limit. Scrolling and inserting are the two ways to add.
\<close>

locale history_log =
  fixes add :: "'x \<Rightarrow> grid \<Rightarrow> grid"
    and new_line :: "'x \<Rightarrow> grid \<Rightarrow> grid_line"
    and ready :: "'x \<Rightarrow> grid \<Rightarrow> bool"
  assumes add_history: "grid_ok gd \<Longrightarrow> ready x gd \<Longrightarrow> history (add x gd) = history gd @ [new_line x gd]"
    and add_ok: "grid_ok gd \<Longrightarrow> ready x gd \<Longrightarrow> grid_ok (add x gd)"
    and add_frame: "grid_ok gd \<Longrightarrow> ready x gd \<Longrightarrow> gd_sy (add x gd) = gd_sy gd \<and> gd_sx (add x gd) = gd_sx gd \<and>
      hlimit (add x gd) = hlimit gd"
    and ready_add: "grid_ok gd \<Longrightarrow> ready x gd \<Longrightarrow> ready y (add x gd) = ready y gd"
begin

primrec new_lines :: "'x list \<Rightarrow> grid \<Rightarrow> grid_line list" where
  "new_lines [] gd = []"
| "new_lines (x # xs) gd = new_line x gd # new_lines xs (add x gd)"

lemma length_new_lines: "length (new_lines xs gd) = length xs"
  by (induction xs arbitrary: gd) simp_all

lemma add_all:
  assumes "grid_ok gd" "\<forall>x \<in> set xs. ready x gd"
  shows "history (fold add xs gd) = history gd @ new_lines xs gd \<and> grid_ok (fold add xs gd) \<and>
    gd_sy (fold add xs gd) = gd_sy gd \<and> gd_sx (fold add xs gd) = gd_sx gd \<and> hlimit (fold add xs gd) = hlimit gd"
  using assms
proof (induction xs arbitrary: gd)
  case (Cons x xs)
  then have "\<forall>y \<in> set xs. ready y (add x gd)" using ready_add [of gd x] by simp
  with Cons show ?case using add_history [of gd x] add_ok [of gd x] add_frame [of gd x] by simp
qed simp

text \<open>Adding and then collecting keeps the newest lines and respects the limit.\<close>

lemma add_collect:
  assumes "grid_ok gd" "\<forall>x \<in> set xs. ready x gd"
  shows "\<exists>n. history (grid_collect_history (fold add xs gd) True) = drop n (history gd @ new_lines xs gd) \<and>
    hsize (grid_collect_history (fold add xs gd) True) \<le> max (hlimit gd) (hsize gd + length xs) \<and>
    (0 < hsize gd + length xs \<longrightarrow> hsize (grid_collect_history (fold add xs gd) True) \<le> hlimit gd) \<and>
    grid_ok (grid_collect_history (fold add xs gd) True)"
proof -
  note all = add_all [OF assms]
  then have ok: "grid_ok (fold add xs gd)" by blast
  have "hsize (fold add xs gd) = hsize gd + length xs"
    using all length_history [OF ok] length_history [OF assms(1)] length_new_lines by (metis length_append)
  then show ?thesis using collect_history_eq [OF ok, of True] grid_ok_collect [OF ok, of True] all by force
qed

end

interpretation scrolled: history_log "\<lambda>(now, bg) gd. grid_scroll_history now gd bg"
  "\<lambda>(now, bg) gd. (grid_compact_line (hd (visible gd)))\<lparr>gl_time := now\<rparr>" "\<lambda>_ gd. 0 < gd_sy gd"
proof unfold_locales
  fix gd :: grid and x :: "nat \<times> u32"
  assume g: "grid_ok gd" "0 < gd_sy gd"
  obtain now bg where x: "x = (now, bg)" by (cases x)
  note eq = scroll_history_eq [OF g, of now bg]
  show "history ((\<lambda>(now, bg) gd. grid_scroll_history now gd bg) x gd) =
      history gd @ [(\<lambda>(now, bg) gd. (grid_compact_line (hd (visible gd)))\<lparr>gl_time := now\<rparr>) x gd]"
    using eq by (simp add: x)
  show "grid_ok ((\<lambda>(now, bg) gd. grid_scroll_history now gd bg) x gd)" using grid_ok_scroll [OF g] by (simp add: x)
  show f: "gd_sy ((\<lambda>(now, bg) gd. grid_scroll_history now gd bg) x gd) = gd_sy gd \<and>
      gd_sx ((\<lambda>(now, bg) gd. grid_scroll_history now gd bg) x gd) = gd_sx gd \<and>
      hlimit ((\<lambda>(now, bg) gd. grid_scroll_history now gd bg) x gd) = hlimit gd"
    by (simp add: x grid_scroll_history_def Let_def grid_empty_line_def)
  then show "(0 < gd_sy ((\<lambda>(now, bg) gd. grid_scroll_history now gd bg) x gd)) = (0 < gd_sy gd)" by simp
qed

lemma insert_history_line_eq:
  assumes "grid_ok gd" "grid_ok src" "y < hsize src + gd_sy src"
  shows "history (newmux_grid_insert_history_line gd src y) = history gd @ [linedata src ! y] \<and>
    visible (newmux_grid_insert_history_line gd src y) = visible gd \<and>
    grid_ok (newmux_grid_insert_history_line gd src y) \<and>
    gd_sy (newmux_grid_insert_history_line gd src y) = gd_sy gd \<and>
    gd_sx (newmux_grid_insert_history_line gd src y) = gd_sx gd \<and>
    hlimit (newmux_grid_insert_history_line gd src y) = hlimit gd"
proof -
  note p = line_parts [OF assms(1)]
  have "linedata (newmux_grid_insert_history_line gd src y) = history gd @ linedata src ! y # visible gd"
    using assms(3) p(2,3)
    by (simp add: newmux_grid_insert_history_line_def grid_duplicate_lines_def Let_def list_update_append
        flip: history_def visible_def)
  moreover have "hsize (newmux_grid_insert_history_line gd src y) = hsize gd + 1"
    "gd_sy (newmux_grid_insert_history_line gd src y) = gd_sy gd"
    "gd_sx (newmux_grid_insert_history_line gd src y) = gd_sx gd"
    "hlimit (newmux_grid_insert_history_line gd src y) = hlimit gd"
    using assms(3) by (simp_all add: newmux_grid_insert_history_line_def grid_duplicate_lines_def Let_def)
  ultimately have parts: "history (newmux_grid_insert_history_line gd src y) = history gd @ [linedata src ! y]"
    "visible (newmux_grid_insert_history_line gd src y) = visible gd"
    "gd_sy (newmux_grid_insert_history_line gd src y) = gd_sy gd"
    "gd_sx (newmux_grid_insert_history_line gd src y) = gd_sx gd"
    "hlimit (newmux_grid_insert_history_line gd src y) = hlimit gd"
    "hsize (newmux_grid_insert_history_line gd src y) + gd_sy gd = length (linedata (newmux_grid_insert_history_line gd src y))"
    using p(2,3) by (simp_all add: history_def [of "newmux_grid_insert_history_line gd src y"]
        visible_def [of "newmux_grid_insert_history_line gd src y"])
  moreover have "line_ok (linedata src ! y)" using grid_ok_nth [OF assms(2,3)] .
  ultimately show ?thesis using assms(1) by (auto simp: grid_ok_parts)
qed

interpretation inserted: history_log "\<lambda>(src, y) gd. newmux_grid_insert_history_line gd src y"
  "\<lambda>(src, y) gd. linedata src ! y" "\<lambda>(src, y) gd. grid_ok src \<and> y < hsize src + gd_sy src"
  by unfold_locales (auto simp: insert_history_line_eq)

section \<open>Copying lines\<close>

lemma new_lines_inserted:
  "inserted.new_lines (map (Pair src) ys) gd = map (\<lambda>y. linedata src ! y) ys"
  by (induction ys arbitrary: gd) simp_all

lemma insert_history_lines_fold:
  "insert_history_lines src n gd =
     fold (\<lambda>(src, y) gd. newmux_grid_insert_history_line gd src y) (map (Pair src) [0..<n]) gd"
  by (simp add: insert_history_lines_def fold_map comp_def)

lemma insert_visible:
  assumes "grid_ok src" "n \<le> hsize src + gd_sy src" "grid_ok gd"
  shows "visible (insert_history_lines src n gd) = visible gd"
  using assms(2)
proof (induction n)
  case (Suc n)
  have "grid_ok (insert_history_lines src n gd)"
    unfolding insert_history_lines_fold using inserted.add_all [OF assms(3), of "map (Pair src) [0..<n]"] Suc.prems assms(1) by auto
  then show ?case using Suc insert_history_line_eq [OF _ assms(1), of "insert_history_lines src n gd" n]
    by (simp add: insert_history_lines_def)
qed (simp add: insert_history_lines_def)

lemma map_nth_upt: "n \<le> length xs \<Longrightarrow> map (\<lambda>y. xs ! y) [0..<n] = take n xs"
  by (rule nth_equalityI) simp_all

lemma insert_history_lines_eq:
  assumes "grid_ok gd" "grid_ok src" "n \<le> hsize src + gd_sy src"
  shows "history (insert_history_lines src n gd) = history gd @ take n (linedata src)"
    "visible (insert_history_lines src n gd) = visible gd" "grid_ok (insert_history_lines src n gd)"
    "gd_sy (insert_history_lines src n gd) = gd_sy gd" "gd_sx (insert_history_lines src n gd) = gd_sx gd"
    "hlimit (insert_history_lines src n gd) = hlimit gd" "hsize (insert_history_lines src n gd) = hsize gd + n"
proof -
  have ready: "\<forall>x \<in> set (map (Pair src) [0..<n]). (\<lambda>(src, y) gd. grid_ok src \<and> y < hsize src + gd_sy src) x gd"
    using assms by auto
  have len: "n \<le> length (linedata src)" using assms(2,3) by (simp add: grid_ok_def)
  note all = inserted.add_all [OF assms(1) ready, folded insert_history_lines_fold, unfolded new_lines_inserted map_nth_upt [OF len]]
  then show "history (insert_history_lines src n gd) = history gd @ take n (linedata src)"
    "grid_ok (insert_history_lines src n gd)"
    "gd_sy (insert_history_lines src n gd) = gd_sy gd" "gd_sx (insert_history_lines src n gd) = gd_sx gd"
    "hlimit (insert_history_lines src n gd) = hlimit gd" by simp_all
  then show "hsize (insert_history_lines src n gd) = hsize gd + n"
    using length_history [of "insert_history_lines src n gd"] length_history [OF assms(1)] len by simp
  show "visible (insert_history_lines src n gd) = visible gd" using insert_visible [OF assms(2,3,1)] .
qed

lemma fold_set_lines:
  "n \<le> length (linedata dst) \<Longrightarrow>
   linedata (fold (\<lambda>yy dst. set_line yy (f yy) dst) [0..<n] dst) = map f [0..<n] @ drop n (linedata dst)"
proof (induction n)
  case (Suc n)
  then have "drop n (linedata dst) = linedata dst ! n # drop (Suc n) (linedata dst)" by (simp add: Cons_nth_drop_Suc)
  with Suc show ?case by (simp add: list_update_append)
qed simp

lemma fold_set_lines_frame:
  "hsize (fold (\<lambda>yy dst. set_line yy (f yy) dst) ys dst) = hsize dst \<and> gd_sy (fold (\<lambda>yy dst. set_line yy (f yy) dst) ys dst) = gd_sy dst \<and>
   gd_sx (fold (\<lambda>yy dst. set_line yy (f yy) dst) ys dst) = gd_sx dst"
  by (induction ys arbitrary: dst) simp_all

text \<open>A fresh grid that lines were copied into: the snapshot of the code.\<close>

definition snapshot_of :: "grid \<Rightarrow> nat \<Rightarrow> nat \<Rightarrow> grid" where
  "snapshot_of gd from n = grid_duplicate_lines (grid_create (gd_sx gd) n 0) 0 gd from n"

lemma snapshot_of_eq:
  assumes "grid_ok gd" "from + n \<le> hsize gd + gd_sy gd"
  shows "linedata (snapshot_of gd from n) = take n (drop from (linedata gd))" "hsize (snapshot_of gd from n) = 0"
    "gd_sy (snapshot_of gd from n) = n" "gd_sx (snapshot_of gd from n) = gd_sx gd" "grid_ok (snapshot_of gd from n)"
proof -
  let ?c = "grid_create (gd_sx gd) n 0"
  have eq: "snapshot_of gd from n = fold (\<lambda>yy dst. set_line yy (linedata gd ! (from + yy)) dst) [0..<n] ?c"
    using assms(2) by (simp add: snapshot_of_def grid_duplicate_lines_def Let_def grid_create_def)
  have "map (\<lambda>yy. linedata gd ! (from + yy)) [0..<n] = map (\<lambda>yy. drop from (linedata gd) ! yy) [0..<n]"
    using assms by (auto simp: grid_ok_def)
  also have "\<dots> = take n (drop from (linedata gd))"
    using assms by (intro map_nth_upt) (auto simp: grid_ok_def)
  finally show lines: "linedata (snapshot_of gd from n) = take n (drop from (linedata gd))"
    unfolding eq using fold_set_lines [of n ?c] by (simp add: grid_create_def)
  show f: "hsize (snapshot_of gd from n) = 0" "gd_sy (snapshot_of gd from n) = n" "gd_sx (snapshot_of gd from n) = gd_sx gd"
    unfolding eq using fold_set_lines_frame by (simp_all add: grid_create_def)
  have "set (take n (drop from (linedata gd))) \<subseteq> set (take (hsize gd + gd_sy gd) (linedata gd))"
    using assms(2) set_take_subset_set_take [of "from + n" "hsize gd + gd_sy gd" "linedata gd"]
    by (metis add.commute order_trans set_drop_subset take_drop)
  then show "grid_ok (snapshot_of gd from n)"
    using assms lines f by (auto simp: grid_ok_def)
qed

section \<open>Properties\<close>

lemma cells_equal_refl: "grid_cells_equal gc gc"
  by (simp add: grid_cells_equal_def grid_cells_look_equal_def)

lemma line_equal_same:
  assumes "py1 < hsize gd1 + gd_sy gd1" "py2 < hsize gd2 + gd_sy gd2" "linedata gd1 ! py1 = linedata gd2 ! py2"
  shows "newmux_grid_line_equal tab gd1 py1 gd2 py2"
  using assms by (simp add: newmux_grid_line_equal_def grid_peek_line_def grid_check_y_def grid_get_cell_def cells_equal_refl)

lemma visible_in_history_newest:
  assumes "grid_ok gd" "0 < gd_sy gd" "history gd = h @ visible gd"
  shows "newmux_visible_grid_in_history tab (s\<lparr>sc_grid := gd\<rparr>)"
proof -
  have len: "hsize gd = length h + gd_sy gd" using assms(3) length_history [OF assms(1)] length_visible [OF assms(1)]
    by (metis length_append)
  have "newmux_grid_line_equal tab gd (hsize gd - gd_sy gd + yy) gd (hsize gd + yy)" if "yy < gd_sy gd" for yy
  proof (rule line_equal_same)
    have "linedata gd ! (length h + yy) = history gd ! (length h + yy)" using that len by (simp add: history_def)
    also have "\<dots> = visible gd ! yy" by (simp add: assms(3))
    finally show "linedata gd ! (hsize gd - gd_sy gd + yy) = linedata gd ! (hsize gd + yy)"
      using that len assms(1) by (simp add: visible_def grid_ok_def)
  qed (use that len in simp_all)
  then show ?thesis using len assms(2) by (simp add: newmux_visible_grid_in_history_def Let_def)
qed

lemma preserve_visible_cases:
  assumes "grid_ok (sc_grid s)"
  obtains "newmux_preserve_visible_grid tab s = s" "newmux_visible_grid_in_history tab s \<or> gd_sy (sc_grid s) = 0"
  | gd n where "newmux_preserve_visible_grid tab s = s\<lparr>sc_grid := gd\<rparr>" "grid_ok gd" "0 < gd_sy gd"
    "\<not> newmux_visible_grid_in_history tab s"
    "history gd = drop n (history (sc_grid s) @ visible (sc_grid s))" "visible gd = visible (sc_grid s)"
    "gd_sy gd = gd_sy (sc_grid s)" "hlimit gd = hlimit (sc_grid s)" "n \<le> hsize (sc_grid s) + gd_sy (sc_grid s)"
    "hsize gd = hsize (sc_grid s) + gd_sy (sc_grid s) - n" "hsize gd \<le> hlimit gd"
    "hlimit gd < hsize (sc_grid s) + gd_sy gd \<longrightarrow> hsize gd = hlimit gd"
    "hsize (sc_grid s) + gd_sy gd < hlimit gd \<longrightarrow> n = 0"
    "hsize (sc_grid s) + gd_sy gd = hlimit gd \<longrightarrow> n \<le> 1"
proof (cases "gd_sy (sc_grid s) = 0 \<or> newmux_visible_grid_in_history tab s")
  case True
  then have same: "newmux_preserve_visible_grid tab s = s" by (auto simp: newmux_preserve_visible_grid_def Let_def)
  have "newmux_visible_grid_in_history tab s \<or> gd_sy (sc_grid s) = 0" using True by auto
  then show ?thesis by (rule that(1) [OF same])
next
  case False
  let ?g = "sc_grid s" and ?n = "gd_sy (sc_grid s)"
  let ?snap = "snapshot_of ?g (hsize ?g) ?n"
  let ?i = "insert_history_lines ?snap ?n ?g"
  let ?c = "grid_collect_history ?i True"
  note sn = snapshot_of_eq [OF assms order_refl]
  have eq: "newmux_preserve_visible_grid tab s = s\<lparr>sc_grid := ?c\<rparr>"
    using False sn by (simp add: newmux_preserve_visible_grid_def Let_def snapshot_of_def)
  have n: "?n \<le> hsize ?snap + gd_sy ?snap" using sn by simp
  note ins = insert_history_lines_eq [OF assms sn(5) n]
  have vis: "take ?n (linedata ?snap) = visible ?g" by (simp add: sn(1) visible_def)
  obtain k where k: "k \<le> hsize ?i" "history ?c = drop k (history ?i)" "visible ?c = visible ?i" "hsize ?c = hsize ?i - k"
    "gd_sy ?c = gd_sy ?i" "hlimit ?c = hlimit ?i" "hsize ?c \<le> hlimit ?i" "hlimit ?i < hsize ?i \<longrightarrow> hsize ?c = hlimit ?i"
    using collect_history_eq [OF ins(3), of True] by auto
  have small: "hsize ?i < hlimit ?i \<longrightarrow> k = 0"
  proof
    assume "hsize ?i < hlimit ?i"
    then have "hsize ?c = hsize ?i" by (simp add: grid_collect_history_def)
    then show "k = 0" using k(1,4) by simp
  qed
  have edge: "hsize ?i = hlimit ?i \<longrightarrow> k \<le> 1"
  proof
    assume "hsize ?i = hlimit ?i"
    then have "hsize ?i - 1 \<le> hsize ?c" by (simp add: grid_collect_history_def Let_def)
    then show "k \<le> 1" using k(1,4) by linarith
  qed
  show ?thesis
    using that(2) [OF eq grid_ok_collect [OF ins(3)]] False k ins vis small edge by auto
qed


text \<open>
  C8. The check before a history is restored looks at the wrong size: the grid of a snapshot is
  made without history, so \<^verbatim>\<open>newmux_grid_history_matches_snapshot\<close> only asks whether the pane has no
  history now. A history that is gone when the window comes back is therefore taken for the
  saved one and stays lost, whatever the snapshot holds, while any other history is replaced by
  the newest saved lines.
\<close>

theorem newmux_snapshot_check_wrong:
  assumes "grid_ok gd0" "grid_ok gd"
  shows "(newmux_grid_history_matches_snapshot tab gd (sn_grid (take_snapshot p gd0)) \<longleftrightarrow> hsize gd = 0) \<and>
    (hsize gd = 0 \<longrightarrow> restore_history tab (take_snapshot p gd0) gd = gd) \<and>
    (hsize gd \<noteq> 0 \<longrightarrow> (\<exists>n. history (restore_history tab (take_snapshot p gd0) gd) = drop n (history gd0)) \<and>
       visible (restore_history tab (take_snapshot p gd0) gd) = visible gd \<and>
       (hsize gd0 < hlimit gd \<longrightarrow> history (restore_history tab (take_snapshot p gd0) gd) = history gd0))"
proof (intro conjI)
  have le: "0 + hsize gd0 \<le> hsize gd0 + gd_sy gd0" by simp
  note sn = snapshot_of_eq [OF assms(1) le]
  have t: "sn_grid (take_snapshot p gd0) = snapshot_of gd0 0 (hsize gd0)" "sn_hsize (take_snapshot p gd0) = hsize gd0"
    by (simp_all add: take_snapshot_def snapshot_of_def)
  show m: "newmux_grid_history_matches_snapshot tab gd (sn_grid (take_snapshot p gd0)) \<longleftrightarrow> hsize gd = 0"
    by (simp add: newmux_grid_history_matches_snapshot_def t sn(2))
  show "hsize gd = 0 \<longrightarrow> restore_history tab (take_snapshot p gd0) gd = gd"
    using m by (simp add: restore_history_def)
  note c = clear_history_eq [OF assms(2)] and okc = grid_ok_clear_history [OF assms(2)]
  have n: "hsize gd0 \<le> hsize (snapshot_of gd0 0 (hsize gd0)) + gd_sy (snapshot_of gd0 0 (hsize gd0))" using sn by simp
  note ins = insert_history_lines_eq [OF okc sn(5) n]
  have h: "history (insert_history_lines (snapshot_of gd0 0 (hsize gd0)) (hsize gd0) (grid_clear_history gd)) = history gd0"
    using ins(1) c sn(1) by (simp add: history_def [of gd0])
  let ?i = "insert_history_lines (snapshot_of gd0 0 (hsize gd0)) (hsize gd0) (grid_clear_history gd)"
  have "hsize ?i = hsize gd0" using h length_history [OF ins(3)] length_history [OF assms(1)] by simp
  then have "hsize gd0 < hlimit gd \<longrightarrow> grid_collect_history ?i True = ?i"
    using ins(6) c by (simp add: grid_collect_history_def)
  moreover obtain k where "history (grid_collect_history ?i True) = drop k (history gd0)"
    "visible (grid_collect_history ?i True) = visible gd"
    using collect_history_eq [OF ins(3), of True] h ins(2) c by auto
  ultimately show "hsize gd \<noteq> 0 \<longrightarrow> (\<exists>n. history (restore_history tab (take_snapshot p gd0) gd) = drop n (history gd0)) \<and>
       visible (restore_history tab (take_snapshot p gd0) gd) = visible gd \<and>
       (hsize gd0 < hlimit gd \<longrightarrow> history (restore_history tab (take_snapshot p gd0) gd) = history gd0)"
    using m h by (auto simp: restore_history_def t)
qed

lemma differ_not_equal:
  assumes "py1 < hsize gd1 + gd_sy gd1" "py2 < hsize gd2 + gd_sy gd2"
    "cellused (linedata gd1 ! py1) \<noteq> cellused (linedata gd2 ! py2)"
  shows "\<not> newmux_grid_line_equal tab gd1 py1 gd2 py2"
  using assms by (simp add: newmux_grid_line_equal_def grid_peek_line_def grid_check_y_def)

lemma history_end_nth:
  assumes "grid_ok gd" "history gd = h @ X" "i < length X"
  shows "linedata gd ! (hsize gd - length X + i) = X ! i" "length X \<le> hsize gd"
proof -
  have len: "hsize gd = length h + length X" using assms(2) length_history [OF assms(1)] by (metis length_append)
  then show "length X \<le> hsize gd" by simp
  have "linedata gd ! (length h + i) = history gd ! (length h + i)" using len assms(3) by (simp add: history_def)
  then show "linedata gd ! (hsize gd - length X + i) = X ! i" using len assms(2) by simp
qed

lemma not_in_history:
  assumes "grid_ok (sc_grid s)" "history (sc_grid s) = h @ X" "length X = gd_sy (sc_grid s)" "i < length X"
  shows "cellused (X ! i) \<noteq> cellused (visible (sc_grid s) ! i) \<Longrightarrow> \<not> newmux_visible_grid_in_history tab s"
    "sc_saved_grid s = Some saved \<Longrightarrow> grid_ok saved \<Longrightarrow> hsize saved = 0 \<Longrightarrow> gd_sy saved = length X \<Longrightarrow>
       cellused (X ! i) \<noteq> cellused (visible saved ! i) \<Longrightarrow> \<not> newmux_alternate_saved_grid_in_history tab s"
proof -
  let ?g = "sc_grid s"
  note x = history_end_nth [OF assms(1,2,4)]
  have lt: "hsize ?g - length X + i < hsize ?g + gd_sy ?g" using x(2) assms(3,4) by arith
  have "visible ?g ! i = linedata ?g ! (hsize ?g + i)" using assms by (simp add: visible_def grid_ok_def)
  then show "cellused (X ! i) \<noteq> cellused (visible ?g ! i) \<Longrightarrow> \<not> newmux_visible_grid_in_history tab s"
    using differ_not_equal [OF lt, of "hsize ?g + i" ?g tab] x(1) assms(3,4)
    by (auto simp: newmux_visible_grid_in_history_def Let_def intro!: bexI [of _ i])
  show "\<not> newmux_alternate_saved_grid_in_history tab s"
    if "sc_saved_grid s = Some saved" "grid_ok saved" "hsize saved = 0" "gd_sy saved = length X"
      "cellused (X ! i) \<noteq> cellused (visible saved ! i)"
  proof -
    have "visible saved ! i = linedata saved ! i" using that assms(4) by (simp add: visible_def grid_ok_def)
    then show ?thesis
      using differ_not_equal [OF lt, of i saved tab] x(1) assms(3,4) that
      by (auto simp: newmux_alternate_saved_grid_in_history_def Let_def intro!: bexI [of _ i])
  qed
qed

text \<open>One round on the alternate screen, with room in the history.\<close>

lemma preserve_alternate_once:
  assumes "grid_ok (sc_grid s)" "sc_saved_grid s = Some saved" "grid_ok saved" "hsize saved = 0"
    "gd_sy saved = gd_sy (sc_grid s)" "i < gd_sy saved"
    "cellused (visible (sc_grid s) ! i) \<noteq> cellused (visible saved ! i)"
    "\<not> newmux_visible_grid_in_history tab s" "hsize (sc_grid s) + 2 * gd_sy saved < hlimit (sc_grid s)"
  defines "s' \<equiv> newmux_preserve_pane_history tab s"
  shows "grid_ok (sc_grid s')" "sc_saved_grid s' = Some saved"
    "history (sc_grid s') = history (sc_grid s) @ visible (sc_grid s) @ visible saved"
    "visible (sc_grid s') = visible (sc_grid s)" "gd_sy (sc_grid s') = gd_sy (sc_grid s)"
    "hsize (sc_grid s') = hsize (sc_grid s) + 2 * gd_sy saved" "hlimit (sc_grid s') = hlimit (sc_grid s)"
    "\<not> newmux_visible_grid_in_history tab s'"
proof -
  obtain gd where gd: "newmux_preserve_visible_grid tab s = s\<lparr>sc_grid := gd\<rparr>" "grid_ok gd"
    "history gd = history (sc_grid s) @ visible (sc_grid s)" "visible gd = visible (sc_grid s)"
    "gd_sy gd = gd_sy (sc_grid s)" "hlimit gd = hlimit (sc_grid s)" "hsize gd = hsize (sc_grid s) + gd_sy saved"
    using assms(1)
  proof (cases rule: preserve_visible_cases [where tab = tab])
    case 1
    then show ?thesis using assms(5,6,8) by auto
  next
    case (2 gd n)
    then have "n = 0" using assms(5,9) by simp
    then show ?thesis using 2 assms(5) by (intro that [of gd]) auto
  qed
  have i: "i < length (visible (sc_grid s))" "length (visible (sc_grid s)) = gd_sy saved"
    using assms(1,5,6) by simp_all
  let ?i = "insert_history_lines saved (gd_sy saved) gd"
  have "\<not> newmux_alternate_saved_grid_in_history tab (s\<lparr>sc_grid := gd\<rparr>)"
    using not_in_history(2) [of "s\<lparr>sc_grid := gd\<rparr>" _ "visible (sc_grid s)" i saved tab] gd assms(2-7) i by auto
  then have s': "s' = s\<lparr>sc_grid := grid_collect_history ?i True\<rparr>"
    using assms(2) by (simp add: s'_def newmux_preserve_pane_history_def newmux_preserve_alternate_saved_grid_def gd(1))
  have n: "gd_sy saved \<le> hsize saved + gd_sy saved" by simp
  note ins = insert_history_lines_eq [OF gd(2) assms(3) n]
  have "grid_collect_history ?i True = ?i" using ins(6,7) gd(6,7) assms(9) by (simp add: grid_collect_history_def)
  then have s': "s' = s\<lparr>sc_grid := ?i\<rparr>" using s' by simp
  have vis: "take (gd_sy saved) (linedata saved) = visible saved" by (simp add: visible_def assms(4))
  show parts: "grid_ok (sc_grid s')" "sc_saved_grid s' = Some saved"
    "history (sc_grid s') = history (sc_grid s) @ visible (sc_grid s) @ visible saved"
    "visible (sc_grid s') = visible (sc_grid s)" "gd_sy (sc_grid s') = gd_sy (sc_grid s)"
    "hsize (sc_grid s') = hsize (sc_grid s) + 2 * gd_sy saved" "hlimit (sc_grid s') = hlimit (sc_grid s)"
    using ins gd assms(2) vis by (simp_all add: s')
  show "\<not> newmux_visible_grid_in_history tab s'"
    using not_in_history(1) [OF parts(1), of "history (sc_grid s) @ visible (sc_grid s)" "visible saved" i tab]
      parts assms(3-7) by auto
qed

text \<open>
  C9. A pane on the alternate screen gets its two screens copied into its history every time it is
  put away: the saved screen is appended after the visible one, where the next check for the
  visible lines does not look. Putting the pane away twice with nothing happening in between
  leaves four screens in the history instead of two.
\<close>

theorem newmux_preserve_alternate_duplicates:
  assumes "grid_ok (sc_grid s)" "sc_saved_grid s = Some saved" "grid_ok saved" "hsize saved = 0"
    "gd_sy saved = gd_sy (sc_grid s)" "i < gd_sy saved"
    "cellused (visible (sc_grid s) ! i) \<noteq> cellused (visible saved ! i)"
    "\<not> newmux_visible_grid_in_history tab s" "hsize (sc_grid s) + 4 * gd_sy saved < hlimit (sc_grid s)"
  shows "history (sc_grid (newmux_preserve_pane_history tab (newmux_preserve_pane_history tab s))) =
    history (sc_grid s) @ visible (sc_grid s) @ visible saved @ visible (sc_grid s) @ visible saved"
proof -
  have lt: "hsize (sc_grid s) + 2 * gd_sy saved < hlimit (sc_grid s)" using assms(9) by simp
  note once = preserve_alternate_once [OF assms(1-8) lt]
  have "hsize (sc_grid (newmux_preserve_pane_history tab s)) + 2 * gd_sy saved < hlimit (sc_grid (newmux_preserve_pane_history tab s))"
    using once(6,7) assms(9) by simp
  from preserve_alternate_once(3) [OF once(1,2) assms(3,4) _ assms(6) _ once(8) this] once assms(5,7)
  show ?thesis by simp
qed

section \<open>Examples\<close>

text \<open>A screen of two lines, and another one saved behind it.\<close>

definition demo_shell :: "nat \<Rightarrow> nat \<Rightarrow> nat \<Rightarrow> grid" where
  "demo_shell a b hl = (grid_create 4 2 hl)\<lparr>linedata := [demo_line 0 a, demo_line 0 b]\<rparr>"

lemma demo_shell_facts: "grid_ok (demo_shell a b hl)" "hsize (demo_shell a b hl) = 0" "gd_sy (demo_shell a b hl) = 2"
  "hlimit (demo_shell a b hl) = hl" "history (demo_shell a b hl) = []"
  "visible (demo_shell a b hl) = [demo_line 0 a, demo_line 0 b]"
  by (auto simp: demo_shell_def grid_create_def grid_ok_def demo_line_def line_ok_def zero_line_def entry_ok_def
      grid_cleared_entry_def history_def visible_def)

definition demo_screen :: screen where
  "demo_screen = \<lparr>sc_grid = demo_shell 3 1 100, sc_saved_grid = Some (demo_shell 2 0 100)\<rparr>"


theorem newmux_snapshot_check_witness:
  "restore_history utf8_empty (take_snapshot 7 demo_grid) (demo_shell 3 1 100) = demo_shell 3 1 100 \<and>
   history demo_grid \<noteq> [] \<and>
   history (restore_history utf8_empty (take_snapshot 7 demo_grid) (demo_grid\<lparr>hlimit := 9\<rparr>)) = history demo_grid"
proof -
  have ok: "grid_ok (demo_grid\<lparr>hlimit := 9\<rparr>)" "hsize (demo_grid\<lparr>hlimit := 9\<rparr>) \<noteq> 0" "hsize demo_grid < hlimit (demo_grid\<lparr>hlimit := 9\<rparr>)"
    using demo_grid_facts(1) by (simp_all add: grid_ok_def demo_grid_def)
  have "history demo_grid \<noteq> []" by (simp add: history_def demo_grid_def)
  then show ?thesis
    using newmux_snapshot_check_wrong [OF demo_grid_facts(1) demo_shell_facts(1) [of 3 1 100], of utf8_empty 7]
      newmux_snapshot_check_wrong [OF demo_grid_facts(1) ok(1), of utf8_empty 7] ok(2,3) demo_shell_facts(2) by simp
qed

theorem newmux_preserve_alternate_witness:
  "history (sc_grid (newmux_preserve_pane_history utf8_empty (newmux_preserve_pane_history utf8_empty demo_screen))) =
     [demo_line 0 3, demo_line 0 1, demo_line 0 2, demo_line 0 0, demo_line 0 3, demo_line 0 1, demo_line 0 2, demo_line 0 0]"
proof -
  have "\<not> newmux_visible_grid_in_history utf8_empty demo_screen"
    by (simp add: newmux_visible_grid_in_history_def demo_screen_def demo_shell_facts)
  moreover have "cellused (demo_line 0 3) \<noteq> cellused (demo_line 0 2)" by (simp add: demo_line_def)
  ultimately show ?thesis
    using newmux_preserve_alternate_duplicates [of demo_screen "demo_shell 2 0 100" 0 utf8_empty]
    by (simp add: demo_screen_def demo_shell_facts)
qed

end
