(* ===== verification/Recovery.thy ===== *)
theory Recovery
  imports Session Recovery_History
begin

text \<open>
  Recovery of closed panes and windows, \<^verbatim>\<open>commands/cmd-newmux-recovery.c\<close>. A pane or window that is
  deleted softly is moved into an internal session and an item that remembers where it was is
  pushed on a bounded stack; reopening pops the newest item and moves the object back. An item
  can also be reserved by a client, and claimed or released later. A message of the code is the
  \<open>newmux_error\<close> it stands for, and the lines it prints are strings. The time of closing is
  never read and is left out. As before, the outer \<open>None\<close> of a result is a crash.
\<close>

section \<open>Items\<close>

datatype newmux_closed_type = NEWMUX_CLOSED_PANE | NEWMUX_CLOSED_WINDOW | NEWMUX_CLOSED_SESSION

text \<open>A window id of \<open>-1\<close> says that there is no neighbour.\<close>

record newmux_closed_item =
  ci_type :: newmux_closed_type
  ci_sequence :: u32
  ci_session_id :: nat
  ci_session_name :: string
  ci_window_id :: nat
  ci_window_name :: string
  ci_window_index :: int
  ci_window_position :: int
  ci_left_window_id :: int
  ci_right_window_id :: int
  ci_window_layout :: "string option"
  ci_pane_id :: nat
  ci_pane_index :: nat
  ci_active_pane_index :: nat
  ci_recovery_session_id :: nat
  ci_recovery_window_id :: nat

record recovery =
  newmux_closed_stack :: "newmux_closed_item list"
  newmux_reserved_stack :: "newmux_closed_item list"
  newmux_closed_next_sequence :: u32
  newmux_closed_count :: nat

definition NEWMUX_RECOVERY_MAX_ITEMS :: nat where
  "NEWMUX_RECOVERY_MAX_ITEMS = 32"

definition NEWMUX_RECOVERY_SESSION :: string where
  "NEWMUX_RECOVERY_SESSION = ''__newmux-recovery''"

datatype newmux_error =
    Index_in_use
  | Session_missing
  | Window_missing
  | Live_pane_missing
  | Live_window_missing
  | Recovery_window_missing
  | Layout_failed
  | Session_empty
  | Unsupported_type
  | Last_pane
  | Last_tab
  | No_target
  | Not_implemented
  | Missing_sequence
  | Invalid_sequence

section \<open>The stack\<close>

fun evict :: "nat \<times> newmux_closed_item list \<Rightarrow> nat \<times> newmux_closed_item list" where
  "evict (0, items) = (0, items)"
| "evict (Suc n, items) =
     (if Suc n > NEWMUX_RECOVERY_MAX_ITEMS then evict (n, butlast items) else (Suc n, items))"

definition newmux_stack_push :: "newmux_closed_item \<Rightarrow> recovery \<Rightarrow> recovery" where
  "newmux_stack_push item r =
     (case evict (newmux_closed_count r + 1, item # newmux_closed_stack r) of
        (n, items) \<Rightarrow> r\<lparr>newmux_closed_stack := items, newmux_closed_count := n\<rparr>)"

definition newmux_stack_pop :: "recovery \<Rightarrow> newmux_closed_item option \<times> recovery" where
  "newmux_stack_pop r =
     (case newmux_closed_stack r of [] \<Rightarrow> (None, r)
      | item # items \<Rightarrow> (Some item, r\<lparr>newmux_closed_stack := items, newmux_closed_count := newmux_closed_count r - 1\<rparr>))"

definition newmux_reserved_push :: "newmux_closed_item \<Rightarrow> recovery \<Rightarrow> recovery" where
  "newmux_reserved_push item r = r\<lparr>newmux_reserved_stack := newmux_reserved_stack r @ [item]\<rparr>"

definition newmux_reserved_pop_by_sequence :: "u32 \<Rightarrow> recovery \<Rightarrow> newmux_closed_item option \<times> recovery" where
  "newmux_reserved_pop_by_sequence sequence r =
     (case find (\<lambda>item. ci_sequence item = sequence) (newmux_reserved_stack r) of
        None \<Rightarrow> (None, r)
      | Some item \<Rightarrow> (Some item, r\<lparr>newmux_reserved_stack := remove1 item (newmux_reserved_stack r)\<rparr>))"

definition newmux_stack_clear :: "recovery \<Rightarrow> recovery" where
  "newmux_stack_clear r =
     \<lparr>newmux_closed_stack = [], newmux_reserved_stack = [], newmux_closed_next_sequence = 0, newmux_closed_count = 0\<rparr>"

section \<open>The place of a window in its session\<close>

fun position_from :: "nat \<Rightarrow> winlinks \<Rightarrow> nat \<Rightarrow> nat" where
  "position_from n [] w = n"
| "position_from n (wl # wls) w = (if wl_window wl = Some w then n else position_from (Suc n) wls w)"

definition newmux_window_position :: "session \<Rightarrow> nat \<Rightarrow> nat" where
  "newmux_window_position s w = position_from 0 (s_windows s) w"

definition newmux_winlink_at_position :: "session \<Rightarrow> nat \<Rightarrow> winlink option" where
  "newmux_winlink_at_position s position =
     (if position < length (s_windows s) then Some (s_windows s ! position) else None)"

definition window_id_or :: "winlink option \<Rightarrow> int" where
  "window_id_or wlo = (case Option.bind wlo wl_window of None \<Rightarrow> - 1 | Some w \<Rightarrow> int w)"

definition newmux_item_set_window_order :: "session \<Rightarrow> winlink \<Rightarrow> newmux_closed_item \<Rightarrow> newmux_closed_item" where
  "newmux_item_set_window_order s wl item =
     item\<lparr>ci_window_position := (case wl_window wl of None \<Rightarrow> 0 | Some w \<Rightarrow> int (newmux_window_position s w)),
          ci_left_window_id := window_id_or (winlink_previous (s_windows s) wl),
          ci_right_window_id := window_id_or (winlink_next (s_windows s) wl)\<rparr>"

section \<open>Attaching and detaching\<close>

definition newmux_session_detach_silent :: "host \<Rightarrow> nat \<Rightarrow> nat \<Rightarrow> server \<Rightarrow> (bool \<times> server) option" where
  "newmux_session_detach_silent h i p st =
     do { s \<leftarrow> the_session st i;
          wl \<leftarrow> wl_deref p (s_windows s);
          let st1 = (if s_curw s = Some p then
                       (let wwl = s_windows s;
                            next_wl = (case winlink_next wwl wl of None \<Rightarrow> winlink_previous wwl wl | l \<Rightarrow> l)
                        in case next_wl of
                             Some l \<Rightarrow> snd (session_set_current i (Some (wl_ptr l)) st)
                           | None \<Rightarrow> upd_session i (s_curw_update (\<lambda>_. None)) st)
                     else st);
          st2 \<leftarrow> session_group_synchronize_from h i (drop_winlink h i p st1);
          s2 \<leftarrow> the_session st2 i;
          Some (s_windows s2 = [], st2) }"

definition newmux_session_attach_silent :: "host \<Rightarrow> nat \<Rightarrow> nat \<Rightarrow> int \<Rightarrow> server \<Rightarrow> (nat option \<times> server) option" where
  "newmux_session_attach_silent h i w idx st =
     do { s \<leftarrow> the_session st i;
          case winlink_add (next_winlink st) (s_windows s) idx of None \<Rightarrow> Some (None, st)
          | Some (new, wwl) \<Rightarrow>
              (let st1 = (upd_session i (s_windows_update (\<lambda>_.
                             wl_update (wl_ptr new) (\<lambda>l. l\<lparr>wl_session := Some i\<rparr>) wwl)) st)
                           \<lparr>next_winlink := next_winlink st + 1\<rparr>;
                   st2 = winlink_set_window h i (wl_ptr new) w st1;
                   st3 = (if s_curw s = None then snd (session_set_current i (Some (wl_ptr new)) st2) else st2)
               in map_option (Pair (Some (wl_ptr new))) (session_group_synchronize_from h i st3)) }"

text \<open>\<^verbatim>\<open>winlink_shuffle_up\<close> on the winlinks of a session.\<close>

definition shuffle_session :: "nat \<Rightarrow> winlink \<Rightarrow> bool \<Rightarrow> server \<Rightarrow> (int \<times> server) option" where
  "shuffle_session i wl before st =
     do { s \<leftarrow> the_session st i;
          (idx, wwl) \<leftarrow> winlink_shuffle_up (s_windows s) (Some wl) before;
          Some (idx, upd_session i (s_windows_update (\<lambda>_. wwl)) st) }"

definition newmux_session_attach_at_original_index :: "host \<Rightarrow> nat \<Rightarrow> nat \<Rightarrow> int \<Rightarrow> server \<Rightarrow> (nat option \<times> server) option" where
  "newmux_session_attach_at_original_index h i w idx st =
     (if idx < 0 then newmux_session_attach_silent h i w (- 1) st
      else do { s \<leftarrow> the_session st i;
                case winlink_find_by_index (s_windows s) idx of
                  None \<Rightarrow> newmux_session_attach_silent h i w idx st
                | Some wl \<Rightarrow>
                    do { (r, st1) \<leftarrow> shuffle_session i wl True st;
                         if r = - 1 then Some (None, st1) else newmux_session_attach_silent h i w idx st1 } })"

text \<open>Shuffle the winlinks from \<open>wl\<close> on and attach the window in the place made free.\<close>

definition attach_beside :: "host \<Rightarrow> nat \<Rightarrow> nat \<Rightarrow> winlink \<Rightarrow> bool \<Rightarrow> server \<Rightarrow> (nat option \<times> server) option" where
  "attach_beside h i w wl before st =
     do { (idx, st1) \<leftarrow> shuffle_session i wl before st;
          if idx = - 1 then Some (None, st1) else newmux_session_attach_silent h i w idx st1 }"

text \<open>The winlink of the session to a neighbour that still exists.\<close>

definition neighbour_winlink :: "server \<Rightarrow> session \<Rightarrow> int \<Rightarrow> winlink option" where
  "neighbour_winlink st s wid =
     (if wid < 0 \<or> windows st (nat wid) = None then None else winlink_find_by_window (s_windows s) (nat wid))"

definition newmux_session_attach_at_saved_position ::
  "host \<Rightarrow> nat \<Rightarrow> nat \<Rightarrow> newmux_closed_item \<Rightarrow> server \<Rightarrow> (nat option \<times> server) option" where
  "newmux_session_attach_at_saved_position h i w item st =
     do { s \<leftarrow> the_session st i;
          case neighbour_winlink st s (ci_left_window_id item) of
            Some left \<Rightarrow> attach_beside h i w left False st
          | None \<Rightarrow>
              (case neighbour_winlink st s (ci_right_window_id item) of
                 Some right \<Rightarrow> attach_beside h i w right True st
               | None \<Rightarrow>
                   if ci_window_position item \<ge> 0 then
                     (case newmux_winlink_at_position s (nat (ci_window_position item)) of
                        None \<Rightarrow> newmux_session_attach_silent h i w (- 1) st
                      | Some wl \<Rightarrow> attach_beside h i w wl True st)
                   else newmux_session_attach_at_original_index h i w (ci_window_index item) st) }"

section \<open>Remembering\<close>

text \<open>The cells of the floating panes at the front, for the dump of the layout.\<close>

definition floating_cells :: "server \<Rightarrow> window \<Rightarrow> layout_cell option list" where
  "floating_cells st win =
     map (\<lambda>p. case panes st p of None \<Rightarrow> None
              | Some wp \<Rightarrow> map_option (\<lambda>(e, d). Cell d []) (pane_layout_cell win p wp))
       (takeWhile (is_floating st) (w_z_index win))"

definition newmux_dump_window_layout :: "server \<Rightarrow> window \<Rightarrow> string option" where
  "newmux_dump_window_layout st win =
     (if w_saved_layout_root win \<noteq> None then layout_dump (floating_cells st win) (w_saved_layout_root win)
      else layout_dump (floating_cells st win) (w_layout_root win))"

definition index_or :: "bool \<times> nat \<Rightarrow> nat \<Rightarrow> nat" where
  "index_or found other = (if fst found then snd found else other)"

text \<open>What the items for a pane and for a window have in common.\<close>

definition new_item :: "newmux_closed_type \<Rightarrow> server \<Rightarrow> recovery \<Rightarrow> session \<Rightarrow> winlink \<Rightarrow> nat \<Rightarrow> window \<Rightarrow>
    newmux_closed_item" where
  "new_item type st r s wl w win =
     newmux_item_set_window_order s wl
       \<lparr>ci_type = type, ci_sequence = newmux_closed_next_sequence r + 1, ci_session_id = s_id s,
        ci_session_name = s_name s, ci_window_id = w, ci_window_name = w_name win, ci_window_index = wl_idx wl,
        ci_window_position = 0, ci_left_window_id = 0, ci_right_window_id = 0,
        ci_window_layout = newmux_dump_window_layout st win, ci_pane_id = 0, ci_pane_index = 0,
        ci_active_pane_index = 0, ci_recovery_session_id = 0, ci_recovery_window_id = 0\<rparr>"

definition newmux_item_from_pane :: "server \<Rightarrow> recovery \<Rightarrow> session \<Rightarrow> winlink \<Rightarrow> nat \<Rightarrow> (newmux_closed_item \<times> recovery) option" where
  "newmux_item_from_pane st r s wl p =
     do { w \<leftarrow> wl_window wl;
          win \<leftarrow> windows st w;
          active \<leftarrow> w_active win;
          let index = index_or (window_pane_index win p) 0;
          Some ((new_item NEWMUX_CLOSED_PANE st r s wl w win)
                  \<lparr>ci_pane_id := p, ci_pane_index := index,
                   ci_active_pane_index := index_or (window_pane_index win active) index\<rparr>,
                r\<lparr>newmux_closed_next_sequence := newmux_closed_next_sequence r + 1\<rparr>) }"

definition newmux_item_from_window :: "server \<Rightarrow> recovery \<Rightarrow> session \<Rightarrow> winlink \<Rightarrow> (newmux_closed_item \<times> recovery) option" where
  "newmux_item_from_window st r s wl =
     do { w \<leftarrow> wl_window wl;
          win \<leftarrow> windows st w;
          active \<leftarrow> w_active win;
          Some ((new_item NEWMUX_CLOSED_WINDOW st r s wl w win)
                  \<lparr>ci_active_pane_index := index_or (window_pane_index win active) 0\<rparr>,
                r\<lparr>newmux_closed_next_sequence := newmux_closed_next_sequence r + 1\<rparr>) }"

section \<open>Putting away\<close>

definition newmux_recovery_session_get :: "host \<Rightarrow> string \<Rightarrow> server \<Rightarrow> (nat \<times> server) option" where
  "newmux_recovery_session_get h cwd st =
     (case session_find st NEWMUX_RECOVERY_SESSION of
        Some s \<Rightarrow> Some (s_id s, st)
      | None \<Rightarrow> session_create None (Some NEWMUX_RECOVERY_SESSION) cwd (new_session_options h) st)"

definition preserve_pane :: "nat \<Rightarrow> server \<Rightarrow> server" where
  "preserve_pane p st =
     upd_pane p (wp_base_update (newmux_preserve_pane_history (utf8_items_table st))) st"

text \<open>The name given is made of letters, digits and dashes, which \<^verbatim>\<open>clean_name\<close> leaves alone.\<close>

definition window_set_name :: "nat \<Rightarrow> string \<Rightarrow> server \<Rightarrow> server" where
  "window_set_name w name st = upd_window w (w_name_update (\<lambda>_. name)) st"

definition moved_flags :: u32 where
  "moved_flags = PANE_STYLECHANGED OR PANE_THEMECHANGED OR PANE_CHANGED"

text \<open>The pane leaves its window for a new window of its own.\<close>

definition break_pane_out :: "host \<Rightarrow> nat \<Rightarrow> nat \<Rightarrow> string \<Rightarrow> server \<Rightarrow> (nat \<times> server) option" where
  "break_pane_out h w p name st =
     do { win \<leftarrow> windows st w;
          wp \<leftarrow> panes st p;
          let st1 = window_lost_pane (w_panes win) w p (window_unlist_pane w p st);
          st2 \<leftarrow> window_close_pane h w p st1;
          let (v, st3) = window_create (wp_sx wp) (wp_sy wp) (w_xpixel win) (w_ypixel win) (new_window_options h) st2;
          let st4 = upd_pane p (\<lambda>wp. wp\<lparr>wp_window := v, wp_flags := wp_flags wp OR moved_flags\<rparr>) st3;
          let st5 = upd_window v (\<lambda>win. win\<lparr>w_panes := p # w_panes win, w_z_index := p # w_z_index win, w_active := Some p\<rparr>) st4;
          Some (v, window_layout_init h v p (window_set_name v name st5)) }"

definition newmux_break_live_pane ::
  "host \<Rightarrow> newmux_closed_item \<Rightarrow> session \<Rightarrow> winlink \<Rightarrow> nat \<Rightarrow> server \<Rightarrow>
   (newmux_error option \<times> newmux_closed_item \<times> server) option" where
  "newmux_break_live_pane h item src_s src_wl p st =
     do { w \<leftarrow> wl_window src_wl;
          (r, st1) \<leftarrow> newmux_recovery_session_get h (s_cwd src_s) st;
          (v, st2) \<leftarrow> break_pane_out h w p (''newmux-recovery-'' @ show_nat (unat (ci_sequence item)))
                        (preserve_pane p (server_unzoom_window h w st1));
          (new, st3) \<leftarrow> session_attach h r v (- 1) st2;
          case new of None \<Rightarrow> Some (Some Index_in_use, item, st3)
          | Some q \<Rightarrow>
              do { s \<leftarrow> the_session st3 r;
                   wl \<leftarrow> wl_deref q (s_windows s);
                   let st4 = (if s_curw s = None then snd (session_select r (wl_idx wl) st3) else st3);
                   Some (None, item\<lparr>ci_recovery_session_id := r, ci_recovery_window_id := v\<rparr>, recalculate_sizes h st4) } }"

definition newmux_break_live_window ::
  "host \<Rightarrow> newmux_closed_item \<Rightarrow> session \<Rightarrow> winlink \<Rightarrow> server \<Rightarrow>
   (newmux_error option \<times> newmux_closed_item \<times> server) option" where
  "newmux_break_live_window h item src_s src_wl st =
     do { w \<leftarrow> wl_window src_wl;
          (r, st1) \<leftarrow> newmux_recovery_session_get h (s_cwd src_s) st;
          let st2 = server_unzoom_window h w st1;
          win \<leftarrow> windows st2 w;
          let st3 = fold preserve_pane (w_panes win) st2;
          (new, st4) \<leftarrow> newmux_session_attach_silent h r w (- 1) st3;
          case new of None \<Rightarrow> Some (Some Index_in_use, item, st4)
          | Some q \<Rightarrow>
              do { let item1 = item\<lparr>ci_recovery_session_id := r, ci_recovery_window_id := w\<rparr>;
                   (empty, st5) \<leftarrow> newmux_session_detach_silent h (s_id src_s) (wl_ptr src_wl) st4;
                   if empty then Some (Some Session_empty, item1, st5)
                   else Some (None, item1, recalculate_sizes h st5) } }"

section \<open>Bringing back\<close>

definition newmux_restore_destination_session :: "nat option \<Rightarrow> newmux_closed_item \<Rightarrow> server \<Rightarrow> nat option" where
  "newmux_restore_destination_session target item st =
     (case session_find_by_id st (ci_session_id item) of
        Some s \<Rightarrow> Some (s_id s)
      | None \<Rightarrow>
          (case (if take 11 (ci_session_name item) = ''newmux-tab-'' then session_find st ''newmux'' else None) of
             Some s \<Rightarrow> Some (s_id s)
           | None \<Rightarrow>
               (case Option.bind target (the_session st) of
                  Some s \<Rightarrow> if s_name s \<noteq> NEWMUX_RECOVERY_SESSION then Some (s_id s) else None
                | None \<Rightarrow> None)))"

definition insert_before :: "nat \<Rightarrow> nat \<Rightarrow> nat list \<Rightarrow> nat list" where
  "insert_before at p xs = takeWhile (\<lambda>q. q \<noteq> at) xs @ p # dropWhile (\<lambda>q. q \<noteq> at) xs"

definition newmux_insert_pane_at_index :: "nat \<Rightarrow> nat \<Rightarrow> nat \<Rightarrow> server \<Rightarrow> server" where
  "newmux_insert_pane_at_index w p idx st =
     upd_window w (\<lambda>win. case window_pane_at_index win idx of
         Some at \<Rightarrow> win\<lparr>w_panes := insert_before at p (w_panes win), w_z_index := insert_before at p (w_z_index win)\<rparr>
       | None \<Rightarrow> win\<lparr>w_panes := w_panes win @ [p], w_z_index := w_z_index win @ [p]\<rparr>) st"

definition newmux_select_pane_index :: "host \<Rightarrow> nat \<Rightarrow> nat \<Rightarrow> server \<Rightarrow> server" where
  "newmux_select_pane_index h w idx st =
     (case Option.bind (windows st w) (\<lambda>win. window_pane_at_index win idx) of None \<Rightarrow> st
      | Some p \<Rightarrow> snd (window_set_active_pane h w p st))"

text \<open>
  \<^verbatim>\<open>layout_parse\<close> on a window: the new layout, the sizes, the z order (floating panes in front) and
  the marks of the floating panes.
\<close>

definition window_layout_parse :: "host \<Rightarrow> nat \<Rightarrow> string \<Rightarrow> server \<Rightarrow> (bool \<times> server) option" where
  "window_layout_parse h w layout st =
     do { win \<leftarrow> windows st w;
          env \<leftarrow> window_env st win;
          case layout_parse env (w_sx win) (w_sy win) (w_panes win) layout of
            Undefined \<Rightarrow> None
          | Failed _ \<Rightarrow> Some (False, st)
          | Parsed r \<Rightarrow>
              (let st1 = (case pr_resize r of None \<Rightarrow> st | Some (sx, sy) \<Rightarrow> window_resize w sx sy None None st);
                   floats = List.map_filter (\<lambda>c. map_option (\<lambda>p. (p, lc_data c)) (lc_wp (lc_data c))) (pr_floating r);
                   st2 = fold (\<lambda>(p, d). upd_pane p (\<lambda>wp. wp\<lparr>wp_cell := Some d, wp_flags := set_flag PANE_FLOATING (wp_flags wp)\<rparr>))
                           floats st1;
                   st3 = upd_window w (\<lambda>win. win\<lparr>w_layout_root := Some (pr_root r),
                           w_z_index := map fst floats @ List.map_filter id (layout_panes (pr_root r))\<rparr>) st2
               in Some (True, recalculate_sizes h (layout_fix_panes h w st3))) }"

text \<open>The pane leaves its recovery window \<open>v\<close>. Taking a pane from a list it is not in corrupts the lists.\<close>

definition take_pane_back :: "host \<Rightarrow> nat \<Rightarrow> nat \<Rightarrow> nat \<Rightarrow> nat \<Rightarrow> server \<Rightarrow> server option" where
  "take_pane_back h v w p idx st =
     do { st1 \<leftarrow> (case panes st p of None \<Rightarrow> None | Some wp \<Rightarrow> window_close_pane h (wp_window wp) p st);
          win \<leftarrow> windows st1 v;
          if p \<notin> set (w_panes win) then None
          else
            (let st2 = window_unlist_pane v p (window_lost_pane (w_panes win) v p st1);
                 st3 = upd_pane p (\<lambda>wp. wp\<lparr>wp_window := w, wp_flags := wp_flags wp OR moved_flags\<rparr>) st2
             in Some (newmux_insert_pane_at_index w p idx st3)) }"

definition newmux_restore_live_pane ::
  "host \<Rightarrow> nat option \<Rightarrow> newmux_closed_item \<Rightarrow> server \<Rightarrow> (newmux_error option \<times> server) option" where
  "newmux_restore_live_pane h target item st =
     (case newmux_restore_destination_session target item st of None \<Rightarrow> Some (Some Session_missing, st)
      | Some i \<Rightarrow>
     (case Option.bind (the_session st i)
             (\<lambda>s. if windows st (ci_window_id item) = None then None else winlink_find_by_window (s_windows s) (ci_window_id item)) of
        None \<Rightarrow> Some (Some Window_missing, st)
      | Some dst_wl \<Rightarrow>
     (case (session_find_by_id st (ci_recovery_session_id item), windows st (ci_recovery_window_id item), panes st (ci_pane_id item)) of
        (Some rs, Some rw, Some wp) \<Rightarrow>
          (if winlink_find_by_window (s_windows rs) (ci_recovery_window_id item) = None
           then Some (Some Recovery_window_missing, st)
           else
             (let w = ci_window_id item; v = ci_recovery_window_id item; p = ci_pane_id item
              in do { st1 \<leftarrow> take_pane_back h v w p (ci_pane_index item) (server_unzoom_window h v (server_unzoom_window h w st));
                      (ok, st2) \<leftarrow> (case ci_window_layout item of None \<Rightarrow> Some (True, st1)
                                    | Some layout \<Rightarrow> window_layout_parse h w layout st1);
                      if \<not> ok then Some (Some Layout_failed, st2)
                      else do {
                        let st3 = newmux_select_pane_index h w (ci_active_pane_index item) (recalculate_sizes h st2);
                        let st4 = snd (session_select i (wl_idx dst_wl) (newmux_protect_pane_history_on_next_clear p st3));
                        rw1 \<leftarrow> windows st4 v;
                        st5 \<leftarrow> (if window_count_panes st4 rw1 True = 0 then server_kill_window h v True st4 else Some st4);
                        Some (None, st5) } }))
      | _ \<Rightarrow> Some (Some Live_pane_missing, st))))"

definition newmux_restore_live_window ::
  "host \<Rightarrow> nat option \<Rightarrow> newmux_closed_item \<Rightarrow> server \<Rightarrow> (newmux_error option \<times> server) option" where
  "newmux_restore_live_window h target item st =
     (case newmux_restore_destination_session target item st of None \<Rightarrow> Some (Some Session_missing, st)
      | Some i \<Rightarrow>
     (case (session_find_by_id st (ci_recovery_session_id item), windows st (ci_window_id item)) of
        (Some rs, Some win) \<Rightarrow>
          (case winlink_find_by_window (s_windows rs) (ci_window_id item) of
             None \<Rightarrow> Some (Some Recovery_window_missing, st)
           | Some recovery_wl \<Rightarrow>
               (let w = ci_window_id item; snapshots = newmux_history_snapshots_take st win
                in do { (new, st1) \<leftarrow> newmux_session_attach_at_saved_position h i w item st;
                        case new of None \<Rightarrow> Some (Some Index_in_use, st1)
                        | Some q \<Rightarrow>
                            do { st2 \<leftarrow> server_unlink_window h (s_id rs) (wl_ptr recovery_wl) st1;
                                 s \<leftarrow> the_session st2 i;
                                 wl \<leftarrow> wl_deref q (s_windows s);
                                 let st3 = recalculate_sizes h (snd (session_select i (wl_idx wl) st2));
                                 let st4 = newmux_history_snapshots_restore_if_shrunk snapshots st3;
                                 Some (None, newmux_protect_window_history_on_next_clear w st4) } }))
      | _ \<Rightarrow> Some (Some Live_window_missing, st)))"

definition newmux_restore_closed_item ::
  "host \<Rightarrow> nat option \<Rightarrow> newmux_closed_item \<Rightarrow> server \<Rightarrow> (newmux_error option \<times> server) option" where
  "newmux_restore_closed_item h target item st =
     (case ci_type item of
        NEWMUX_CLOSED_PANE \<Rightarrow> newmux_restore_live_pane h target item st
      | NEWMUX_CLOSED_WINDOW \<Rightarrow> newmux_restore_live_window h target item st
      | NEWMUX_CLOSED_SESSION \<Rightarrow> Some (Some Unsupported_type, st))"

section \<open>What the commands print\<close>

definition show_window_id :: "int \<Rightarrow> string" where
  "show_window_id i = (if i \<ge> 0 then CHR ''@'' # show_nat (nat i) else ''none'')"

definition newmux_window_order_string :: "newmux_closed_item \<Rightarrow> string" where
  "newmux_window_order_string item =
     ''target_position='' @ show_int (ci_window_position item) @ '' left_window_id='' @
     show_window_id (ci_left_window_id item) @ '' right_window_id='' @ show_window_id (ci_right_window_id item)"

definition newmux_closed_type_string :: "newmux_closed_type \<Rightarrow> string" where
  "newmux_closed_type_string type =
     (case type of NEWMUX_CLOSED_PANE \<Rightarrow> ''pane'' | NEWMUX_CLOSED_WINDOW \<Rightarrow> ''window'' | NEWMUX_CLOSED_SESSION \<Rightarrow> ''session'')"

definition newmux_print_window_result :: "string \<Rightarrow> session \<Rightarrow> winlink \<Rightarrow> nat \<Rightarrow> string option \<Rightarrow> string" where
  "newmux_print_window_result action s wl w extra =
     ''ok=1 action='' @ action @ '' kind=window window=@'' @ show_nat w @ '' window_id=@'' @ show_nat w @
     '' window_index='' @ show_int (wl_idx wl) @ '' target_index='' @ show_nat (newmux_window_position s w) @
     (case extra of None \<Rightarrow> '''' | Some e \<Rightarrow> '' '' @ e)"

text \<open>Where the window of an item is now, if it is in its session, else where it was.\<close>

definition item_place :: "newmux_closed_item \<Rightarrow> server \<Rightarrow> int \<times> int" where
  "item_place item st =
     (case (session_find_by_id st (ci_session_id item), windows st (ci_window_id item)) of
        (Some s, Some _) \<Rightarrow>
          (case winlink_find_by_window (s_windows s) (ci_window_id item) of
             Some wl \<Rightarrow> (wl_idx wl, int (newmux_window_position s (ci_window_id item)))
           | None \<Rightarrow> (ci_window_index item, ci_window_position item))
      | _ \<Rightarrow> (ci_window_index item, ci_window_position item))"

definition newmux_print_closed_item :: "newmux_closed_item \<Rightarrow> bool \<Rightarrow> server \<Rightarrow> string" where
  "newmux_print_closed_item item reserved st =
     (let suffix = '' live=1'' @ (if reserved then '' reserved=1 restored=0'' else '' restored=1'');
          sequence = show_nat (unat (ci_sequence item));
          window = ''window=@'' @ show_nat (ci_window_id item) @ '' window_id=@'' @ show_nat (ci_window_id item);
          (window_index, target_index) = item_place item st;
          place = '' window_index='' @ show_int window_index @ '' target_index='' @ show_int target_index @ '' '' @
                  newmux_window_order_string item
      in case ci_type item of
           NEWMUX_CLOSED_PANE \<Rightarrow> ''ok=1 kind=pane sequence='' @ sequence @ '' '' @ window @
             '' pane_id=%'' @ show_nat (ci_pane_id item) @ place @ suffix
         | NEWMUX_CLOSED_WINDOW \<Rightarrow> ''ok=1 kind=window sequence='' @ sequence @ '' '' @ window @ place @ suffix
         | NEWMUX_CLOSED_SESSION \<Rightarrow> ''ok=1 kind=session sequence='' @ sequence @ suffix)"

section \<open>Commands\<close>

text \<open>The server with its recovery stacks; a command fails or not, prints, and changes the state.\<close>

record newmux =
  nm_server :: server
  nm_recovery :: recovery

type_synonym outcome = "(newmux_error option \<times> string list \<times> newmux) option"

abbreviation done_with :: "string list \<Rightarrow> newmux \<Rightarrow> outcome" where
  "done_with out nm \<equiv> Some (None, out, nm)"

abbreviation failed_with :: "newmux_error \<Rightarrow> newmux \<Rightarrow> outcome" where
  "failed_with e nm \<equiv> Some (Some e, [], nm)"

text \<open>A new item goes on the stack when the move succeeded; its number is used up either way.\<close>

definition push_moved :: "newmux_error option \<times> newmux_closed_item \<times> server \<Rightarrow> recovery \<Rightarrow>
    (newmux_closed_item \<Rightarrow> string list) \<Rightarrow> outcome" where
  "push_moved moved r out =
     (case moved of
        (Some e, item, st) \<Rightarrow> failed_with e \<lparr>nm_server = st, nm_recovery = r\<rparr>
      | (None, item, st) \<Rightarrow> done_with (out item) \<lparr>nm_server = st, nm_recovery = newmux_stack_push item r\<rparr>)"

definition cmd_newmux_soft_delete_pane_exec :: "host \<Rightarrow> nat \<Rightarrow> winlink \<Rightarrow> nat option \<Rightarrow> newmux \<Rightarrow> outcome" where
  "cmd_newmux_soft_delete_pane_exec h i wl wpo nm =
     (case wpo of None \<Rightarrow> failed_with No_target nm
      | Some p \<Rightarrow>
          do { s \<leftarrow> the_session (nm_server nm) i;
               w \<leftarrow> wl_window wl;
               win \<leftarrow> windows (nm_server nm) w;
               if window_count_panes (nm_server nm) win True = 1 then failed_with Last_pane nm
               else do { (item, r) \<leftarrow> newmux_item_from_pane (nm_server nm) (nm_recovery nm) s wl p;
                         moved \<leftarrow> newmux_break_live_pane h item s wl p (nm_server nm);
                         push_moved moved r (\<lambda>_. []) } })"

definition only_winlink :: "session \<Rightarrow> winlink \<Rightarrow> bool" where
  "only_winlink s wl \<longleftrightarrow> winlink_next (s_windows s) wl = None \<and> winlink_previous (s_windows s) wl = None"

definition cmd_newmux_soft_delete_window_exec :: "host \<Rightarrow> nat \<Rightarrow> winlink option \<Rightarrow> newmux \<Rightarrow> outcome" where
  "cmd_newmux_soft_delete_window_exec h i wlo nm =
     (case wlo of None \<Rightarrow> failed_with No_target nm
      | Some wl \<Rightarrow>
          do { s \<leftarrow> the_session (nm_server nm) i;
               w \<leftarrow> wl_window wl;
               win \<leftarrow> windows (nm_server nm) w;
               if only_winlink s wl then failed_with Last_tab nm
               else if newmux_window_looks_fresh h (nm_server nm) win
               then do { st \<leftarrow> server_kill_window h w True (nm_server nm); done_with [] (nm\<lparr>nm_server := st\<rparr>) }
               else do { (item, r) \<leftarrow> newmux_item_from_window (nm_server nm) (nm_recovery nm) s wl;
                         moved \<leftarrow> newmux_break_live_window h item s wl (nm_server nm);
                         push_moved moved r (\<lambda>_. []) } })"

definition cmd_newmux_soft_delete_session_exec :: "newmux \<Rightarrow> outcome" where
  "cmd_newmux_soft_delete_session_exec nm = failed_with Not_implemented nm"

text \<open>The session of the argument \<^verbatim>\<open>-s\<close>, or the target's.\<close>

definition newmux_primary_session_from_args :: "string option \<Rightarrow> nat \<Rightarrow> server \<Rightarrow> nat option" where
  "newmux_primary_session_from_args name fallback st =
     (if name = None \<or> name = Some '''' then Some fallback else map_option s_id (session_find st (the name)))"

text \<open>The winlink to delete: the one of the session named to the window, or the target.\<close>

definition choose_link :: "session \<Rightarrow> nat \<Rightarrow> session \<Rightarrow> winlink \<Rightarrow> session \<times> winlink" where
  "choose_link sj w si wl = (case winlink_find_by_window (s_windows sj) w of Some l \<Rightarrow> (sj, l) | None \<Rightarrow> (si, wl))"

definition delete_link :: "host \<Rightarrow> bool \<Rightarrow> nat \<Rightarrow> window \<Rightarrow> session \<Rightarrow> winlink \<Rightarrow> newmux \<Rightarrow> outcome" where
  "delete_link h print w win s wl nm =
     (if only_winlink s wl then failed_with Last_tab nm
      else if \<not> newmux_window_is_dirty (nm_server nm) win
      then do { st \<leftarrow> server_kill_window h w True (nm_server nm);
                done_with (if print then [newmux_print_window_result ''delete'' s wl w (Some ''mode=hard soft=0'')] else [])
                  (nm\<lparr>nm_server := st\<rparr>) }
      else do { (item, r) \<leftarrow> newmux_item_from_window (nm_server nm) (nm_recovery nm) s wl;
                moved \<leftarrow> newmux_break_live_window h item s wl (nm_server nm);
                push_moved moved r (\<lambda>item. if print
                  then [''ok=1 action=delete kind=window mode=soft soft=1 sequence='' @ show_nat (unat (ci_sequence item)) @
                        '' window=@'' @ show_nat (ci_window_id item) @ '' window_id=@'' @ show_nat (ci_window_id item) @
                        '' window_index='' @ show_int (ci_window_index item) @ '' target_index='' @
                        show_int (ci_window_position item) @ '' '' @ newmux_window_order_string item @ '' live=1'']
                  else []) })"

definition cmd_newmux_delete_window_exec ::
  "host \<Rightarrow> string option \<Rightarrow> bool \<Rightarrow> nat \<Rightarrow> winlink option \<Rightarrow> newmux \<Rightarrow> outcome" where
  "cmd_newmux_delete_window_exec h primary print i wlo nm =
     (case wlo of None \<Rightarrow> failed_with No_target nm
      | Some target_wl \<Rightarrow>
          do { w \<leftarrow> wl_window target_wl;
               win \<leftarrow> windows (nm_server nm) w;
               case newmux_primary_session_from_args primary i (nm_server nm) of None \<Rightarrow> failed_with Session_missing nm
               | Some j \<Rightarrow>
                   do { sj \<leftarrow> the_session (nm_server nm) j;
                        si \<leftarrow> the_session (nm_server nm) i;
                        let target = choose_link sj w si target_wl;
                        delete_link h print w win (fst target) (snd target) nm } })"

text \<open>Restore an item taken from a stack; on failure it goes back on the stack of closed items.\<close>

definition reopen_item :: "host \<Rightarrow> bool \<Rightarrow> nat option \<Rightarrow> newmux_closed_item \<Rightarrow> server \<Rightarrow> recovery \<Rightarrow> outcome" where
  "reopen_item h print target item st r =
     do { (err, st1) \<leftarrow> newmux_restore_closed_item h target item st;
          case err of
            Some e \<Rightarrow> failed_with e \<lparr>nm_server = st1, nm_recovery = newmux_stack_push item r\<rparr>
          | None \<Rightarrow> done_with (if print then [newmux_print_closed_item item False st1] else [])
                      \<lparr>nm_server = st1, nm_recovery = r\<rparr> }"

definition cmd_newmux_reopen_latest_closed_exec :: "host \<Rightarrow> bool \<Rightarrow> nat option \<Rightarrow> newmux \<Rightarrow> outcome" where
  "cmd_newmux_reopen_latest_closed_exec h print target nm =
     (case newmux_stack_pop (nm_recovery nm) of
        (None, r) \<Rightarrow> done_with (if print then [''ok=1 action=restore restored=0 reason=empty_stack''] else []) nm
      | (Some item, r) \<Rightarrow> reopen_item h print target item (nm_server nm) r)"

definition cmd_newmux_reserve_latest_closed_exec :: "bool \<Rightarrow> newmux \<Rightarrow> outcome" where
  "cmd_newmux_reserve_latest_closed_exec print nm =
     (case newmux_stack_pop (nm_recovery nm) of
        (None, r) \<Rightarrow> done_with [] nm
      | (Some item, r) \<Rightarrow>
          done_with (if print then [newmux_print_closed_item item True (nm_server nm)] else [])
            (nm\<lparr>nm_recovery := newmux_reserved_push item r\<rparr>))"

text \<open>
  \<^verbatim>\<open>strtonum(value, 1, UINT_MAX)\<close>: blanks, a sign, digits and nothing after them, within the bounds.
\<close>

definition parse_sequence :: "string \<Rightarrow> u32 option" where
  "parse_sequence value =
     (case scan_sign (dropWhile isspace value) of (neg, ds) \<Rightarrow>
        if neg \<or> ds = [] \<or> \<not> list_all isdigit ds then None
        else if digits_value ds < 1 \<or> digits_value ds > 4294967295 then None
        else Some (of_nat (digits_value ds)))"

definition with_sequence :: "string option \<Rightarrow> newmux \<Rightarrow> (u32 \<Rightarrow> outcome) \<Rightarrow> outcome" where
  "with_sequence value nm f =
     (case value of None \<Rightarrow> failed_with Missing_sequence nm
      | Some v \<Rightarrow> (case parse_sequence v of None \<Rightarrow> failed_with Invalid_sequence nm | Some sequence \<Rightarrow> f sequence))"

definition cmd_newmux_claim_reserved_closed_exec ::
  "host \<Rightarrow> bool \<Rightarrow> string option \<Rightarrow> nat option \<Rightarrow> newmux \<Rightarrow> outcome" where
  "cmd_newmux_claim_reserved_closed_exec h print value target nm =
     with_sequence value nm (\<lambda>sequence.
       case newmux_reserved_pop_by_sequence sequence (nm_recovery nm) of
         (None, r) \<Rightarrow> done_with [] nm
       | (Some item, r) \<Rightarrow> reopen_item h print target item (nm_server nm) r)"

definition cmd_newmux_release_reserved_closed_exec :: "bool \<Rightarrow> string option \<Rightarrow> newmux \<Rightarrow> outcome" where
  "cmd_newmux_release_reserved_closed_exec print value nm =
     with_sequence value nm (\<lambda>sequence.
       case newmux_reserved_pop_by_sequence sequence (nm_recovery nm) of
         (None, r) \<Rightarrow> done_with (if print then [''ok=1 action=release released=0 reason=missing sequence='' @ show_nat (unat sequence)] else []) nm
       | (Some item, r) \<Rightarrow>
           done_with (if print then [''ok=1 action=release released=1 sequence='' @ show_nat (unat sequence)] else [])
             (nm\<lparr>nm_recovery := newmux_stack_push item r\<rparr>))"

definition list_line :: "newmux_closed_item \<Rightarrow> string" where
  "list_line item =
     show_nat (unat (ci_sequence item)) @ '' '' @ newmux_closed_type_string (ci_type item) @ '' session='' @
     ci_session_name item @ '' window='' @ ci_window_name item @
     (if ci_type item = NEWMUX_CLOSED_PANE then '' pane=%'' @ show_nat (ci_pane_id item) else '''') @ '' live=1''"

definition cmd_newmux_list_recently_closed_exec :: "newmux \<Rightarrow> outcome" where
  "cmd_newmux_list_recently_closed_exec nm = done_with (map list_line (newmux_closed_stack (nm_recovery nm))) nm"

definition newmux_recovery_clear :: "host \<Rightarrow> newmux \<Rightarrow> newmux" where
  "newmux_recovery_clear h nm =
     (let st = nm_server nm;
          st1 = (case session_find st NEWMUX_RECOVERY_SESSION of None \<Rightarrow> st
                 | Some s \<Rightarrow> session_destroy h (s_id s) (server_destroy_session h (s_id s) st))
      in \<lparr>nm_server = recalculate_sizes h st1, nm_recovery = newmux_stack_clear (nm_recovery nm)\<rparr>)"

definition cmd_newmux_clear_recently_closed_exec :: "host \<Rightarrow> newmux \<Rightarrow> outcome" where
  "cmd_newmux_clear_recently_closed_exec h nm = done_with [] (newmux_recovery_clear h nm)"

text \<open>
  The place for a new window before it is spawned (\<^verbatim>\<open>cmd_newmux_create_window_exec\<close> up to
  \<^verbatim>\<open>spawn_window\<close>): before the window at a position, or after the target. The index is \<open>-1\<close> for
  the first free one.
\<close>

definition create_window_index :: "nat \<Rightarrow> nat option \<Rightarrow> (nat \<times> winlink) option \<Rightarrow> server \<Rightarrow> (int \<times> server) option" where
  "create_window_index i position target st =
     do { s \<leftarrow> the_session st i;
          case position of
            Some n \<Rightarrow> (case newmux_winlink_at_position s n of None \<Rightarrow> Some (- 1, st) | Some wl \<Rightarrow> shuffle_session i wl True st)
          | None \<Rightarrow>
              (case (case target of Some (j, wl) \<Rightarrow> if j = i then Some wl else Option.bind (s_curw s) (\<lambda>p. wl_deref p (s_windows s))
                     | None \<Rightarrow> Option.bind (s_curw s) (\<lambda>p. wl_deref p (s_windows s))) of
                 None \<Rightarrow> Some (- 1, st)
               | Some wl \<Rightarrow> shuffle_session i wl False st) }"

end
