(* ===== verification/Recovery_Facts.thy ===== *)
theory Recovery_Facts
  imports Recovery Layout_Roundtrip
begin

text \<open>
  What the recovery stacks promise: at most 32 closed items, newest first, each with a number of
  its own, none lost while there is room, and an item that cannot be restored kept.
\<close>

section \<open>A bounded stack\<close>

text \<open>The contract of the stack of closed items: pushing may forget the oldest items beyond the bound.\<close>

locale bounded_stack =
  fixes items :: "'s \<Rightarrow> 'a list"
    and bound :: nat
    and valid :: "'s \<Rightarrow> bool"
    and push :: "'a \<Rightarrow> 's \<Rightarrow> 's"
    and pop :: "'s \<Rightarrow> 'a option \<times> 's"
  assumes bound_pos: "0 < bound"
    and valid_bound: "valid s \<Longrightarrow> length (items s) \<le> bound"
    and items_push: "valid s \<Longrightarrow> items (push x s) = take bound (x # items s)"
    and valid_push: "valid s \<Longrightarrow> valid (push x s)"
    and pop_empty: "valid s \<Longrightarrow> items s = [] \<Longrightarrow> pop s = (None, s)"
    and pop_items: "valid s \<Longrightarrow> items s = x # xs \<Longrightarrow> fst (pop s) = Some x \<and> items (snd (pop s)) = xs"
    and valid_pop: "valid s \<Longrightarrow> valid (snd (pop s))"
begin

lemma pop_push: "valid s \<Longrightarrow> fst (pop (push x s)) = Some x \<and> items (snd (pop (push x s))) = take (bound - 1) (items s)"
  using items_push [of s x] valid_push [of s x] bound_pos pop_items [of "push x s" x "take (bound - 1) (items s)"]
  by (cases bound) auto

text \<open>After any pushes the newest items are there, newest first.\<close>

lemma push_all: "valid s \<Longrightarrow> valid (fold push xs s) \<and> items (fold push xs s) = take bound (rev xs @ items s)"
proof (induction xs arbitrary: s)
  case Nil
  then show ?case using valid_bound by simp
next
  case (Cons x xs)
  then have "items (fold push xs (push x s)) = take bound (rev xs @ take bound (x # items s))"
    using valid_push items_push by simp
  also have "\<dots> = take bound (rev xs @ x # items s)" by (simp add: min_def)
  finally show ?case using Cons valid_push by simp
qed

text \<open>\<open>n\<close> pops, the items they gave in order.\<close>

fun pops :: "nat \<Rightarrow> 's \<Rightarrow> 'a list \<times> 's" where
  "pops 0 s = ([], s)"
| "pops (Suc n) s =
     (case pop s of (None, s') \<Rightarrow> ([], s') | (Some x, s') \<Rightarrow> (case pops n s' of (xs, s'') \<Rightarrow> (x # xs, s'')))"

lemma pops_items: "valid s \<Longrightarrow> fst (pops n s) = take n (items s)"
proof (induction n arbitrary: s)
  case (Suc n)
  show ?case
  proof (cases "items s")
    case Nil
    then show ?thesis using pop_empty [OF Suc.prems] by simp
  next
    case (Cons x xs)
    obtain y s' where p: "pop s = (Some y, s')" "y = x" "items s' = xs"
      using pop_items [OF Suc.prems Cons] by (cases "pop s") auto
    have "valid s'" using valid_pop [OF Suc.prems] p(1) by simp
    then show ?thesis using Suc.IH [of s'] p Cons by (cases "pops n s'") simp
  qed
qed simp

end

lemma unat_uint_max: "unat uint_max = 4294967295"
  by (simp add: unsigned_minus_1_eq_mask mask_eq_exp_minus_1)

lemma less_u32_succ: "(x::u32) < uint_max \<Longrightarrow> x < x + 1"
  using inc_less_eq_self_iff_eq [of x] by (auto simp: not_le [symmetric])

definition stack_valid :: "recovery \<Rightarrow> bool" where
  "stack_valid r \<longleftrightarrow> newmux_closed_count r = length (newmux_closed_stack r) \<and>
     length (newmux_closed_stack r) \<le> NEWMUX_RECOVERY_MAX_ITEMS"

lemma evict_eq:
  "evict (length xs, xs) = (min (length xs) NEWMUX_RECOVERY_MAX_ITEMS, take NEWMUX_RECOVERY_MAX_ITEMS xs)"
proof (induction xs rule: rev_induct)
  case (snoc x xs)
  then show ?case by (cases "length xs < NEWMUX_RECOVERY_MAX_ITEMS") auto
qed simp

lemma stack_push_eq:
  assumes "stack_valid r"
  shows "newmux_stack_push item r = r\<lparr>newmux_closed_stack := take NEWMUX_RECOVERY_MAX_ITEMS (item # newmux_closed_stack r),
    newmux_closed_count := min (length (newmux_closed_stack r) + 1) NEWMUX_RECOVERY_MAX_ITEMS\<rparr>"
  using evict_eq [of "item # newmux_closed_stack r"] assms
  by (simp add: newmux_stack_push_def stack_valid_def)

interpretation closed: bounded_stack newmux_closed_stack NEWMUX_RECOVERY_MAX_ITEMS stack_valid newmux_stack_push newmux_stack_pop
proof unfold_locales
  show "0 < NEWMUX_RECOVERY_MAX_ITEMS" by (simp add: NEWMUX_RECOVERY_MAX_ITEMS_def)
  fix r x xs
  assume v: "stack_valid r"
  then show "length (newmux_closed_stack r) \<le> NEWMUX_RECOVERY_MAX_ITEMS" by (simp add: stack_valid_def)
  show "newmux_closed_stack (newmux_stack_push x r) = take NEWMUX_RECOVERY_MAX_ITEMS (x # newmux_closed_stack r)"
    by (simp add: stack_push_eq [OF v])
  show "stack_valid (newmux_stack_push x r)"
    by (simp add: stack_push_eq [OF v]) (simp add: stack_valid_def)
  show "newmux_closed_stack r = [] \<Longrightarrow> newmux_stack_pop r = (None, r)" by (simp add: newmux_stack_pop_def)
  show "newmux_closed_stack r = x # xs \<Longrightarrow> fst (newmux_stack_pop r) = Some x \<and> newmux_closed_stack (snd (newmux_stack_pop r)) = xs"
    by (simp add: newmux_stack_pop_def)
  show "stack_valid (snd (newmux_stack_pop r))"
    using v by (auto simp: newmux_stack_pop_def stack_valid_def split: list.split)
qed

section \<open>Numbers\<close>

text \<open>
  Every item, closed or reserved, has a number of its own, not above the counter. The counter is
  32 bits wide, so this holds as long as it has not wrapped around.
\<close>

definition all_items :: "recovery \<Rightarrow> newmux_closed_item list" where
  "all_items r = newmux_closed_stack r @ newmux_reserved_stack r"

definition recovery_ok :: "recovery \<Rightarrow> bool" where
  "recovery_ok r \<longleftrightarrow> stack_valid r \<and> distinct (map ci_sequence (all_items r)) \<and>
     (\<forall>item \<in> set (all_items r). 0 < ci_sequence item \<and> ci_sequence item \<le> newmux_closed_next_sequence r)"

lemma recovery_ok_pop:
  "recovery_ok r \<Longrightarrow> newmux_stack_pop r = (x, r') \<Longrightarrow> recovery_ok r' \<and>
     (case x of None \<Rightarrow> r' = r | Some item \<Rightarrow> newmux_closed_stack r = item # newmux_closed_stack r' \<and>
        newmux_reserved_stack r' = newmux_reserved_stack r \<and> newmux_closed_next_sequence r' = newmux_closed_next_sequence r \<and>
        ci_sequence item \<notin> ci_sequence ` set (all_items r') \<and> 0 < ci_sequence item \<and>
        ci_sequence item \<le> newmux_closed_next_sequence r' \<and>
        length (newmux_closed_stack r') < NEWMUX_RECOVERY_MAX_ITEMS)"
  by (auto simp: recovery_ok_def newmux_stack_pop_def all_items_def stack_valid_def disjoint_iff split: list.splits) blast+

lemma recovery_ok_push:
  assumes "recovery_ok r" "ci_sequence item \<notin> ci_sequence ` set (all_items r)" "0 < ci_sequence item"
    "ci_sequence item \<le> newmux_closed_next_sequence r"
  shows "recovery_ok (newmux_stack_push item r)"
proof -
  have v: "stack_valid r" using assms(1) by (simp add: recovery_ok_def)
  obtain k where k: "NEWMUX_RECOVERY_MAX_ITEMS = Suc k" by (simp add: NEWMUX_RECOVERY_MAX_ITEMS_def)
  show ?thesis
    using assms closed.valid_push [OF v, of item]
    by (auto simp: recovery_ok_def all_items_def stack_push_eq [OF v] k distinct_map disjoint_iff dest: in_set_takeD
        intro: inj_on_subset) (blast dest: in_set_takeD)+
qed

lemma recovery_ok_reserve:
  "recovery_ok r \<Longrightarrow> ci_sequence item \<notin> ci_sequence ` set (all_items r) \<Longrightarrow> 0 < ci_sequence item \<Longrightarrow>
     ci_sequence item \<le> newmux_closed_next_sequence r \<Longrightarrow> recovery_ok (newmux_reserved_push item r)"
  by (auto simp: recovery_ok_def all_items_def newmux_reserved_push_def stack_valid_def)

lemma recovery_ok_unreserve:
  assumes "recovery_ok r" "newmux_reserved_pop_by_sequence sequence r = (Some item, r')"
  shows "recovery_ok r'" "ci_sequence item = sequence" "item \<in> set (newmux_reserved_stack r)"
    "r' = r\<lparr>newmux_reserved_stack := remove1 item (newmux_reserved_stack r)\<rparr>"
    "ci_sequence item \<notin> ci_sequence ` set (all_items r')" "0 < ci_sequence item" "ci_sequence item \<le> newmux_closed_next_sequence r'"
proof -
  have f: "find (\<lambda>item. ci_sequence item = sequence) (newmux_reserved_stack r) = Some item"
    and r': "r' = r\<lparr>newmux_reserved_stack := remove1 item (newmux_reserved_stack r)\<rparr>"
    using assms(2) by (auto simp: newmux_reserved_pop_by_sequence_def split: option.splits)
  then show item: "ci_sequence item = sequence" "item \<in> set (newmux_reserved_stack r)" by (auto dest: find_SomeD)
  show "r' = r\<lparr>newmux_reserved_stack := remove1 item (newmux_reserved_stack r)\<rparr>" by (rule r')
  have d: "distinct (map ci_sequence (newmux_reserved_stack r))" "distinct (newmux_reserved_stack r)"
    using assms(1) by (auto simp: recovery_ok_def all_items_def distinct_map)
  then show "recovery_ok r'"
    using assms(1) by (auto simp: recovery_ok_def all_items_def r' stack_valid_def distinct_map inj_on_def dest: set_remove1_subset [THEN subsetD])
  show "0 < ci_sequence item" "ci_sequence item \<le> newmux_closed_next_sequence r'"
    using assms(1) item(2) by (simp_all add: recovery_ok_def all_items_def r')
  have "ci_sequence item \<notin> ci_sequence ` set (remove1 item (newmux_reserved_stack r))"
    using d item(2) by (auto simp: distinct_map inj_on_def)
  moreover have "ci_sequence item \<notin> ci_sequence ` set (newmux_closed_stack r)"
    using assms(1) item(2) by (force simp: recovery_ok_def all_items_def)
  ultimately show "ci_sequence item \<notin> ci_sequence ` set (all_items r')" by (auto simp: all_items_def r')
qed

section \<open>The commands as steps\<close>

text \<open>Any command of the recovery code, or anything else that happens to the server.\<close>

inductive newmux_step :: "host \<Rightarrow> newmux \<Rightarrow> newmux \<Rightarrow> bool" for h where
  "cmd_newmux_soft_delete_pane_exec h i wl p nm = Some (e, out, nm') \<Longrightarrow> newmux_step h nm nm'"
| "cmd_newmux_soft_delete_window_exec h i wlo nm = Some (e, out, nm') \<Longrightarrow> newmux_step h nm nm'"
| "cmd_newmux_soft_delete_session_exec nm = Some (e, out, nm') \<Longrightarrow> newmux_step h nm nm'"
| "cmd_newmux_delete_window_exec h primary print i wlo nm = Some (e, out, nm') \<Longrightarrow> newmux_step h nm nm'"
| "cmd_newmux_reopen_latest_closed_exec h print target nm = Some (e, out, nm') \<Longrightarrow> newmux_step h nm nm'"
| "cmd_newmux_reserve_latest_closed_exec print nm = Some (e, out, nm') \<Longrightarrow> newmux_step h nm nm'"
| "cmd_newmux_claim_reserved_closed_exec h print value target nm = Some (e, out, nm') \<Longrightarrow> newmux_step h nm nm'"
| "cmd_newmux_release_reserved_closed_exec print value nm = Some (e, out, nm') \<Longrightarrow> newmux_step h nm nm'"
| "cmd_newmux_list_recently_closed_exec nm = Some (e, out, nm') \<Longrightarrow> newmux_step h nm nm'"
| "cmd_newmux_clear_recently_closed_exec h nm = Some (e, out, nm') \<Longrightarrow> newmux_step h nm nm'"
| "newmux_step h nm (nm\<lparr>nm_server := st\<rparr>)"

text \<open>How a step changes the stacks.\<close>

definition kept :: "recovery \<Rightarrow> recovery \<Rightarrow> bool" where
  "kept r r' \<longleftrightarrow> recovery_ok r' \<and> newmux_closed_next_sequence r' \<le> newmux_closed_next_sequence r + 1"

lemma kept_refl: "recovery_ok r \<Longrightarrow> newmux_closed_next_sequence r < uint_max \<Longrightarrow> kept r r"
  by (simp add: kept_def less_imp_le less_u32_succ)

lemma new_item_numbered:
  "newmux_item_from_pane st r s wl p = Some (item, r') \<or> newmux_item_from_window st r s wl = Some (item, r') \<Longrightarrow>
     ci_sequence item = newmux_closed_next_sequence r + 1 \<and>
     r' = r\<lparr>newmux_closed_next_sequence := newmux_closed_next_sequence r + 1\<rparr>"
  by (auto simp: newmux_item_from_pane_def newmux_item_from_window_def new_item_def newmux_item_set_window_order_def Let_def
      bind_eq_Some_conv)

lemma broken_numbered:
  "newmux_break_live_pane h item s wl p st = Some (e, item', st') \<Longrightarrow> ci_sequence item' = ci_sequence item"
  "newmux_break_live_window h item s wl st = Some (e, item', st') \<Longrightarrow> ci_sequence item' = ci_sequence item"
  by (auto simp: newmux_break_live_pane_def newmux_break_live_window_def Let_def bind_eq_Some_conv
      split: option.splits if_splits prod.splits)

lemma push_new_kept:
  assumes "recovery_ok r" "newmux_closed_next_sequence r < uint_max"
    "r' = r\<lparr>newmux_closed_next_sequence := newmux_closed_next_sequence r + 1\<rparr>"
    "ci_sequence item = newmux_closed_next_sequence r + 1" "push_moved (e, item, st) r' out = Some (e', out', nm')"
  shows "kept r (nm_recovery nm')"
proof -
  have less: "newmux_closed_next_sequence r < newmux_closed_next_sequence r + 1"
    using assms(2) by (rule less_u32_succ)
  then have ok: "recovery_ok r'" using assms(1) by (force simp: assms(3) recovery_ok_def all_items_def stack_valid_def)
  have fresh: "ci_sequence item \<notin> ci_sequence ` set (all_items r')" "0 < ci_sequence item"
    "ci_sequence item \<le> newmux_closed_next_sequence r'"
    using assms(1,4) less word_zero_le [THEN order.strict_trans1, OF less]
    by (force simp: assms(3) recovery_ok_def all_items_def)+
  show ?thesis
  proof (cases e)
    case None
    then have "nm_recovery nm' = newmux_stack_push item r'" using assms(5) by (auto simp: push_moved_def)
    moreover have "newmux_closed_next_sequence (newmux_stack_push item r') = newmux_closed_next_sequence r'"
      using ok by (simp add: stack_push_eq recovery_ok_def)
    ultimately show ?thesis using recovery_ok_push [OF ok fresh] by (simp add: kept_def assms(3))
  next
    case (Some e1)
    then show ?thesis using assms(5) ok by (auto simp: push_moved_def kept_def assms(3))
  qed
qed

lemma soft_delete_kept:
  assumes "recovery_ok (nm_recovery nm)" "newmux_closed_next_sequence (nm_recovery nm) < uint_max"
  shows "cmd_newmux_soft_delete_pane_exec h i wl p nm = Some (e, out, nm') \<Longrightarrow> kept (nm_recovery nm) (nm_recovery nm')"
    and "cmd_newmux_soft_delete_window_exec h i wlo nm = Some (e, out, nm') \<Longrightarrow> kept (nm_recovery nm) (nm_recovery nm')"
    and "cmd_newmux_delete_window_exec h primary print i wlo nm = Some (e, out, nm') \<Longrightarrow> kept (nm_recovery nm) (nm_recovery nm')"
proof -
  have push: "kept (nm_recovery nm) (nm_recovery nm')"
    if "newmux_item_from_pane st (nm_recovery nm) s wl p = Some (item, r') \<or> newmux_item_from_window st (nm_recovery nm) s wl = Some (item, r')"
      "newmux_break_live_pane h item s1 wl1 p1 st = Some moved \<or> newmux_break_live_window h item s1 wl1 st = Some moved"
      "push_moved moved r' out' = Some (e, out, nm')" for st s wl p item r' s1 wl1 p1 moved out'
    using that new_item_numbered [OF that(1)] broken_numbered push_new_kept [OF assms]
    by (cases moved) metis
  note refl = kept_refl [OF assms]
  show "cmd_newmux_soft_delete_pane_exec h i wl p nm = Some (e, out, nm') \<Longrightarrow> kept (nm_recovery nm) (nm_recovery nm')"
    using refl by (auto simp: cmd_newmux_soft_delete_pane_exec_def bind_eq_Some_conv split: option.splits if_splits intro: push)
  show "cmd_newmux_soft_delete_window_exec h i wlo nm = Some (e, out, nm') \<Longrightarrow> kept (nm_recovery nm) (nm_recovery nm')"
    using refl by (auto simp: cmd_newmux_soft_delete_window_exec_def bind_eq_Some_conv split: option.splits if_splits intro: push)
  show "cmd_newmux_delete_window_exec h primary print i wlo nm = Some (e, out, nm') \<Longrightarrow> kept (nm_recovery nm) (nm_recovery nm')"
    using refl by (auto simp: cmd_newmux_delete_window_exec_def delete_link_def bind_eq_Some_conv Let_def
        split: option.splits if_splits intro: push)
qed

text \<open>An item just taken from a stack may be put back on any of them.\<close>

definition taken :: "newmux_closed_item \<Rightarrow> recovery \<Rightarrow> recovery \<Rightarrow> bool" where
  "taken item r r' \<longleftrightarrow> recovery_ok r' \<and> ci_sequence item \<notin> ci_sequence ` set (all_items r') \<and> 0 < ci_sequence item \<and>
     ci_sequence item \<le> newmux_closed_next_sequence r' \<and> newmux_closed_next_sequence r' = newmux_closed_next_sequence r"

lemma taken_pop: "recovery_ok r \<Longrightarrow> newmux_stack_pop r = (Some item, r') \<Longrightarrow> taken item r r'"
  using recovery_ok_pop [of r "Some item" r'] by (auto simp: taken_def)

lemma taken_unreserve: "recovery_ok r \<Longrightarrow> newmux_reserved_pop_by_sequence sequence r = (Some item, r') \<Longrightarrow> taken item r r'"
  using recovery_ok_unreserve [of r sequence item r'] by (auto simp: taken_def)

lemma taken_kept:
  assumes "taken item r r'" "newmux_closed_next_sequence r < uint_max"
  shows "kept r (newmux_stack_push item r')" "kept r (newmux_reserved_push item r')" "kept r r'"
proof -
  have ok: "recovery_ok r'" "ci_sequence item \<notin> ci_sequence ` set (all_items r')" "0 < ci_sequence item"
      "ci_sequence item \<le> newmux_closed_next_sequence r'" "newmux_closed_next_sequence r' = newmux_closed_next_sequence r"
    using assms(1) by (auto simp: taken_def)
  have next1: "newmux_closed_next_sequence (newmux_stack_push item r') = newmux_closed_next_sequence r"
    "newmux_closed_next_sequence (newmux_reserved_push item r') = newmux_closed_next_sequence r"
    using ok by (simp_all add: stack_push_eq recovery_ok_def newmux_reserved_push_def)
  have le: "newmux_closed_next_sequence r \<le> newmux_closed_next_sequence r + 1" using less_u32_succ [OF assms(2)] by simp
  show "kept r (newmux_stack_push item r')" using recovery_ok_push [OF ok(1-4)] le next1 by (simp add: kept_def)
  show "kept r (newmux_reserved_push item r')" using recovery_ok_reserve [OF ok(1-4)] le next1 by (simp add: kept_def)
  show "kept r r'" using ok le by (simp add: kept_def)
qed

lemma reopen_kept:
  "taken item r r' \<Longrightarrow> newmux_closed_next_sequence r < uint_max \<Longrightarrow>
     reopen_item h print target item st r' = Some (e, out, nm') \<Longrightarrow> kept r (nm_recovery nm')"
  by (auto simp: reopen_item_def bind_eq_Some_conv taken_kept split: option.splits)

lemma reserved_kept:
  assumes "recovery_ok (nm_recovery nm)" "newmux_closed_next_sequence (nm_recovery nm) < uint_max"
  shows "cmd_newmux_reopen_latest_closed_exec h print target nm = Some (e, out, nm') \<Longrightarrow> kept (nm_recovery nm) (nm_recovery nm')"
    and "cmd_newmux_reserve_latest_closed_exec print nm = Some (e, out, nm') \<Longrightarrow> kept (nm_recovery nm) (nm_recovery nm')"
    and "cmd_newmux_claim_reserved_closed_exec h print value target nm = Some (e, out, nm') \<Longrightarrow> kept (nm_recovery nm) (nm_recovery nm')"
    and "cmd_newmux_release_reserved_closed_exec print value nm = Some (e, out, nm') \<Longrightarrow> kept (nm_recovery nm) (nm_recovery nm')"
proof -
  note refl = kept_refl [OF assms] and pop = taken_pop [OF assms(1)] and unreserve = taken_unreserve [OF assms(1)]
    and kept = taken_kept(1,2) [OF _ assms(2)] and reopen = reopen_kept [OF _ assms(2)]
  show "cmd_newmux_reopen_latest_closed_exec h print target nm = Some (e, out, nm') \<Longrightarrow> kept (nm_recovery nm) (nm_recovery nm')"
    using refl by (auto simp: cmd_newmux_reopen_latest_closed_exec_def intro: pop reopen split: option.splits prod.splits)
  show "cmd_newmux_reserve_latest_closed_exec print nm = Some (e, out, nm') \<Longrightarrow> kept (nm_recovery nm) (nm_recovery nm')"
    using refl kept(2) [OF pop] by (auto simp: cmd_newmux_reserve_latest_closed_exec_def split: option.splits prod.splits)
  show "cmd_newmux_claim_reserved_closed_exec h print value target nm = Some (e, out, nm') \<Longrightarrow> kept (nm_recovery nm) (nm_recovery nm')"
    using refl by (auto simp: cmd_newmux_claim_reserved_closed_exec_def with_sequence_def intro: unreserve reopen
        split: option.splits prod.splits)
  show "cmd_newmux_release_reserved_closed_exec print value nm = Some (e, out, nm') \<Longrightarrow> kept (nm_recovery nm) (nm_recovery nm')"
    using refl kept(1) [OF unreserve] by (auto simp: cmd_newmux_release_reserved_closed_exec_def with_sequence_def
        split: option.splits prod.splits)
qed

lemma newmux_step_kept:
  assumes "newmux_step h nm nm'" "recovery_ok (nm_recovery nm)" "newmux_closed_next_sequence (nm_recovery nm) < uint_max"
  shows "kept (nm_recovery nm) (nm_recovery nm')"
  using assms(1)
proof cases
  case 3
  then show ?thesis using kept_refl [OF assms(2,3)] by (simp add: cmd_newmux_soft_delete_session_exec_def)
next
  case 9
  then show ?thesis using kept_refl [OF assms(2,3)] by (simp add: cmd_newmux_list_recently_closed_exec_def)
next
  case 10
  then show ?thesis
    by (auto simp: cmd_newmux_clear_recently_closed_exec_def newmux_recovery_clear_def newmux_stack_clear_def kept_def Let_def
        recovery_ok_def all_items_def stack_valid_def)
next
  case 11
  then show ?thesis using kept_refl [OF assms(2,3)] by simp
qed (rule soft_delete_kept [OF assms(2,3)] reserved_kept [OF assms(2,3)], assumption)+

lemma next_sequence_bound: "x \<le> y + 1 \<Longrightarrow> unat (y::u32) \<le> n \<Longrightarrow> n < 4294967295 \<Longrightarrow> unat x \<le> Suc n"
  by (simp add: word_le_nat_alt unat_plus_if')

text \<open>
  C2. In a server that starts with empty stacks, after any fewer than $2^{32}-1$ commands, mixed with
  anything else that happens to the server, there are at most 32 closed items, the counter says how
  many, and no two items, closed or reserved, have the same number: a number that a command printed
  names one item.
\<close>

theorem newmux_numbers_unique:
  assumes "(newmux_step h ^^ n) nm nm'" "nm_recovery nm = newmux_stack_clear r" "n < 4294967295"
  shows "recovery_ok (nm_recovery nm')"
proof -
  have "recovery_ok (nm_recovery nm') \<and> unat (newmux_closed_next_sequence (nm_recovery nm')) \<le> n"
    using assms(1,3)
  proof (induction n arbitrary: nm')
    case 0
    then show ?case
      using assms(2) by (simp add: recovery_ok_def newmux_stack_clear_def all_items_def stack_valid_def)
  next
    case (Suc n)
    then obtain nm1 where nm1: "(newmux_step h ^^ n) nm nm1" "newmux_step h nm1 nm'" by auto
    have IH: "recovery_ok (nm_recovery nm1)" "unat (newmux_closed_next_sequence (nm_recovery nm1)) \<le> n"
      using Suc nm1(1) by auto
    then have "newmux_closed_next_sequence (nm_recovery nm1) < uint_max"
      using Suc.prems(2) by (simp add: word_less_nat_alt unat_uint_max)
    then have "kept (nm_recovery nm1) (nm_recovery nm')" by (rule newmux_step_kept [OF nm1(2) IH(1)])
    then show ?case using IH Suc.prems(2) next_sequence_bound by (auto simp: kept_def)
  qed
  then show ?thesis by simp
qed

section \<open>The stack of closed items\<close>

text \<open>
  C4. The stack of closed items refines a list cut at 32: after any pushes it holds the newest 32
  items, the newest first, its counter is their number, and popping gives them back in that order,
  the last item pushed before all others.
\<close>

theorem newmux_stack_bounded:
  assumes "stack_valid r"
  shows "newmux_closed_stack (fold newmux_stack_push items r) = take 32 (rev items @ newmux_closed_stack r) \<and>
    newmux_closed_count (fold newmux_stack_push items r) = min 32 (length items + length (newmux_closed_stack r)) \<and>
    fst (closed.pops n (fold newmux_stack_push items r)) = take (min n 32) (rev items @ newmux_closed_stack r)"
  using closed.push_all [OF assms, of items] closed.pops_items [of "fold newmux_stack_push items r" n]
  by (simp add: NEWMUX_RECOVERY_MAX_ITEMS_def stack_valid_def min.commute del: take_append)

lemma parse_show_sequence: "0 < sequence \<Longrightarrow> parse_sequence (show_nat (unat sequence)) = Some sequence"
proof -
  assume pos: "0 < sequence"
  obtain c cs where s: "show_nat (unat sequence) = c # cs" "isdigit c" "list_all isdigit (c # cs)"
    using show_nat_digits [of "unat sequence"] by (cases "show_nat (unat sequence)") (auto simp: list_all_iff)
  have "dropWhile isspace (c # cs) = c # cs" "scan_sign (c # cs) = (False, c # cs)"
    using s digit_not_space [of c] by simp_all
  moreover have "digits_value (c # cs) = unat sequence" using digits_value_show s(1) by metis
  moreover have "1 \<le> unat sequence" "unat sequence \<le> 4294967295"
    using pos word_le_nat_alt [of sequence uint_max] by (simp_all add: word_less_nat_alt Suc_le_eq unat_uint_max)
  ultimately show ?thesis using s(3) by (simp add: parse_sequence_def s(1))
qed

lemma push_popped:
  assumes "stack_valid r" "newmux_stack_pop r = (Some item, r')"
  shows "newmux_stack_push item r' = r" "stack_valid r'"
proof -
  have r: "newmux_closed_stack r = item # newmux_closed_stack r'" "newmux_closed_count r = newmux_closed_count r' + 1"
      "r' = r\<lparr>newmux_closed_stack := newmux_closed_stack r', newmux_closed_count := newmux_closed_count r'\<rparr>"
    using assms by (auto simp: newmux_stack_pop_def stack_valid_def split: list.splits)
  then show v: "stack_valid r'" using assms(1) by (simp add: stack_valid_def)
  have "take NEWMUX_RECOVERY_MAX_ITEMS (item # newmux_closed_stack r') = newmux_closed_stack r"
      "min (length (newmux_closed_stack r') + 1) NEWMUX_RECOVERY_MAX_ITEMS = newmux_closed_count r"
    using assms(1) r by (simp_all add: stack_valid_def)
  then show "newmux_stack_push item r' = r" unfolding stack_push_eq [OF v] by (subst r(3)) simp
qed

text \<open>
  C5. Reserving the newest closed item and releasing it by the number that the command printed puts
  it back where it was: the state is the one from before.
\<close>

theorem newmux_reserve_release:
  assumes "recovery_ok (nm_recovery nm)" "newmux_closed_stack (nm_recovery nm) = item # items"
  shows "\<exists>nm1. cmd_newmux_reserve_latest_closed_exec True nm = Some (None, [newmux_print_closed_item item True (nm_server nm)], nm1) \<and>
    newmux_closed_stack (nm_recovery nm1) = items \<and>
    cmd_newmux_release_reserved_closed_exec True (Some (show_nat (unat (ci_sequence item)))) nm1 =
      Some (None, [''ok=1 action=release released=1 sequence='' @ show_nat (unat (ci_sequence item))], nm)"
proof -
  let ?r = "nm_recovery nm"
  obtain r where pop: "newmux_stack_pop ?r = (Some item, r)" "newmux_closed_stack r = items"
    using assms(2) by (simp add: newmux_stack_pop_def)
  then have t: "taken item ?r r" and v: "stack_valid ?r" using taken_pop [OF assms(1)] assms(1) by (simp_all add: recovery_ok_def)
  have fresh: "ci_sequence item \<notin> ci_sequence ` set (newmux_reserved_stack r)" and pos: "0 < ci_sequence item"
    using t by (auto simp: taken_def all_items_def)
  have "find (\<lambda>x. ci_sequence x = ci_sequence item) (xs @ [item]) = Some item" if "ci_sequence item \<notin> ci_sequence ` set xs" for xs
    using that by (induction xs) auto
  then have "newmux_reserved_pop_by_sequence (ci_sequence item) (newmux_reserved_push item r) = (Some item, r)"
    using fresh by (auto simp add: newmux_reserved_pop_by_sequence_def newmux_reserved_push_def remove1_append)
  then show ?thesis
    using pop push_popped [OF v pop(1)] parse_show_sequence [OF pos]
    by (simp add: cmd_newmux_reserve_latest_closed_exec_def cmd_newmux_release_reserved_closed_exec_def with_sequence_def
        newmux_reserved_push_def)
qed

section \<open>When reopening fails\<close>

lemma restore_error_same:
  "newmux_restore_closed_item h target item st = Some (Some e, st') \<Longrightarrow> e \<noteq> Layout_failed \<Longrightarrow> e \<noteq> Index_in_use \<Longrightarrow> st' = st"
  by (auto simp: newmux_restore_closed_item_def newmux_restore_live_pane_def newmux_restore_live_window_def Let_def bind_eq_Some_conv
      split: newmux_closed_type.splits option.splits if_splits prod.splits)

text \<open>
  C6. When reopening the newest item fails, nothing is printed and the item is back on top of the
  stack with the stacks as they were, so no item is lost. Unless the layout or the index was the
  reason the whole state is unchanged: then the same command fails again, and the item blocks those
  below it.
\<close>

theorem newmux_reopen_failed_keeps:
  assumes "recovery_ok (nm_recovery nm)" "cmd_newmux_reopen_latest_closed_exec h print target nm = Some (Some e, out, nm')"
  shows "out = [] \<and> nm_recovery nm' = nm_recovery nm \<and> newmux_closed_stack (nm_recovery nm) \<noteq> [] \<and>
    (e = Layout_failed \<or> e = Index_in_use \<or> nm' = nm)"
proof -
  have v: "stack_valid (nm_recovery nm)" using assms(1) by (simp add: recovery_ok_def)
  obtain item r where pop: "newmux_stack_pop (nm_recovery nm) = (Some item, r)"
    and reopen: "reopen_item h print target item (nm_server nm) r = Some (Some e, out, nm')"
    using assms(2) by (auto simp: cmd_newmux_reopen_latest_closed_exec_def split: prod.splits option.splits)
  have "newmux_closed_stack (nm_recovery nm) \<noteq> []" using pop by (auto simp: newmux_stack_pop_def)
  then show ?thesis
    using reopen push_popped(1) [OF v pop] restore_error_same [of h target item "nm_server nm" e]
    by (cases "e = Layout_failed \<or> e = Index_in_use") (auto simp: reopen_item_def bind_eq_Some_conv split: option.splits)
qed

text \<open>States with the same sessions and the same panes in the windows.\<close>

definition lists_kept :: "server \<Rightarrow> server \<Rightarrow> bool" where
  "lists_kept st st' \<longleftrightarrow> sessions st' = sessions st \<and> dom (panes st') = dom (panes st) \<and>
     (\<forall>w. map_option w_panes (windows st' w) = map_option w_panes (windows st w))"

lemma lists_kept_refl [simp]: "lists_kept st st"
  by (simp add: lists_kept_def)

lemma lists_kept_trans: "lists_kept a b \<Longrightarrow> lists_kept b c \<Longrightarrow> lists_kept a c"
  by (simp add: lists_kept_def)

lemma dom_upd_pane [simp]: "dom (panes (upd_pane p f st)) = dom (panes st)"
  by (auto simp: dom_def split: if_splits)

lemma lists_kept_upd [simp]:
  "lists_kept st (upd_pane p f st')  = lists_kept st st'"
  "(\<And>win. w_panes (g win) = w_panes win) \<Longrightarrow> lists_kept st (upd_window w g st') = lists_kept st st'"
  by (auto simp: lists_kept_def option.map_comp comp_def)

lemma lists_kept_same_panes: "same_panes st' st'' \<Longrightarrow> lists_kept st st' \<Longrightarrow> lists_kept st st''"
  using same_panesD(13) [of st' st''] by (auto simp: lists_kept_def same_panesD dom_def)

lemma lists_kept_window:
  "lists_kept st st' \<Longrightarrow> windows st w = Some win \<Longrightarrow> \<exists>win'. windows st' w = Some win' \<and> w_panes win' = w_panes win"
  unfolding lists_kept_def by (metis map_option_eq_Some)

lemma lists_kept_unzoom: "lists_kept st (snd (window_unzoom h w st))"
proof -
  have "lists_kept s (fold (\<lambda>p. upd_pane p f) ps s')" if "lists_kept s s'" for s s' f ps
    using that by (induction ps arbitrary: s') simp_all
  then show ?thesis by (auto simp: window_unzoom_def intro!: lists_kept_same_panes [OF fix_panes_same] split: option.split)
qed

lemma lists_kept_stack [simp]:
  "lists_kept st (window_pane_stack_remove w q st') = lists_kept st st'"
  by (simp add: window_pane_stack_remove_def split: option.split)

lemma lists_kept_lost: "lists_kept st (window_lost_pane links w p st)"
  by (auto simp: window_lost_pane_def Let_def server_clear_marked_def split: option.split)
    (auto simp: lists_kept_def)

lemma lists_kept_close: "window_close_pane h w p st = Some st' \<Longrightarrow> lists_kept st st'"
  by (auto simp: window_close_pane_def intro!: lists_kept_same_panes [OF fix_panes_same]
      split: option.splits if_splits layout_cell.splits)

lemma layout_parse_failed_same:
  assumes "window_layout_parse h w layout st = Some (False, st')"
  shows "st' = st"
proof -
  obtain win env where "windows st w = Some win" "window_env st win = Some env"
    using assms by (auto simp: window_layout_parse_def bind_eq_Some_conv)
  then show ?thesis
    using assms by (cases "layout_parse env (w_sx win) (w_sy win) (w_panes win) layout") (simp_all add: window_layout_parse_def Let_def)
qed

text \<open>After the pane has left its recovery window \<open>v\<close>, it is in the window \<open>w\<close>.\<close>

lemma take_pane_back_lists:
  assumes "take_pane_back h v w p idx st = Some st'" "v \<noteq> w" "windows st v = Some rw" "windows st w = Some win"
    "distinct (w_panes rw)"
  shows "sessions st' = sessions st" "\<exists>rw'. windows st' v = Some rw' \<and> p \<notin> set (w_panes rw')"
    "\<exists>win'. windows st' w = Some win' \<and> p \<in> set (w_panes win') \<and> set (w_panes win') = insert p (set (w_panes win))"
    "\<exists>wp. panes st' p = Some wp \<and> wp_window wp = w"
proof -
  obtain wp st1 win1 where st1: "panes st p = Some wp" "window_close_pane h (wp_window wp) p st = Some st1" "windows st1 v = Some win1"
    and st': "st' = newmux_insert_pane_at_index w p idx (upd_pane p (\<lambda>wp. wp\<lparr>wp_window := w, wp_flags := wp_flags wp OR moved_flags\<rparr>)
        (window_unlist_pane v p (window_lost_pane (w_panes win1) v p st1)))"
    using assms(1) by (auto simp: take_pane_back_def bind_eq_Some_conv Let_def split: option.splits if_splits)
  let ?st2 = "window_lost_pane (w_panes win1) v p st1"
  have k: "lists_kept st ?st2" using lists_kept_trans [OF lists_kept_close [OF st1(2)] lists_kept_lost] .
  obtain win2 where win2: "windows ?st2 v = Some win2" "w_panes win2 = w_panes rw"
    using lists_kept_window [OF k assms(3)] by blast
  obtain dst2 where dst2: "windows ?st2 w = Some dst2" "w_panes dst2 = w_panes win"
    using lists_kept_window [OF k assms(4)] by blast
  show "sessions st' = sessions st"
    using k by (simp add: st' newmux_insert_pane_at_index_def window_unlist_pane_def lists_kept_def)
  show "\<exists>rw'. windows st' v = Some rw' \<and> p \<notin> set (w_panes rw')"
    using assms(2,5) win2 by (simp add: st' newmux_insert_pane_at_index_def window_unlist_pane_def)
  have ins: "set (insert_before at p xs) = insert p (set xs)" for at xs
    unfolding insert_before_def by (metis insert_is_Un set_append list.simps(15) takeWhile_dropWhile_id Un_commute Un_left_commute)
  show "\<exists>win'. windows st' w = Some win' \<and> p \<in> set (w_panes win') \<and> set (w_panes win') = insert p (set (w_panes win))"
    using assms(2) dst2 by (auto simp: st' newmux_insert_pane_at_index_def window_unlist_pane_def ins split: option.split)
  have "p \<in> dom (panes ?st2)" using k st1(1) unfolding lists_kept_def by blast
  then show "\<exists>wp. panes st' p = Some wp \<and> wp_window wp = w"
    by (auto simp: st' newmux_insert_pane_at_index_def window_unlist_pane_def)
qed

lemma restore_layout_failedE:
  assumes "newmux_restore_live_pane h target item st = Some (Some Layout_failed, st')"
  obtains i s wl rs wp layout st1 where "newmux_restore_destination_session target item st = Some i" "the_session st i = Some s"
      "windows st (ci_window_id item) \<noteq> None" "winlink_find_by_window (s_windows s) (ci_window_id item) = Some wl"
      "session_find_by_id st (ci_recovery_session_id item) = Some rs"
      "winlink_find_by_window (s_windows rs) (ci_recovery_window_id item) \<noteq> None" "panes st (ci_pane_id item) = Some wp"
      "take_pane_back h (ci_recovery_window_id item) (ci_window_id item) (ci_pane_id item) (ci_pane_index item)
         (server_unzoom_window h (ci_recovery_window_id item) (server_unzoom_window h (ci_window_id item) st)) = Some st1"
      "window_layout_parse h (ci_window_id item) layout st1 = Some (False, st')"
proof -
  note restore = assms [unfolded newmux_restore_live_pane_def]
  obtain i where i: "newmux_restore_destination_session target item st = Some i"
    using restore by (cases "newmux_restore_destination_session target item st") simp_all
  obtain wl where wl: "Option.bind (the_session st i) (\<lambda>s. if windows st (ci_window_id item) = None then None
      else winlink_find_by_window (s_windows s) (ci_window_id item)) = Some wl"
    using restore i by (auto split: option.splits)
  obtain rs rw wp where f: "session_find_by_id st (ci_recovery_session_id item) = Some rs"
      "windows st (ci_recovery_window_id item) = Some rw" "panes st (ci_pane_id item) = Some wp"
    using restore i wl by (simp split: option.splits)
  have g: "winlink_find_by_window (s_windows rs) (ci_recovery_window_id item) \<noteq> None"
    using restore i wl f by (auto split: if_splits)
  obtain st1 where t: "take_pane_back h (ci_recovery_window_id item) (ci_window_id item) (ci_pane_id item) (ci_pane_index item)
         (server_unzoom_window h (ci_recovery_window_id item) (server_unzoom_window h (ci_window_id item) st)) = Some st1"
    using restore i wl f g by (simp add: Let_def bind_eq_Some_conv) blast
  obtain layout where l: "window_layout_parse h (ci_window_id item) layout st1 = Some (False, st')"
    using restore i wl f g t
    by (cases "ci_window_layout item") (auto simp: Let_def bind_eq_Some_conv split: if_splits)
  show ?thesis using that i wl f(1,3) g t l by (auto simp: bind_eq_Some_conv split: if_splits)
qed


end
