(* ===== verification/Server_Examples.thy ===== *)
theory Server_Examples
  imports Recovery_Facts
begin

text \<open>
  A small server, and the claims on windows and on the recovery of closed panes and windows at
  concrete states of it.
\<close>

definition demo_options :: session where
  "demo_options = \<lparr>s_id = 0, s_name = [], s_cwd = [], s_curw = None, s_lastw = [], s_windows = [], s_base_index = 0, s_renumber = False\<rparr>"

definition demo_window :: window where
  "demo_window = \<lparr>w_name = ''sh'', w_active = None, w_last_panes = [], w_z_index = [], w_panes = [], w_layout_root = None,
     w_saved_layout_root = None, w_sx = 20, w_sy = 10, w_xpixel = 16, w_ypixel = 32, w_flags = 0, w_references = 1,
     w_pane_base_index = 0, w_border_status = PANE_STATUS_OFF, w_scrollbars = 0, w_scrollbars_left = False\<rparr>"

definition demo_pane :: "nat \<Rightarrow> pane" where
  "demo_pane w = \<lparr>wp_active_point = 0, wp_window = w, wp_cell = None, wp_sx = 20, wp_sy = 10, wp_xoff = 0, wp_yoff = 0, wp_flags = 0,
     wp_argc = 0, wp_argv = None, wp_shell = Some ''/bin/sh'', wp_fd = 5, wp_base = \<lparr>sc_grid = grid_create 4 2 10, sc_saved_grid = None\<rparr>,
     wp_modes = [], wp_sb_width = 1, wp_sb_pad = 0, wp_dirty = None\<rparr>"

definition demo_host :: host where
  "demo_host = \<lparr>osdep_get_name = (\<lambda>_. Some ''vi''), screen_resize = (\<lambda>s _ _ _. s), recalculate_sizes = (\<lambda>st. st),
     new_session_options = demo_options, new_window_options = demo_window\<rparr>"

text \<open>A window with three panes side by side: the pane \<open>1\<close> is the active one and the pane \<open>2\<close> was before.\<close>

definition three_panes :: window where
  "three_panes = demo_window\<lparr>w_active := Some 1, w_last_panes := [2], w_z_index := [0, 1, 2], w_panes := [0, 1, 2],
     w_layout_root := Some (layout_fix_offsets (demo_node LAYOUT_LEFTRIGHT 20 10
       [demo_leaf 0 6 10, demo_leaf 1 6 10, demo_leaf 2 6 10]))\<rparr>"

definition one_pane :: "nat \<Rightarrow> window" where
  "one_pane p = demo_window\<lparr>w_active := Some p, w_z_index := [p], w_panes := [p], w_layout_root := Some (demo_leaf p 20 10)\<rparr>"

definition demo_link :: "nat \<Rightarrow> int \<Rightarrow> nat \<Rightarrow> nat \<Rightarrow> winlink" where
  "demo_link ptr idx i w = \<lparr>wl_ptr = ptr, wl_idx = idx, wl_session = Some i, wl_window = Some w, wl_flags = 0\<rparr>"

definition demo_server :: server where
  "demo_server = \<lparr>sessions = [demo_options\<lparr>s_name := ''main'', s_curw := Some 11,
       s_windows := [demo_link 10 0 0 0, demo_link 11 1 0 1, demo_link 12 4 0 2]\<rparr>],
     session_groups = [],
     windows = [0 \<mapsto> three_panes, 1 \<mapsto> one_pane 3, 2 \<mapsto> one_pane 4],
     panes = [0 \<mapsto> demo_pane 0, 1 \<mapsto> demo_pane 0, 2 \<mapsto> (demo_pane 0)\<lparr>wp_flags := PANE_VISITED\<rparr>, 3 \<mapsto> demo_pane 1, 4 \<mapsto> demo_pane 2],
     next_session_id = 1, next_window_id = 3, next_winlink = 13, next_active_point = 1, marked_wl = None, marked_wp = None,
     utf8_items_table = utf8_empty\<rparr>"

definition demo_newmux :: newmux where
  "demo_newmux = \<lparr>nm_server = demo_server,
     nm_recovery = \<lparr>newmux_closed_stack = [], newmux_reserved_stack = [], newmux_closed_next_sequence = 0, newmux_closed_count = 0\<rparr>\<rparr>"

section \<open>Windows\<close>

lemma demo_window_ok: "window_ok 0 demo_server"
  by (auto simp: window_ok_def last_panes.stack_ok_def last_panes_def pane_live_def pane_marked_def demo_server_def three_panes_def
      demo_window_def demo_pane_def PANE_VISITED_def split: if_splits)

theorem window_lost_pane_witness:
  "\<exists>win'. windows (window_lost_pane [0, 1, 2] 0 1 demo_server) 0 = Some win' \<and> w_active win' = Some 2 \<and> w_last_panes win' = [] \<and>
     w_panes win' = [0, 1, 2]"
  using window_lost_pane_correct [OF demo_window_ok, of three_panes "[0]" 1 "[2]"]
  by (auto simp: demo_server_def three_panes_def demo_window_def)

theorem window_zoom_witness:
  "fst (window_zoom demo_host 0 2 demo_server) \<and>
   (\<exists>ls. windows (snd (window_unzoom demo_host 0 (snd (window_zoom demo_host 0 2 demo_server)))) 0 =
      Some (three_panes\<lparr>w_active := Some 2, w_last_panes := ls\<rparr>))"
  using window_zoom_unzoom [of demo_server 0 three_panes demo_host 2]
  by (simp add: demo_server_def three_panes_def demo_window_def WINDOW_ZOOMED_def window_count_panes_def)

section \<open>The stacks of closed items\<close>

definition demo_item :: "nat \<Rightarrow> newmux_closed_item" where
  "demo_item n = \<lparr>ci_type = NEWMUX_CLOSED_PANE, ci_sequence = of_nat n, ci_session_id = 0, ci_session_name = ''main'', ci_window_id = 0,
     ci_window_name = ''sh'', ci_window_index = 0, ci_window_position = 0, ci_left_window_id = -1, ci_right_window_id = 1,
     ci_window_layout = Some ''005e,80x9,0,0,0'', ci_pane_id = 4, ci_pane_index = 1, ci_active_pane_index = 1,
     ci_recovery_session_id = 0, ci_recovery_window_id = 2\<rparr>"

definition demo_recovery :: recovery where
  "demo_recovery = \<lparr>newmux_closed_stack = [demo_item 3, demo_item 2], newmux_reserved_stack = [demo_item 1],
     newmux_closed_next_sequence = 3, newmux_closed_count = 2\<rparr>"

lemma demo_recovery_ok: "recovery_ok demo_recovery"
  by (simp add: recovery_ok_def stack_valid_def all_items_def demo_recovery_def demo_item_def NEWMUX_RECOVERY_MAX_ITEMS_def)

theorem newmux_stack_witness:
  "newmux_closed_stack (fold newmux_stack_push (map demo_item [4..<44]) demo_recovery) = map demo_item (rev [12..<44])"
proof -
  have "take 32 (rev (map demo_item [4..<44]) @ newmux_closed_stack demo_recovery) = map demo_item (rev [12..<44])"
    by (simp add: demo_recovery_def upt_rec_numeral)
  then show ?thesis
    using newmux_stack_bounded [of demo_recovery "map demo_item [4..<44]" 0] demo_recovery_ok by (simp add: recovery_ok_def)
qed

theorem newmux_reserve_witness:
  "\<exists>line nm. cmd_newmux_reserve_latest_closed_exec True (demo_newmux\<lparr>nm_recovery := demo_recovery\<rparr>) = Some (None, [line], nm) \<and>
     newmux_closed_stack (nm_recovery nm) = [demo_item 2] \<and>
     cmd_newmux_release_reserved_closed_exec True (Some ''3'') nm =
       Some (None, [''ok=1 action=release released=1 sequence=3''], demo_newmux\<lparr>nm_recovery := demo_recovery\<rparr>)"
proof -
  have "show_nat (unat (ci_sequence (demo_item 3))) = ''3''" by code_simp
  then show ?thesis
    using newmux_reserve_release [of "demo_newmux\<lparr>nm_recovery := demo_recovery\<rparr>" "demo_item 3" "[demo_item 2]"] demo_recovery_ok
    by (auto simp: demo_recovery_def)
qed

text \<open>The session of an item is gone, and there is no target to use instead.\<close>

theorem newmux_reopen_witness:
  "let nm = demo_newmux\<lparr>nm_server := demo_server\<lparr>sessions := []\<rparr>, nm_recovery := demo_recovery\<rparr>
   in cmd_newmux_reopen_latest_closed_exec demo_host True None nm = Some (Some Session_missing, [], nm)"
proof -
  let ?nm = "demo_newmux\<lparr>nm_server := demo_server\<lparr>sessions := []\<rparr>, nm_recovery := demo_recovery\<rparr>"
  have "map_option (\<lambda>(e, out, nm). (e, out)) (cmd_newmux_reopen_latest_closed_exec demo_host True None ?nm) = Some (Some Session_missing, [])"
    by (simp add: cmd_newmux_reopen_latest_closed_exec_def reopen_item_def newmux_stack_pop_def demo_recovery_def demo_item_def
        newmux_restore_closed_item_def newmux_restore_live_pane_def newmux_restore_destination_session_def session_find_by_id_def)
  then obtain nm' where "cmd_newmux_reopen_latest_closed_exec demo_host True None ?nm = Some (Some Session_missing, [], nm')" by auto
  with newmux_reopen_failed_keeps [OF _ this] demo_recovery_ok show ?thesis by simp
qed



text \<open>
  The layout remembered has one cell, and the window has three panes already.
\<close>

lemma demo_parse: "layout_parse env 20 10 [0, 4, 1, 2] ''005e,80x9,0,0,0'' = Failed False"
proof -
  have 1: "layout_checksum ''80x9,0,0,0'' = 0x5e" by code_simp
  have 2: "scan_hex ''005e,80x9,0,0,0'' = Some (0x5e, '',80x9,0,0,0'')"
    by code_simp
  have "layout_construct (2 * length ''80x9,0,0,0'' + 2) ''80x9,0,0,0'' None =
      Parsed (Some (Cell \<lparr>lc_type = LAYOUT_WINDOWPANE, lc_sx = 80, lc_sy = 9, lc_xoff = 0, lc_yoff = 0, lc_wp = None\<rparr> []), None, [])"
    by code_simp
  with 1 2 show ?thesis by (simp add: layout_parse_def del: layout_construct.simps)
qed
lemmas demo_defs = take_pane_back_def server_unzoom_window_def window_unzoom_def demo_server_def three_panes_def one_pane_def demo_window_def
      demo_pane_def window_close_pane_def pane_layout_cell_def demo_leaf_def window_lost_pane_def window_pane_stack_remove_def
      PANE_FLOATING_def PANE_VISITED_def WINDOW_ZOOMED_def window_unlist_pane_def newmux_insert_pane_at_index_def insert_before_def
      upd_pane_def upd_window_def window_pane_at_index_def moved_flags_def
      PANE_STYLECHANGED_def PANE_THEMECHANGED_def PANE_CHANGED_def


end
