(* ===== verification/Window_Order.thy ===== *)
theory Window_Order
  imports Recovery_Facts
begin

text \<open>
  Closing and reopening a window: what every operation on the way does to the windows of each
  session and to the references of the windows, and the order of the windows at the end.
\<close>

section \<open>The links of a session\<close>

text \<open>A winlink without its flags and its session: its address, its index and its window.\<close>

definition link_key :: "winlink \<Rightarrow> nat \<times> int \<times> nat option" where
  "link_key wl = (wl_ptr wl, wl_idx wl, wl_window wl)"

abbreviation keys :: "winlinks \<Rightarrow> (nat \<times> int \<times> nat option) list" where
  "keys wwl \<equiv> map link_key wwl"

definition links :: "server \<Rightarrow> nat \<Rightarrow> (string \<times> (nat \<times> int \<times> nat option) list) option" where
  "links st i = map_option (\<lambda>s. (s_name s, keys (s_windows s))) (the_session st i)"

definition refs :: "server \<Rightarrow> nat \<Rightarrow> nat option" where
  "refs st w = map_option w_references (windows st w)"

text \<open>States that have the same links, references and groups.\<close>

definition same_links :: "server \<Rightarrow> server \<Rightarrow> bool" where
  "same_links st st' \<longleftrightarrow> links st' = links st \<and> refs st' = refs st \<and> session_groups st' = session_groups st \<and>
     next_winlink st' = next_winlink st"

lemma same_links_refl [simp]: "same_links st st"
  by (simp add: same_links_def)

lemma same_links_trans [trans]: "same_links a b \<Longrightarrow> same_links b c \<Longrightarrow> same_links a c"
  by (simp add: same_links_def)

lemma links_pane [simp]: "links (upd_pane p f st) = links st" "refs (upd_pane p f st) = refs st"
  by (simp_all add: fun_eq_iff links_def refs_def)

lemma links_window [simp]: "links (upd_window w f st) = links st"
  by (simp add: fun_eq_iff links_def)

lemma refs_window [simp]: "(\<And>win. w_references (f win) = w_references win) \<Longrightarrow> refs (upd_window w f st) = refs st"
  by (auto simp: fun_eq_iff refs_def option.map_comp comp_def)

lemma refs_session [simp]: "refs (upd_session i f st) = refs st"
  by (simp add: fun_eq_iff refs_def)

lemma links_session:
  assumes "the_session st i = Some s" "\<And>t. s_id (f t) = s_id t" "s_name (f s) = s_name s" "keys (s_windows (f s)) = keys (s_windows s)"
  shows "links (upd_session i f st) = links st"
  using assms by (simp add: fun_eq_iff links_def)

lemma keys_flags [simp]: "keys (wl_update p (wl_flags_update f) wwl) = keys wwl"
  by (induction wwl) (auto simp: wl_update_def link_key_def)

lemma keys_stack:
  "keys (fst (winlink_stack_remove p st)) = keys (fst st)" "keys (fst (winlink_stack_push p st)) = keys (fst st)"
  by (auto simp: winlink_stack_remove_def winlink_stack_push_def split: prod.splits option.splits if_splits)

lemma same_links_clear_flags: "same_links st (winlink_clear_flags w st)"
proof -
  have "keys (clear_alerts w wwl) = keys wwl" for wwl by (auto simp: clear_alerts_def link_key_def)
  moreover have "find (\<lambda>s. s_id s = i) (map (s_windows_update g) xs) = map_option (s_windows_update g) (find (\<lambda>s. s_id s = i) xs)"
    for g i and xs :: "session list" by (induction xs) auto
  ultimately show ?thesis
    by (auto simp: same_links_def winlink_clear_flags_def links_def refs_def the_session_def fun_eq_iff option.map_comp comp_def)
qed

lemma same_links_set_current: "same_links st (snd (session_set_current i p st))"
proof (cases p)
  case (Some q)
  show ?thesis
  proof (cases "the_session st i")
    case (Some s)
    obtain wwl lastw where st: "winlink_stack_push (s_curw s) (winlink_stack_remove (Some q) (s_windows s, s_lastw s)) = (wwl, lastw)"
      by (cases "winlink_stack_push (s_curw s) (winlink_stack_remove (Some q) (s_windows s, s_lastw s))") auto
    have "keys wwl = keys (s_windows s)" using keys_stack [of _ "(s_windows s, s_lastw s)"] keys_stack(2) st by (metis fst_conv)
    then have "same_links st (upd_session i (\<lambda>s. s\<lparr>s_windows := wwl, s_lastw := lastw, s_curw := Some q\<rparr>) st)"
      using Some by (simp add: same_links_def links_session)
    then show ?thesis
      using \<open>p = Some q\<close> Some st same_links_trans [OF _ same_links_clear_flags]
      by (auto simp: session_set_current_def Let_def split: option.split)
  qed (simp add: session_set_current_def \<open>p = Some q\<close>)
qed (simp add: session_set_current_def)

lemma same_links_select: "same_links st (snd (session_select i idx st))"
  by (simp add: session_select_def same_links_set_current split: option.split)

lemma same_links_move_off: "same_links st (session_move_off i st)"
proof -
  have "same_links st (snd (session_last i st))" "same_links st (snd (session_previous i a st))" "same_links st (snd (session_next i a st))"
    for st a
    by (auto simp: session_last_def session_previous_def session_next_def Let_def same_links_set_current split: option.split list.split)
  then show ?thesis
    unfolding session_move_off_def Let_def by (simp add: split_beta) (blast intro: same_links_trans)
qed

lemma same_links_panes: "same_panes st st' \<Longrightarrow> same_links st st'"
  by (simp add: same_links_def links_def refs_def the_session_def fun_eq_iff same_panesD)

lemma same_links_unzoom: "same_links st (server_unzoom_window h w st)"
proof -
  have "same_links s (fold (\<lambda>p. upd_pane p f) ps s')" if "same_links s s'" for s s' f ps
    using that by (induction ps arbitrary: s') (simp_all add: same_links_def)
  then show ?thesis
    by (auto simp: server_unzoom_window_def window_unzoom_def same_links_def
        intro!: same_links_trans [OF _ same_links_panes [OF fix_panes_same], unfolded same_links_def] split: option.split)
qed

section \<open>Attaching and detaching\<close>

lemma window_remove_ref_eq:
  "refs st w = Some (Suc (Suc n)) \<Longrightarrow> window_remove_ref h w st = upd_window w (w_references_update (\<lambda>n. n - 1)) st"
  by (auto simp: window_remove_ref_def refs_def Let_def)

lemma refs_change:
  "refs (upd_window w (w_references_update f) st) = (refs st)(w := map_option f (refs st w))"
  by (auto simp: fun_eq_iff refs_def option.map_comp comp_def)

lemma no_groups: "session_groups st = [] \<Longrightarrow> session_group_synchronize_from h i st = Some st"
  by (simp add: session_group_synchronize_from_def session_group_contains_def)

lemma keys_eq:
  assumes "keys wwl' = keys wwl"
  shows "map wl_ptr wwl' = map wl_ptr wwl" "map wl_idx wwl' = map wl_idx wwl" "map wl_window wwl' = map wl_window wwl"
  using arg_cong [OF assms, of "map fst"] arg_cong [OF assms, of "map (fst \<circ> snd)"] arg_cong [OF assms, of "map (snd \<circ> snd)"]
  by (simp_all add: link_key_def comp_def)

abbreviation kidx :: "nat \<times> int \<times> nat option \<Rightarrow> int" where
  "kidx k \<equiv> fst (snd k)"

text \<open>A session keeps its windows in order, with addresses below the counter and room for more.\<close>

definition keys_ok :: "(nat \<times> int \<times> nat option) list \<Rightarrow> bool" where
  "keys_ok ks \<longleftrightarrow> rb_ordered kidx ks \<and> distinct (map fst ks) \<and> (\<forall>k \<in> set ks. 0 \<le> kidx k \<and> kidx k \<le> int_max)"

definition keys_fine :: "server \<Rightarrow> (nat \<times> int \<times> nat option) list \<Rightarrow> bool" where
  "keys_fine st ks \<longleftrightarrow> keys_ok ks \<and> int (length ks) \<le> int_max \<and> (\<forall>k \<in> set ks. fst k < next_winlink st)"

lemma winlinks_ok_keys: "winlinks_ok wwl = keys_ok (keys wwl)"
  by (simp add: winlinks_ok_def keys_ok_def rb_ordered_def link_key_def comp_def)

lemma keys_rb_remove: "keys (rb_remove wl_idx i wwl) = filter (\<lambda>k. kidx k \<noteq> i) (keys wwl)"
  by (simp add: rb_remove_def filter_map comp_def link_key_def)

lemma keys_rb_insert: "keys (rb_insert wl_idx wl wwl) = rb_insert kidx (link_key wl) (keys wwl)"
  by (induction wwl) (auto simp: link_key_def)

lemma find_index_keys: "winlink_find_by_index wwl i = None \<longleftrightarrow> i \<notin> kidx ` set (keys wwl)"
  using used_index_iff [of wwl i] by (auto simp: link_key_def image_image simp del: not_None_eq)

lemma linksE:
  assumes "links st i = Some (name, ks)"
  obtains s where "the_session st i = Some s" "s_name s = name" "keys (s_windows s) = ks"
  using assms by (auto simp: links_def)

text \<open>Linking the window \<open>w\<close> to the new winlink.\<close>

lemma link_new_links:
  fixes h :: host and w :: nat
  assumes "the_session st i = Some s" "keys_fine st (keys (s_windows s))" "wl_ptr new = next_winlink st" "wl_window new = None"
    "winlink_find_by_index (s_windows s) (wl_idx new) = None"
  defines "st1 \<equiv> (upd_session i (s_windows_update (\<lambda>_.
      wl_update (wl_ptr new) (\<lambda>l. l\<lparr>wl_session := Some i\<rparr>) (rb_insert wl_idx new (s_windows s)))) st)\<lparr>next_winlink := next_winlink st + 1\<rparr>"
  defines "st' \<equiv> winlink_set_window h i (wl_ptr new) w st1"
  shows "\<exists>s'. the_session st' i = Some s' \<and> s_curw s' = s_curw s \<and> s_name s' = s_name s \<and>
      keys (s_windows s') = keys (rb_insert wl_idx (new\<lparr>wl_window := Some w\<rparr>) (s_windows s))"
    "j \<noteq> i \<Longrightarrow> the_session st' j = the_session st j" "refs st' = (refs st)(w := map_option Suc (refs st w))"
    "session_groups st' = session_groups st" "next_winlink st' = next_winlink st + 1"
proof -
  let ?wwl = "rb_insert wl_idx new (s_windows s)"
  let ?linked = "wl_update (wl_ptr new) (\<lambda>l. l\<lparr>wl_session := Some i\<rparr>) ?wwl"
  have fresh: "wl_ptr new \<notin> wl_ptr ` set (s_windows s)" using assms(2,3) by (fastforce simp: keys_fine_def link_key_def)
  have at: "the_session st1 i = Some (s\<lparr>s_windows := ?linked\<rparr>)"
    using assms(1) by (simp add: st1_def)
  have other: "the_session st1 j = the_session st j" if "j \<noteq> i" for j
    using that by (simp add: st1_def)
  have none: "wl_window l = None" if "wl_deref (wl_ptr new) ?linked = Some l" for l
  proof -
    have l: "l \<in> set ?linked" "wl_ptr l = wl_ptr new" using that by (auto simp: wl_deref_def dest: find_SomeD)
    then obtain l0 where l0: "l0 \<in> set ?wwl" "wl_ptr l0 = wl_ptr new" "wl_window l = wl_window l0"
      by (auto simp: wl_update_def split: if_splits)
    have "set ?wwl = insert new (set (s_windows s))"
      using wls.insert_set [of "s_windows s" new] winlinks_ok_ordered assms(2,5) by (simp add: keys_fine_def flip: winlinks_ok_keys)
    then have "l0 = new" using l0(1,2) fresh by (auto simp: image_iff)
    then show ?thesis using l0(3) assms(4) by simp
  qed
  have st': "st' = window_add_ref w (upd_session i (s_windows_update (wl_update (wl_ptr new) (\<lambda>wl. wl\<lparr>wl_window := Some w\<rparr>))) st1)"
    using none at unfolding st'_def winlink_set_window_def Let_def by (auto split: option.split)
  have "keys (wl_update (wl_ptr new) (\<lambda>wl. wl\<lparr>wl_window := Some w\<rparr>)
        (wl_update (wl_ptr new) (\<lambda>l. l\<lparr>wl_session := Some i\<rparr>) (rb_insert wl_idx new wwl))) =
      keys (rb_insert wl_idx (new\<lparr>wl_window := Some w\<rparr>) wwl)"
    if "wl_ptr new \<notin> wl_ptr ` set wwl" "wl_idx new \<notin> wl_idx ` set wwl" for wwl
    using that by (induction wwl) (auto simp: wl_update_def link_key_def image_iff)
  from this [OF fresh] have "keys (wl_update (wl_ptr new) (\<lambda>wl. wl\<lparr>wl_window := Some w\<rparr>) ?linked) =
      keys (rb_insert wl_idx (new\<lparr>wl_window := Some w\<rparr>) (s_windows s))"
    using assms(5) used_index_iff by blast
  then show "\<exists>s'. the_session st' i = Some s' \<and> s_curw s' = s_curw s \<and> s_name s' = s_name s \<and>
      keys (s_windows s') = keys (rb_insert wl_idx (new\<lparr>wl_window := Some w\<rparr>) (s_windows s))"
    using at by (simp add: st' window_add_ref_def)
  show "j \<noteq> i \<Longrightarrow> the_session st' j = the_session st j" using other by (simp add: st' window_add_ref_def)
  show "refs st' = (refs st)(w := map_option Suc (refs st w))"
    by (simp add: st' window_add_ref_def refs_change) (simp add: st1_def refs_def fun_eq_iff)
  show "session_groups st' = session_groups st" "next_winlink st' = next_winlink st + 1"
    by (simp_all add: st' window_add_ref_def st1_def)
qed

text \<open>Attaching the window \<open>w\<close> at a free index, or at any.\<close>

definition attached :: "nat \<Rightarrow> nat \<Rightarrow> int \<Rightarrow> server \<Rightarrow> server \<Rightarrow> bool" where
  "attached i w idx st st' \<longleftrightarrow> (\<exists>name ks. links st i = Some (name, ks) \<and>
     links st' = (links st)(i \<mapsto> (name, rb_insert kidx (next_winlink st, idx, Some w) ks)) \<and>
     idx \<notin> kidx ` set ks \<and> 0 \<le> idx \<and> idx \<le> int_max) \<and>
     refs st' = (refs st)(w := map_option Suc (refs st w)) \<and> session_groups st' = session_groups st \<and>
     next_winlink st' = next_winlink st + 1"

lemma attached_same: "attached i w idx st st' \<Longrightarrow> same_links st' st'' \<Longrightarrow> attached i w idx st st''"
  by (simp add: attached_def same_links_def)

lemma attach_silent_links:
  assumes "links st i = Some (name, ks)" "keys_fine st ks" "session_groups st = []" "idx = - 1 \<or> 0 \<le> idx \<and> idx \<le> int_max \<and> idx \<notin> kidx ` set ks"
  shows "\<exists>idx' st'. newmux_session_attach_silent h i w idx st = Some (Some (next_winlink st), st') \<and> attached i w idx' st st' \<and>
    (0 \<le> idx \<longrightarrow> idx' = idx)"
proof -
  obtain s where s: "the_session st i = Some s" "s_name s = name" "keys (s_windows s) = ks" using assms(1) by (rule linksE)
  have ok: "winlinks_ok (s_windows s)" "int (length (s_windows s)) \<le> int_max"
    using assms(2) s(3) by (auto simp: keys_fine_def winlinks_ok_keys)
  have range: "- int_max - 1 \<le> idx" "idx \<le> int_max" using assms(4) by auto
  have "winlink_add (next_winlink st) (s_windows s) idx \<noteq> None"
    using assms(4) winlink_next_index_first [OF ok, of 0] find_index_keys [of "s_windows s" idx] s(3)
    by (auto simp: winlink_add_def Let_def)
  then obtain new wwl where add: "winlink_add (next_winlink st) (s_windows s) idx = Some (new, wwl)" by auto
  note new = winlink_add_Some [OF ok(1) add range]
  let ?st2 = "winlink_set_window h i (wl_ptr new) w ((upd_session i (s_windows_update (\<lambda>_.
      wl_update (wl_ptr new) (\<lambda>l. l\<lparr>wl_session := Some i\<rparr>) wwl)) st)\<lparr>next_winlink := next_winlink st + 1\<rparr>)"
  let ?st3 = "if s_curw s = None then snd (session_set_current i (Some (wl_ptr new)) ?st2) else ?st2"
  have "keys_fine st (keys (s_windows s))" "wl_ptr new = next_winlink st" "wl_window new = None"
    "winlink_find_by_index (s_windows s) (wl_idx new) = None" using assms(2) s(3) new by simp_all
  note l = link_new_links [OF s(1) this, where h = h and w = w, folded new [THEN conjunct2, THEN conjunct2, THEN conjunct2, THEN conjunct1]]
  have "links ?st2 = (links st)(i \<mapsto> (name, rb_insert kidx (next_winlink st, wl_idx new, Some w) ks))"
    using l(1,2) s by (auto simp: fun_eq_iff links_def keys_rb_insert link_key_def new)
  moreover have "wl_idx new \<notin> kidx ` set ks" using new find_index_keys s(3) by blast
  ultimately have "attached i w (wl_idx new) st ?st2"
    using assms(1) l(3-5) new by (simp add: attached_def)
  then have at: "attached i w (wl_idx new) st ?st3"
    using attached_same [OF _ same_links_set_current] by auto
  then have "session_groups ?st3 = []" using assms(3) by (simp only: attached_def)
  then have sync: "session_group_synchronize_from h i ?st3 = Some ?st3" by (rule no_groups)
  have "newmux_session_attach_silent h i w idx st = map_option (Pair (Some (wl_ptr new))) (session_group_synchronize_from h i ?st3)"
    using s(1) add by (simp add: newmux_session_attach_silent_def Let_def)
  also have "\<dots> = Some (Some (next_winlink st), ?st3)" unfolding sync using new by simp
  finally have "newmux_session_attach_silent h i w idx st = Some (Some (next_winlink st), ?st3)" .
  with at new show ?thesis by blast
qed

text \<open>A winlink to the window \<open>w\<close> goes away and leaves \<open>ks\<close>.\<close>

definition dropped :: "nat \<Rightarrow> (nat \<times> int \<times> nat option) list \<Rightarrow> nat \<Rightarrow> server \<Rightarrow> server \<Rightarrow> bool" where
  "dropped i ks w st st' \<longleftrightarrow> (\<exists>name ks0 n. links st i = Some (name, ks0) \<and>
     links st' = (links st)(i \<mapsto> (name, ks)) \<and> refs st w = Some (Suc (Suc n)) \<and> refs st' = (refs st)(w \<mapsto> Suc n)) \<and>
     session_groups st' = session_groups st \<and> next_winlink st' = next_winlink st"

lemma dropped_same: "dropped i ks w st st' \<Longrightarrow> same_links st0 st \<Longrightarrow> same_links st' st'' \<Longrightarrow> dropped i ks w st0 st''"
  by (simp add: dropped_def same_links_def)

lemma keys_ok_split:
  assumes "keys_ok (pre @ (p, idx, wo) # post)"
  shows "find (\<lambda>k. fst k = p) (pre @ (p, idx, wo) # post) = Some (p, idx, wo)"
    "filter (\<lambda>k. kidx k \<noteq> idx) (pre @ (p, idx, wo) # post) = pre @ post" "keys_ok (pre @ post)"
    "\<forall>k \<in> set pre. kidx k < idx" "\<forall>k \<in> set post. idx < kidx k" "idx \<le> int_max" "0 \<le> idx"
proof -
  have o: "\<forall>k \<in> set pre. kidx k < idx" "\<forall>k \<in> set post. idx < kidx k" "idx \<le> int_max" "0 \<le> idx"
    and d: "p \<notin> fst ` set pre"
    using assms by (auto simp: keys_ok_def rb_ordered_append rb_ordered_Cons)
  then show "\<forall>k \<in> set pre. kidx k < idx" "\<forall>k \<in> set post. idx < kidx k" "idx \<le> int_max" "0 \<le> idx" by auto
  show "find (\<lambda>k. fst k = p) (pre @ (p, idx, wo) # post) = Some (p, idx, wo)" using d by (induction pre) auto
  have "filter (\<lambda>k. kidx k \<noteq> idx) pre = pre" "filter (\<lambda>k. kidx k \<noteq> idx) post = post"
    using o by (force simp: filter_id_conv)+
  then show "filter (\<lambda>k. kidx k \<noteq> idx) (pre @ (p, idx, wo) # post) = pre @ post" by simp
  show "keys_ok (pre @ post)" using assms by (auto simp: keys_ok_def rb_ordered_append rb_ordered_Cons)
qed

lemma find_keys: "find (\<lambda>k. fst k = p) (keys wwl) = map_option link_key (wl_deref p wwl)"
  unfolding wl_deref_def by (induction wwl) (auto simp: link_key_def)

lemma drop_links:
  assumes "links st i = Some (name, pre @ (p, idx, Some w) # post)" "keys_ok (pre @ (p, idx, Some w) # post)"
    "refs st w = Some (Suc (Suc n))"
  shows "dropped i (pre @ post) w st (drop_winlink h i p st)"
proof -
  obtain s where s: "the_session st i = Some s" "s_name s = name" "keys (s_windows s) = pre @ (p, idx, Some w) # post"
    using assms(1) by (rule linksE)
  obtain wwl lastw where st: "winlink_stack_remove (Some p)
      (wl_update p (wl_flags_update (clear_flag WINLINK_ALERTFLAGS)) (s_windows s), s_lastw s) = (wwl, lastw)" by fastforce
  have k: "keys wwl = pre @ (p, idx, Some w) # post" using keys_stack(1) s(3) st by (metis fst_conv keys_flags)
  then obtain wl where wl: "wl_deref p wwl = Some wl" "link_key wl = (p, idx, Some w)"
    using find_keys [of p wwl] keys_ok_split(1) [OF assms(2)] by (cases "wl_deref p wwl") simp_all
  let ?st1 = "upd_session i (\<lambda>s. s\<lparr>s_windows := wwl, s_lastw := lastw\<rparr>) st"
  have "drop_winlink h i p st = winlink_remove h i wl ?st1"
    using s(1) wl(1) by (simp add: drop_winlink_def st Let_def)
  also have "\<dots> = upd_session i (s_windows_update (rb_remove wl_idx idx)) (upd_window w (w_references_update (\<lambda>n. n - 1)) ?st1)"
    using wl(2) window_remove_ref_eq [of ?st1 w n h] assms(3) by (simp add: winlink_remove_def link_key_def)
  finally have d: "drop_winlink h i p st = \<dots>" .
  have "links (drop_winlink h i p st) = (links st)(i \<mapsto> (name, pre @ post))"
    using s k keys_ok_split(2) [OF assms(2)] by (auto simp: d fun_eq_iff links_def keys_rb_remove)
  moreover have "refs (drop_winlink h i p st) = (refs st)(w \<mapsto> Suc n)"
    using assms(3) by (simp add: d refs_change)
  ultimately show ?thesis using assms(1,3) unfolding dropped_def by (auto simp: d)
qed

text \<open>Detaching a winlink from a session that has others.\<close>

lemma detach_silent_links:
  assumes "links st i = Some (name, pre @ (p, idx, Some w) # post)" "keys_ok (pre @ (p, idx, Some w) # post)"
    "refs st w = Some (Suc (Suc n))" "session_groups st = []" "pre @ post \<noteq> []"
  shows "\<exists>st'. newmux_session_detach_silent h i p st = Some (False, st') \<and> dropped i (pre @ post) w st st'"
proof -
  obtain s where s: "the_session st i = Some s" "s_name s = name" "keys (s_windows s) = pre @ (p, idx, Some w) # post"
    using assms(1) by (rule linksE)
  obtain wl where wl: "wl_deref p (s_windows s) = Some wl"
    using find_keys [of p "s_windows s"] keys_ok_split(1) [OF assms(2)] s(3) by (cases "wl_deref p (s_windows s)") simp_all
  let ?next = "case winlink_next (s_windows s) wl of None \<Rightarrow> winlink_previous (s_windows s) wl | l \<Rightarrow> l"
  let ?st1 = "if s_curw s = Some p then (case ?next of Some l \<Rightarrow> snd (session_set_current i (Some (wl_ptr l)) st)
      | None \<Rightarrow> upd_session i (s_curw_update (\<lambda>_. None)) st) else st"
  have same: "same_links st ?st1"
    using s(1) same_links_set_current by (auto simp: same_links_def links_session split: option.split)
  then have "dropped i (pre @ post) w ?st1 (drop_winlink h i p ?st1)"
    using assms(1-3) by (intro drop_links) (auto simp: same_links_def)
  then have d: "dropped i (pre @ post) w st (drop_winlink h i p ?st1)" using same dropped_same same_links_refl by blast
  then have g: "session_group_synchronize_from h i (drop_winlink h i p ?st1) = Some (drop_winlink h i p ?st1)"
    using assms(4) by (auto simp: dropped_def intro: no_groups)
  obtain s2 where s2: "the_session (drop_winlink h i p ?st1) i = Some s2" "keys (s_windows s2) = pre @ post"
    using d unfolding dropped_def links_def by (auto simp: fun_eq_iff split: if_splits)
  have "newmux_session_detach_silent h i p st = do { st2 \<leftarrow> session_group_synchronize_from h i (drop_winlink h i p ?st1);
      s2 \<leftarrow> the_session st2 i; Some (s_windows s2 = [], st2) }"
    using s(1) wl by (simp add: newmux_session_detach_silent_def Let_def)
  also have "\<dots> = Some (s_windows s2 = [], drop_winlink h i p ?st1)" unfolding g using s2(1) by simp
  finally have "newmux_session_detach_silent h i p st = Some (s_windows s2 = [], drop_winlink h i p ?st1)" .
  moreover have "s_windows s2 \<noteq> []" using s2(2) assms(5) by auto
  ultimately show ?thesis using d by auto
qed

text \<open>Detaching the window from the session that kept it, which goes away when it has become empty.\<close>

lemma links_free_empty: "the_session st i = Some s \<Longrightarrow> s_windows s = [] \<Longrightarrow> session_groups st = [] \<Longrightarrow>
    (\<And>j s'. j \<noteq> i \<Longrightarrow> the_session st j = Some s' \<Longrightarrow> s_name s' \<noteq> s_name s) \<Longrightarrow>
    (\<forall>j. j \<noteq> i \<longrightarrow> links (session_destroy h i st) j = links st j) \<and> refs (session_destroy h i st) = refs st \<and>
    session_groups (session_destroy h i st) = [] \<and> next_winlink (session_destroy h i st) = next_winlink st"
proof -
  assume s: "the_session st i = Some s" "s_windows s = []" "session_groups st = []"
    and other: "\<And>j s'. j \<noteq> i \<Longrightarrow> the_session st j = Some s' \<Longrightarrow> s_name s' \<noteq> s_name s"
  have find: "find P (filter Q xs) = find P xs" if "case find P xs of None \<Rightarrow> True | Some x \<Rightarrow> Q x" for P Q and xs :: "session list"
    using that by (induction xs) (auto simp: find_None_iff split: if_splits option.splits)
  have "session_destroy h i st = st \<or> session_destroy h i st = st\<lparr>sessions := rb_remove s_name (s_name s) (sessions st)\<rparr>"
    using s by (simp add: session_destroy_def free_winlinks_def session_group_remove_def session_group_contains_def)
  moreover have "the_session (st\<lparr>sessions := rb_remove s_name (s_name s) (sessions st)\<rparr>) j = the_session st j" if "j \<noteq> i" for j
    using other [OF that] unfolding the_session_def rb_remove_def by (auto intro!: find split: option.split)
  ultimately show ?thesis using s(3) by (auto simp: links_def refs_def fun_eq_iff)
qed

lemma unlink_links:
  assumes "links st i = Some (name, pre @ (p, idx, Some w) # post)" "keys_ok (pre @ (p, idx, Some w) # post)"
    "refs st w = Some (Suc (Suc n))" "session_groups st = []" "\<And>st. same_links st (recalculate_sizes h st)"
    "\<forall>j name' ks. j \<noteq> i \<longrightarrow> links st j = Some (name', ks) \<longrightarrow> name' \<noteq> name"
  shows "\<exists>st'. server_unlink_window h i p st = Some st' \<and> (\<forall>j. j \<noteq> i \<longrightarrow> links st' j = links st j) \<and>
    refs st' = (refs st)(w \<mapsto> Suc n) \<and> session_groups st' = [] \<and> next_winlink st' = next_winlink st"
proof -
  obtain s where s: "the_session st i = Some s" "s_name s = name" "keys (s_windows s) = pre @ (p, idx, Some w) # post"
    using assms(1) by (rule linksE)
  let ?st1 = "if s_curw s = Some p then session_move_off i st else st"
  have same: "same_links st ?st1" using same_links_move_off by simp
  then have "dropped i (pre @ post) w ?st1 (drop_winlink h i p ?st1)"
    using assms(1-3) by (intro drop_links) (auto simp: same_links_def)
  then have d: "dropped i (pre @ post) w st (drop_winlink h i p ?st1)" using same dropped_same same_links_refl by blast
  then have g: "session_group_synchronize_from h i (drop_winlink h i p ?st1) = Some (drop_winlink h i p ?st1)"
    using assms(4) by (auto simp: dropped_def intro: no_groups)
  define st2 where "st2 = drop_winlink h i p ?st1"
  have st2: "links st2 = (links st)(i \<mapsto> (name, pre @ post))" "refs st2 = (refs st)(w \<mapsto> Suc n)" "session_groups st2 = []"
      "next_winlink st2 = next_winlink st"
    using d assms(1,3,4) by (auto simp: dropped_def st2_def)
  then obtain s2 where s2: "the_session st2 i = Some s2" "keys (s_windows s2) = pre @ post" "s_name s2 = name"
    by (metis fun_upd_same linksE)
  have "session_detach h i p st = do { st2 \<leftarrow> session_group_synchronize_from h i (drop_winlink h i p ?st1);
      s2 \<leftarrow> the_session st2 i; Some (s_windows s2 = [], st2) }"
    using s(1) by (simp add: session_detach_def Let_def)
  also have "\<dots> = Some (s_windows s2 = [], st2)" unfolding g using s2(1) by (simp add: st2_def)
  finally have detach: "session_detach h i p st = Some (s_windows s2 = [], st2)" .
  show ?thesis
  proof (cases "s_windows s2 = []")
    case False
    then show ?thesis using detach st2 by (simp add: server_unlink_window_def)
  next
    case True
    let ?st3 = "recalculate_sizes h st2"
    have r: "links ?st3 = links st2" "refs ?st3 = refs st2" "session_groups ?st3 = []" "next_winlink ?st3 = next_winlink st2"
      using assms(5) [of st2] st2(3) by (simp_all add: same_links_def)
    have "server_unlink_window h i p st = Some (session_destroy h i ?st3)"
      using detach True st2(3) by (simp add: server_unlink_window_def server_destroy_session_group_def session_group_contains_def
          server_destroy_session_def)
    moreover have "pre @ post = []" using s2(2) True by simp
    moreover obtain s3 where s3: "the_session ?st3 i = Some s3" "s_name s3 = name" "keys (s_windows s3) = pre @ post"
      using r(1) st2(1) by (metis fun_upd_same linksE)
    moreover have "s_name s' \<noteq> s_name s3" if "j \<noteq> i" "the_session ?st3 j = Some s'" for j s'
    proof -
      have "links ?st3 j = Some (s_name s', keys (s_windows s'))" using that(2) by (simp add: links_def)
      then show ?thesis using assms(6) that(1) r(1) st2(1) s3(2) by auto
    qed
    ultimately show ?thesis using links_free_empty [OF s3(1) _ r(3)] r st2 by simp
  qed
qed

section \<open>Putting a window away\<close>

text \<open>Fitting the windows to the clients only changes sizes.\<close>

definition sizes_only :: "host \<Rightarrow> bool" where
  "sizes_only h \<longleftrightarrow> (\<forall>st. same_links st (recalculate_sizes h st))"

definition server_fine :: "server \<Rightarrow> bool" where
  "server_fine st \<longleftrightarrow> session_groups st = [] \<and> distinct (map s_id (sessions st)) \<and> distinct (map s_name (sessions st)) \<and>
     (\<forall>s \<in> set (sessions st). s_id s < next_session_id st \<and> keys_fine st (keys (s_windows s)) \<and>
        (\<forall>wl \<in> set (s_windows s). \<exists>w n. wl_window wl = Some w \<and> refs st w = Some (Suc n)))"

lemma the_session_mem: "the_session st i = Some s \<Longrightarrow> s \<in> set (sessions st) \<and> s_id s = i"
  by (auto simp: the_session_def dest: find_SomeD)

lemma the_session_iff: "distinct (map s_id (sessions st)) \<Longrightarrow> s \<in> set (sessions st) \<Longrightarrow> the_session st (s_id s) = Some s"
proof -
  have "distinct (map s_id xs) \<Longrightarrow> s \<in> set xs \<Longrightarrow> find (\<lambda>t. s_id t = s_id s) xs = Some s" for xs
    by (induction xs) auto
  then show "distinct (map s_id (sessions st)) \<Longrightarrow> s \<in> set (sessions st) \<Longrightarrow> ?thesis" by (simp add: the_session_def)
qed

lemma recovery_session_links:
  assumes "server_fine st" "links st i = Some (name, ks)" "name \<noteq> NEWMUX_RECOVERY_SESSION"
  shows "\<exists>r st1 rks. newmux_recovery_session_get h cwd st = Some (r, st1) \<and> r \<noteq> i \<and>
    links st1 = (links st)(r \<mapsto> (NEWMUX_RECOVERY_SESSION, rks)) \<and> keys_fine st rks \<and> refs st1 = refs st \<and> windows st1 = windows st \<and>
    panes st1 = panes st \<and> session_groups st1 = [] \<and> next_winlink st1 = next_winlink st \<and>
    (\<forall>j name' ks'. j \<noteq> r \<longrightarrow> links st j = Some (name', ks') \<longrightarrow> name' \<noteq> NEWMUX_RECOVERY_SESSION)"
proof (cases "session_find st NEWMUX_RECOVERY_SESSION")
  case (Some rs)
  have rs: "rs \<in> set (sessions st)" "s_name rs = NEWMUX_RECOVERY_SESSION" using Some rb_find_SomeD unfolding session_find_def by fast+
  have r: "the_session st (s_id rs) = Some rs" using the_session_iff rs(1) assms(1) by (simp add: server_fine_def)
  then have l: "links st (s_id rs) = Some (NEWMUX_RECOVERY_SESSION, keys (s_windows rs))" using rs(2) by (simp add: links_def)
  then have "(links st)(s_id rs \<mapsto> (NEWMUX_RECOVERY_SESSION, keys (s_windows rs))) = links st" by auto
  moreover have "name' \<noteq> NEWMUX_RECOVERY_SESSION" if j: "j \<noteq> s_id rs" and lj: "links st j = Some (name', ks')" for j name' ks'
  proof
    assume n: "name' = NEWMUX_RECOVERY_SESSION"
    obtain s where s: "the_session st j = Some s" "s_name s = name'" using lj by (rule linksE) auto
    then have "s \<in> set (sessions st)" "s_id s = j" using the_session_mem by blast+
    moreover have "inj_on s_name (set (sessions st))" using assms(1) by (simp add: server_fine_def distinct_map)
    ultimately have "s = rs" using rs s(2) n by (simp add: inj_on_def)
    then show False using \<open>s_id s = j\<close> j by simp
  qed
  ultimately show ?thesis
    using Some l assms rs(1) by (intro exI [of _ "s_id rs"] exI [of _ st] exI [of _ "keys (s_windows rs)"])
      (auto simp: newmux_recovery_session_get_def server_fine_def)
next
  case None
  let ?r = "next_session_id st"
  let ?s = "(new_session_options h)\<lparr>s_id := ?r, s_name := NEWMUX_RECOVERY_SESSION, s_cwd := cwd, s_curw := None, s_lastw := [], s_windows := []\<rparr>"
  let ?st1 = "st\<lparr>sessions := rb_insert s_name ?s (sessions st), next_session_id := ?r + 1\<rparr>"
  have get: "newmux_recovery_session_get h cwd st = Some (?r, ?st1)"
    using None by (simp add: newmux_recovery_session_get_def session_create_def)
  have fresh: "s_id s \<noteq> ?r" "s_name s \<noteq> NEWMUX_RECOVERY_SESSION" if "s \<in> set (sessions st)" for s
    using that assms(1) None by (auto simp: server_fine_def session_find_def table_simps)
  have old: "find P (rb_insert s_name ?s xs) = find P xs" if "\<not> P ?s" for P and xs :: "session list"
    using that by (induction xs) auto
  have new: "find (\<lambda>s. s_id s = ?r) (rb_insert s_name ?s xs) = Some ?s" if "\<forall>s \<in> set xs. s_id s \<noteq> ?r \<and> s_name s \<noteq> NEWMUX_RECOVERY_SESSION" for xs
    using that by (induction xs) auto
  have "links ?st1 j = ((links st)(?r \<mapsto> (NEWMUX_RECOVERY_SESSION, []))) j" for j
    using new [of "sessions st"] old [of "\<lambda>s. s_id s = j" "sessions st"] fresh by (auto simp: links_def the_session_def)
  moreover have "?r \<noteq> i" using assms(1,2) the_session_mem by (force simp: links_def server_fine_def)
  moreover have "name' \<noteq> NEWMUX_RECOVERY_SESSION" if "links st j = Some (name', ks')" for j name' ks'
    using that fresh(2) the_session_mem by (fastforce elim: linksE)
  ultimately show ?thesis
    using get assms(1) by (intro exI [of _ ?r] exI [of _ ?st1] exI [of _ "[]"])
      (auto simp: fun_eq_iff refs_def keys_fine_def keys_ok_def rb_ordered_def server_fine_def)
qed

lemma preserve_links: "same_links st (fold preserve_pane ps st)"
proof -
  have "same_links st (fold preserve_pane ps st')" if "same_links st st'" for st'
    using that by (induction ps arbitrary: st') (simp_all add: preserve_pane_def same_links_def)
  then show ?thesis by simp
qed

lemma rb_insert_place:
  assumes "keys_ok ks" "idx \<notin> kidx ` set ks" "0 \<le> idx" "idx \<le> int_max" "p \<notin> fst ` set ks"
  obtains pre post where "ks = pre @ post" "rb_insert kidx (p, idx, wo) ks = pre @ (p, idx, wo) # post"
    "keys_ok (pre @ (p, idx, wo) # post)"
proof -
  let ?pre = "filter (\<lambda>k. kidx k < idx) ks" and ?post = "filter (\<lambda>k. \<not> kidx k < idx) ks"
  have o: "rb_ordered kidx ks" using assms(1) by (simp add: keys_ok_def)
  then have split: "ks = ?pre @ ?post"
  proof (induction ks)
    case (Cons k ks)
    show ?case
    proof (cases "kidx k < idx")
      case True
      then show ?thesis using Cons by (auto simp: rb_ordered_Cons)
    next
      case False
      then have "filter (\<lambda>k. kidx k < idx) (k # ks) = []" using Cons.prems by (force simp: rb_ordered_Cons filter_empty_conv)
      moreover from this have "filter (\<lambda>k. \<not> kidx k < idx) (k # ks) = k # ks"
        unfolding filter_empty_conv filter_id_conv by blast
      ultimately show ?thesis by (simp only: append_Nil)
    qed
  qed simp
  obtain a b where ab: "ks = a @ b" "\<forall>k \<in> set a. kidx k < idx" "\<forall>k \<in> set b. idx < kidx k"
    using that split assms(2) by (atomize_elim, intro exI [of _ ?pre] exI [of _ ?post]) (auto simp: image_iff not_less order_le_less)
  have "rb_insert kidx (p, idx, wo) (a @ b) = a @ (p, idx, wo) # b" using ab(2,3) by (intro rb_insert_split) auto
  moreover have "keys_ok (a @ (p, idx, wo) # b)"
    using assms(1,3-5) ab unfolding ab(1) keys_ok_def rb_ordered_append rb_ordered_Cons by auto
  ultimately show ?thesis using that ab(1) by simp
qed

lemma link_refs: "server_fine st \<Longrightarrow> links st i = Some (name, ks) \<Longrightarrow> (p, idx, wo) \<in> set ks \<Longrightarrow>
    \<exists>w n. wo = Some w \<and> refs st w = Some (Suc n)"
proof -
  assume a: "server_fine st" "links st i = Some (name, ks)" "(p, idx, wo) \<in> set ks"
  obtain s where s: "the_session st i = Some s" "keys (s_windows s) = ks" using a(2) by (rule linksE) auto
  then obtain wl where "wl \<in> set (s_windows s)" "wl_window wl = wo" using a(3) by (force simp: link_key_def)
  then show ?thesis using a(1) the_session_mem [OF s(1)] by (auto simp: server_fine_def)
qed

lemma links_fine: "server_fine st \<Longrightarrow> links st i = Some (name, ks) \<Longrightarrow> keys_fine st ks"
  using the_session_mem by (fastforce simp: server_fine_def elim: linksE)

lemma break_window_links:
  assumes "server_fine st" "sizes_only h" "links st i = Some (name, pre @ (p, idx, Some w) # post)" "name \<noteq> NEWMUX_RECOVERY_SESSION"
    "pre @ post \<noteq> []" "link_key wl = (p, idx, Some w)" "the_session st i = Some s"
  shows "\<exists>r st' rpre q ridx rpost. newmux_break_live_window h item s wl st =
      Some (None, item\<lparr>ci_recovery_session_id := r, ci_recovery_window_id := w\<rparr>, st') \<and> r \<noteq> i \<and>
    links st' i = Some (name, pre @ post) \<and> links st' r = Some (NEWMUX_RECOVERY_SESSION, rpre @ (q, ridx, Some w) # rpost) \<and>
    keys_ok (rpre @ (q, ridx, Some w) # rpost) \<and> refs st' = refs st \<and> session_groups st' = [] \<and>
    next_winlink st' = next_winlink st + 1 \<and>
    (\<forall>j name' ks'. j \<noteq> r \<longrightarrow> links st' j = Some (name', ks') \<longrightarrow> name' \<noteq> NEWMUX_RECOVERY_SESSION)"
proof -
  obtain n where n: "refs st w = Some (Suc n)" using link_refs [OF assms(1,3), of p idx "Some w"] by auto
  have ok: "keys_ok (pre @ (p, idx, Some w) # post)" using links_fine [OF assms(1,3)] by (simp add: keys_fine_def)
  obtain r st1 rks where get: "newmux_recovery_session_get h (s_cwd s) st = Some (r, st1)" "r \<noteq> i"
    "links st1 = (links st)(r \<mapsto> (NEWMUX_RECOVERY_SESSION, rks))" "keys_fine st rks" "refs st1 = refs st"
    "session_groups st1 = []" "next_winlink st1 = next_winlink st"
    "\<And>j name' ks'. j \<noteq> r \<Longrightarrow> links st j = Some (name', ks') \<Longrightarrow> name' \<noteq> NEWMUX_RECOVERY_SESSION"
    using recovery_session_links [OF assms(1,3,4), of h "s_cwd s"] by blast
  let ?st2 = "server_unzoom_window h w st1"
  have same2: "same_links st1 ?st2" by (rule same_links_unzoom)
  then have "refs ?st2 w = Some (Suc n)" using get(5) n by (simp add: same_links_def)
  then obtain win where win: "windows ?st2 w = Some win" by (auto simp: refs_def)
  let ?st3 = "fold preserve_pane (w_panes win) ?st2"
  have same3: "same_links st1 ?st3" using same_links_trans [OF same2 preserve_links] .
  then have st3: "links ?st3 = links st1" "refs ?st3 = refs st1" "session_groups ?st3 = []" "next_winlink ?st3 = next_winlink st"
    using get(6,7) by (simp_all add: same_links_def)
  have "links ?st3 r = Some (NEWMUX_RECOVERY_SESSION, rks)" "keys_fine ?st3 rks" using st3 get(3,4) by (simp_all add: keys_fine_def)
  from attach_silent_links [OF this st3(3), of "-1" h w]
  obtain ridx st4 where st4: "newmux_session_attach_silent h r w (- 1) ?st3 = Some (Some (next_winlink ?st3), st4)"
    "attached r w ridx ?st3 st4" by auto
  let ?q = "next_winlink st"
  have l4: "links st4 = (links st)(r \<mapsto> (NEWMUX_RECOVERY_SESSION, rb_insert kidx (?q, ridx, Some w) rks))"
    and r4: "refs st4 = (refs st)(w \<mapsto> Suc (Suc n))" "session_groups st4 = []" "next_winlink st4 = ?q + 1"
    and fresh: "ridx \<notin> kidx ` set rks" "0 \<le> ridx" "ridx \<le> int_max"
    using st4(2) st3 get(3,5) n by (auto simp: attached_def)
  have rk0: "keys_ok rks" "?q \<notin> fst ` set rks" using get(4) by (auto simp: keys_fine_def)
  obtain rpre rpost where rk: "rb_insert kidx (?q, ridx, Some w) rks = rpre @ (?q, ridx, Some w) # rpost"
    "keys_ok (rpre @ (?q, ridx, Some w) # rpost)"
    using rb_insert_place [OF rk0(1) fresh rk0(2), of "Some w"] by blast
  have "links st4 i = Some (name, pre @ (p, idx, Some w) # post)" using l4 assms(3) get(2) by simp
  then obtain st5 where st5: "newmux_session_detach_silent h i p st4 = Some (False, st5)" "dropped i (pre @ post) w st4 st5"
    using r4(1) detach_silent_links [OF \<open>links st4 i = _\<close> ok _ r4(2) assms(5), of n h] by auto
  let ?st6 = "recalculate_sizes h st5"
  have same6: "same_links st5 ?st6" using assms(2) by (simp add: sizes_only_def)
  have "newmux_break_live_window h item s wl st = Some (None, item\<lparr>ci_recovery_session_id := r, ci_recovery_window_id := w\<rparr>, ?st6)"
    using get(1) win st4(1) st5(1) assms(6) the_session_mem [OF assms(7)] by (simp add: newmux_break_live_window_def link_key_def)
  moreover have "links ?st6 i = Some (name, pre @ post)" "refs ?st6 = refs st" "session_groups ?st6 = []" "next_winlink ?st6 = ?q + 1"
    "links ?st6 r = Some (NEWMUX_RECOVERY_SESSION, rpre @ (?q, ridx, Some w) # rpost)" 
    using same6 st5(2) r4 l4 n get(2) assms(3) rk(1) by (auto simp: same_links_def dropped_def fun_eq_iff)
  moreover have "name' \<noteq> NEWMUX_RECOVERY_SESSION" if "j \<noteq> r" "links ?st6 j = Some (name', ks')" for j name' ks'
    using that same6 st5(2) l4 get(8) assms(3,4) by (auto simp: same_links_def dropped_def split: if_splits)
  ultimately show ?thesis using get(2) rk(2) by blast
qed

section \<open>Bringing it back\<close>

lemma find_window_keys: "map_option link_key (winlink_find_by_window wwl w) = find (\<lambda>k. snd (snd k) = Some w) (keys wwl)"
  unfolding winlink_find_by_window_def by (induction wwl) (auto simp: link_key_def)

lemma find_distinct: "distinct (map f ks) \<Longrightarrow> k \<in> set ks \<Longrightarrow> f k = v \<Longrightarrow> find (\<lambda>k. f k = v) ks = Some k"
  by (induction ks) auto

text \<open>Shuffling up after a winlink whose next index is free does nothing.\<close>

lemma shuffle_after:
  assumes "wl_idx wl + 1 \<notin> wl_idx ` set wwl" "wl_idx wl + 1 < int_max"
  shows "winlink_shuffle_up wwl (Some wl) False = Some (wl_idx wl + 1, wwl)"
proof -
  have "winlink_find_by_index wwl (wl_idx wl + 1) = None" using assms(1) used_index_iff by blast
  then have "shuffle_free wwl (wl_idx wl + 1) = wl_idx wl + 1" by (subst shuffle_free.simps) simp
  then show ?thesis using assms(2) by (simp add: winlink_shuffle_up_def shuffle_move.simps)
qed

text \<open>Shuffling up before the first winlink frees its index and keeps the order.\<close>

lemma shuffle_first:
  assumes "winlinks_ok (wl # wwl)" "\<forall>l \<in> set (wl # wwl). wl_idx l + 1 < int_max"
  shows "\<exists>wwl'. winlink_shuffle_up (wl # wwl) (Some wl) True = Some (wl_idx wl, wwl') \<and> winlinks_ok wwl' \<and>
    map wl_ptr wwl' = map wl_ptr (wl # wwl) \<and> map wl_window wwl' = map wl_window (wl # wwl) \<and>
    (\<forall>l \<in> set wwl'. wl_idx wl < wl_idx l)"
proof -
  let ?hi = "shuffle_free (wl # wwl) (wl_idx wl)"
  have le: "wl_idx wl \<le> int_max" and pos: "wl_idx wl \<noteq> - 1" using assms(1) by (auto simp: winlinks_ok_def)
  have "?hi \<noteq> int_max"
  proof
    assume hi: "?hi = int_max"
    then have "wl_idx wl \<le> int_max - 1" "int_max - 1 < ?hi" using assms(2) by auto
    then have "int_max - 1 \<in> wl_idx ` set (wl # wwl)" by (rule shuffle_free_used)
    then show False using assms(2) by force
  qed
  note hi = shuffle_free_free [OF le this]
  then obtain wwl' where run: "winlink_shuffle_up (wl # wwl) (Some wl) True = Some (wl_idx wl, wwl')"
    using \<open>?hi \<noteq> int_max\<close> by (auto simp: winlink_shuffle_up_def Let_def)
  have eq: "wwl' = map (bump (wl_idx wl) ?hi) (wl # wwl)"
    using winlink_shuffle_up_eq [OF assms(1) _ run pos] by simp
  have "?hi \<noteq> wl_idx wl"
    using hi by (auto simp: winlink_find_by_index_def table_simps)
  then have "wl_idx wl < ?hi" using shuffle_free_ge [of "wl_idx wl" "wl # wwl"] by simp
  then have "\<forall>l \<in> set wwl'. wl_idx wl < wl_idx l"
    using winlinks_ok_ordered [OF assms(1)] by (auto simp: eq bump_def rb_ordered_Cons)
  then show ?thesis
    using run eq winlinks_ok_bump [OF assms(1), of ?hi "wl_idx wl"] hi by (auto simp: comp_def)
qed

text \<open>Attaching beside a neighbour puts the window back between the same windows.\<close>

lemma attach_beside_links:
  assumes "links st i = Some (name, ks)" "keys_fine st ks" "session_groups st = []" "the_session st i = Some s" "wl \<in> set (s_windows s)"
    "winlink_shuffle_up (s_windows s) (Some wl) before = Some (idx, wwl')" "idx \<noteq> - 1" "keys wwl' = ks'" "keys_fine st ks'"
    "idx \<notin> kidx ` set ks'" "0 \<le> idx" "idx \<le> int_max"
  shows "\<exists>st'. attach_beside h i w wl before st = Some (Some (next_winlink st), st') \<and>
    links st' = (links st)(i \<mapsto> (name, rb_insert kidx (next_winlink st, idx, Some w) ks')) \<and>
    refs st' = (refs st)(w := map_option Suc (refs st w)) \<and> session_groups st' = [] \<and> next_winlink st' = next_winlink st + 1"
proof -
  let ?st1 = "upd_session i (s_windows_update (\<lambda>_. wwl')) st"
  have shuffled: "shuffle_session i wl before st = Some (idx, ?st1)"
    using assms(4,6) by (simp add: shuffle_session_def)
  have name: "s_name s = name" using assms(1,4) by (simp add: links_def)
  have l: "links ?st1 = (links st)(i \<mapsto> (name, ks'))" using assms(4,8) name by (auto simp: fun_eq_iff links_def)
  have "links ?st1 i = Some (name, ks')" "keys_fine ?st1 ks'" "session_groups ?st1 = []"
    using l assms(3,9) by (simp_all add: keys_fine_def)
  from attach_silent_links [OF this, of idx h w] assms(10-12)
  obtain st' where "newmux_session_attach_silent h i w idx ?st1 = Some (Some (next_winlink ?st1), st')" "attached i w idx ?st1 st'"
    by auto
  then show ?thesis
    using shuffled assms(3,7) l by (auto simp: attach_beside_def attached_def)
qed

text \<open>The keys of the windows around a closed one, and what its item remembers of them.\<close>

definition closed_between :: "server \<Rightarrow> (nat \<times> int \<times> nat option) list \<Rightarrow> int \<Rightarrow> (nat \<times> int \<times> nat option) list \<Rightarrow>
    newmux_closed_item \<Rightarrow> bool" where
  "closed_between st pre idx post item \<longleftrightarrow> keys_fine st (pre @ post) \<and> (\<forall>k \<in> set pre. kidx k < idx) \<and> (\<forall>k \<in> set post. idx < kidx k) \<and>
     (\<forall>k \<in> set (pre @ post). kidx k + 1 < int_max) \<and> distinct (map (snd \<circ> snd) (pre @ post)) \<and>
     (\<forall>k \<in> set (pre @ post). \<exists>w. snd (snd k) = Some w \<and> refs st w \<noteq> None) \<and> pre @ post \<noteq> [] \<and>
     ci_left_window_id item = (if pre = [] then - 1 else int (the (snd (snd (last pre))))) \<and>
     ci_right_window_id item = (if post = [] then - 1 else int (the (snd (snd (hd post)))))"

lemma closed_betweenD: "closed_between st pre idx post item \<Longrightarrow> k \<in> set (pre @ post) \<Longrightarrow> \<exists>v. snd (snd k) = Some v \<and> refs st v \<noteq> None"
  unfolding closed_between_def by blast

lemma neighbour_links:
  assumes "the_session st i = Some s" "keys (s_windows s) = ks" "k \<in> set ks" "distinct (map (snd \<circ> snd) ks)"
    "snd (snd k) = Some v" "refs st v \<noteq> None"
  shows "\<exists>wl. neighbour_winlink st s (int v) = Some wl \<and> link_key wl = k \<and> wl \<in> set (s_windows s)"
proof -
  have "find (\<lambda>k. snd (snd k) = Some v) ks = Some k" using find_distinct [OF assms(4,3), of "Some v"] assms(5) by simp
  then have "map_option link_key (winlink_find_by_window (s_windows s) v) = Some k" using find_window_keys [of "s_windows s" v] assms(2) by simp
  then obtain wl where wl: "winlink_find_by_window (s_windows s) v = Some wl" "link_key wl = k" by auto
  moreover have "wl \<in> set (s_windows s)" using wl(1) by (auto simp: winlink_find_by_window_def dest: find_SomeD)
  ultimately show ?thesis using assms(6) by (auto simp: neighbour_winlink_def refs_def)
qed

lemma fine_same_ptrs:
  assumes "keys_fine st ks" "map fst ks' = map fst ks" "keys_ok ks'"
  shows "keys_fine st ks'"
proof -
  have "length ks' = length ks" using assms(2) by (metis length_map)
  moreover have "\<forall>p \<in> set (map fst ks). p < next_winlink st" using assms(1) by (simp add: keys_fine_def)
  then have "\<forall>k \<in> set ks'. fst k < next_winlink st" unfolding assms(2) [symmetric] by simp
  ultimately show ?thesis using assms(1,3) by (simp add: keys_fine_def)
qed

text \<open>The window \<open>w\<close> is attached to the session \<open>i\<close> between the windows of \<open>pre\<close> and of \<open>post\<close>.\<close>

definition put_between :: "nat \<Rightarrow> nat \<Rightarrow> (nat \<times> int \<times> nat option) list \<Rightarrow> (nat \<times> int \<times> nat option) list \<Rightarrow> server \<Rightarrow> server \<Rightarrow> bool" where
  "put_between i w pre post st st' \<longleftrightarrow> (\<exists>name ks0 ks. links st i = Some (name, ks0) \<and> links st' = (links st)(i \<mapsto> (name, ks)) \<and>
     map (snd \<circ> snd) ks = map (snd \<circ> snd) pre @ Some w # map (snd \<circ> snd) post \<and> next_winlink st \<in> fst ` set ks) \<and>
     refs st' = (refs st)(w := map_option Suc (refs st w)) \<and> session_groups st' = [] \<and> next_winlink st' = next_winlink st + 1"

lemma put_betweenI:
  "links st i = Some (name, ks0) \<Longrightarrow> links st' = (links st)(i \<mapsto> (name, ks)) \<Longrightarrow>
     map (snd \<circ> snd) ks = map (snd \<circ> snd) pre @ Some w # map (snd \<circ> snd) post \<Longrightarrow> next_winlink st \<in> fst ` set ks \<Longrightarrow>
     refs st' = (refs st)(w := map_option Suc (refs st w)) \<Longrightarrow> session_groups st' = [] \<Longrightarrow> next_winlink st' = next_winlink st + 1 \<Longrightarrow>
     put_between i w pre post st st'"
  unfolding put_between_def by blast

lemma restore_after:
  assumes "links st i = Some (name, pre @ post)" "session_groups st = []" "closed_between st pre idx post item"
    "the_session st i = Some s" "pre \<noteq> []"
  shows "\<exists>wl st1. neighbour_winlink st s (ci_left_window_id item) = Some wl \<and>
    attach_beside h i w wl False st = Some (Some (next_winlink st), st1) \<and> put_between i w pre post st st1"
proof -
  note c = assms(3) [unfolded closed_between_def]
  have s: "keys (s_windows s) = pre @ post" using assms(1,4) by (simp add: links_def)
  define k where "k = last pre"
  have k: "k \<in> set pre" using assms(5) by (simp add: k_def)
  then obtain v where v: "snd (snd k) = Some v" "refs st v \<noteq> None" using closed_betweenD [OF assms(3), of k] by auto
  obtain wl where wl: "neighbour_winlink st s (int v) = Some wl" "link_key wl = k" "wl \<in> set (s_windows s)"
    using neighbour_links [OF assms(4) s _ _ v] k c by auto
  have pre: "pre = butlast pre @ [k]" using assms(5) by (simp add: k_def)
  have "rb_ordered kidx (butlast pre @ [k])" using c by (simp add: pre [symmetric] keys_fine_def keys_ok_def rb_ordered_append)
  then have le: "\<forall>k' \<in> set pre. kidx k' \<le> kidx k" by (subst pre) (auto simp: rb_ordered_append intro: order_less_imp_le)
  have idx: "wl_idx wl = kidx k" "kidx k < idx" using wl(2) c k by (auto simp: link_key_def)
  have free: "kidx k + 1 \<notin> kidx ` set (pre @ post)" using le c idx(2) by force
  then have "wl_idx wl + 1 \<notin> wl_idx ` set (s_windows s)"
    using find_index_keys [of "s_windows s" "kidx k + 1"] used_index_iff [of "s_windows s" "kidx k + 1"] s idx(1) by simp
  moreover have small: "kidx k + 1 < int_max" "0 \<le> kidx k" using c k by (auto simp: keys_fine_def keys_ok_def)
  ultimately have "winlink_shuffle_up (s_windows s) (Some wl) False = Some (kidx k + 1, s_windows s)"
    using shuffle_after [of wl "s_windows s"] idx(1) by simp
  from attach_beside_links [OF assms(1) _ assms(2,4) wl(3) this _ s _ free, of h w] small c
  obtain st1 where st1: "attach_beside h i w wl False st = Some (Some (next_winlink st), st1)"
    "links st1 = (links st)(i \<mapsto> (name, rb_insert kidx (next_winlink st, kidx k + 1, Some w) (pre @ post)))"
    "refs st1 = (refs st)(w := map_option Suc (refs st w))" "session_groups st1 = []" "next_winlink st1 = next_winlink st + 1"
    by auto
  have "rb_insert kidx (next_winlink st, kidx k + 1, Some w) (pre @ post) = pre @ (next_winlink st, kidx k + 1, Some w) # post"
    using le idx(2) c by (intro rb_insert_split) force+
  then have "put_between i w pre post st st1" using st1 by (intro put_betweenI [OF assms(1) st1(2)]) auto
  moreover have "ci_left_window_id item = int v" using c assms(5) v(1) by (simp add: k_def)
  ultimately show ?thesis using wl(1) st1(1) by auto
qed

lemma restore_before:
  assumes "links st i = Some (name, post)" "session_groups st = []" "closed_between st [] idx post item" "the_session st i = Some s"
  shows "\<exists>wl st1. neighbour_winlink st s (ci_right_window_id item) = Some wl \<and>
    attach_beside h i w wl True st = Some (Some (next_winlink st), st1) \<and> put_between i w [] post st st1"
proof -
  note c = assms(3) [unfolded closed_between_def append_Nil]
  have s: "keys (s_windows s) = post" using assms(1,4) by (simp add: links_def)
  obtain k ks where post: "post = k # ks" using c by (cases post) auto
  obtain v where v: "snd (snd k) = Some v" "refs st v \<noteq> None" using closed_betweenD [OF assms(3), of k] post by auto
  obtain wl wwl where ss: "s_windows s = wl # wwl" "link_key wl = k" using s post by (cases "s_windows s") auto
  have "winlink_find_by_window (s_windows s) v = Some wl" using ss v(1) by (auto simp: winlink_find_by_window_def link_key_def)
  then have wl: "neighbour_winlink st s (int v) = Some wl" using v(2) by (auto simp: neighbour_winlink_def refs_def)
  have ok: "winlinks_ok (wl # wwl)" using c s ss(1) by (simp add: winlinks_ok_keys keys_fine_def)
  have "\<forall>k \<in> set (keys (wl # wwl)). kidx k + 1 < int_max" unfolding ss(1) [symmetric] s using c by blast
  then have "\<forall>l \<in> set (wl # wwl). wl_idx l + 1 < int_max" by (auto simp: link_key_def)
  from shuffle_first [OF ok this]
  obtain wwl' where sh: "winlink_shuffle_up (s_windows s) (Some wl) True = Some (wl_idx wl, wwl')" "winlinks_ok wwl'"
    "map wl_ptr wwl' = map wl_ptr (s_windows s)" "map wl_window wwl' = map wl_window (s_windows s)"
    "\<forall>l \<in> set wwl'. wl_idx wl < wl_idx l" unfolding ss(1) by blast
  have pos: "0 \<le> wl_idx wl" "wl_idx wl \<le> int_max" "wl_idx wl \<noteq> - 1" using ok by (auto simp: winlinks_ok_def)
  have same: "map fst (keys wwl') = map fst post" "map (snd \<circ> snd) (keys wwl') = map (snd \<circ> snd) post"
    unfolding s [symmetric] using sh(3,4) by (simp_all add: link_key_def comp_def)
  have fine0: "keys_fine st post" using c by simp
  then have fine: "keys_fine st (keys wwl')" using fine_same_ptrs same(1) sh(2) winlinks_ok_keys by blast
  have gt: "\<forall>k \<in> set (keys wwl'). wl_idx wl < kidx k" using sh(5) by (auto simp: link_key_def)
  then have free: "wl_idx wl \<notin> kidx ` set (keys wwl')" by auto
  have mem: "wl \<in> set (s_windows s)" using ss by simp
  from attach_beside_links [OF assms(1) fine0 assms(2,4) mem sh(1) pos(3) refl fine free pos(1,2), of h w]
  obtain st1 where st1: "attach_beside h i w wl True st = Some (Some (next_winlink st), st1)"
    "links st1 = (links st)(i \<mapsto> (name, rb_insert kidx (next_winlink st, wl_idx wl, Some w) (keys wwl')))"
    "refs st1 = (refs st)(w := map_option Suc (refs st w))" "session_groups st1 = []" "next_winlink st1 = next_winlink st + 1"
    by blast
  have "rb_insert kidx (next_winlink st, wl_idx wl, Some w) ([] @ keys wwl') = [] @ (next_winlink st, wl_idx wl, Some w) # keys wwl'"
    using gt by (intro rb_insert_split) auto
  then have "put_between i w [] post st st1" using st1 same(2) by (intro put_betweenI [OF assms(1) st1(2)]) auto
  moreover have "ci_right_window_id item = int v" using c v(1) post by simp
  ultimately show ?thesis using wl st1(1) by auto
qed

lemma restore_position:
  assumes "links st i = Some (name, pre @ post)" "session_groups st = []" "closed_between st pre idx post item"
  shows "\<exists>st1. newmux_session_attach_at_saved_position h i w item st = Some (Some (next_winlink st), st1) \<and> put_between i w pre post st st1"
proof -
  obtain s where s: "the_session st i = Some s" using assms(1) by (rule linksE)
  show ?thesis
  proof (cases "pre = []")
    case False
    then show ?thesis
      using restore_after [OF assms s, of h w] s by (auto simp: newmux_session_attach_at_saved_position_def)
  next
    case True
    then have "ci_left_window_id item = - 1" using assms(3) by (simp add: closed_between_def)
    then show ?thesis
      using restore_before [OF _ assms(2) _ s, of name post idx item h w] assms(1,3) s True
      by (auto simp: newmux_session_attach_at_saved_position_def neighbour_winlink_def [of _ _ "- 1"])
  qed
qed

lemma after_restore_links:
  "same_links st (newmux_protect_window_history_on_next_clear w
     (newmux_history_snapshots_restore_if_shrunk sns st))"
proof -
  have "same_links st (fold newmux_protect_pane_history_on_next_clear ps st')" if "same_links st st'" for st st' ps
    using that by (induction ps arbitrary: st') (simp_all add: newmux_protect_pane_history_on_next_clear_def same_links_def)
  then have 1: "same_links st (newmux_protect_window_history_on_next_clear w st)" for st
    by (simp add: newmux_protect_window_history_on_next_clear_def split: option.split)
  have "same_links st (newmux_history_snapshots_restore_if_shrunk sns st')" if "same_links st st'" for st'
    using that unfolding newmux_history_snapshots_restore_if_shrunk_def
    by (induction sns arbitrary: st') (simp_all add: same_links_def)
  then show ?thesis using 1 same_links_trans same_links_refl by blast
qed

lemma restore_window_links:
  assumes "sizes_only h" "links st i = Some (name, pre @ post)" "session_groups st = []" "closed_between st pre idx post item"
    "links st r = Some (NEWMUX_RECOVERY_SESSION, rks)" "keys_ok rks" "k \<in> set rks" "snd (snd k) = Some w" "r \<noteq> i" "refs st w = Some (Suc n)"
    "\<forall>j name' ks'. j \<noteq> r \<longrightarrow> links st j = Some (name', ks') \<longrightarrow> name' \<noteq> NEWMUX_RECOVERY_SESSION"
    "ci_session_id item = i" "ci_window_id item = w" "ci_recovery_session_id item = r"
  shows "\<exists>st' s'. newmux_restore_live_window h target item st = Some (None, st') \<and> the_session st' i = Some s' \<and>
    map wl_window (s_windows s') = map (snd \<circ> snd) pre @ Some w # map (snd \<circ> snd) post"
proof -
  have find: "session_find_by_id st j = the_session st j" for j by (simp add: session_find_by_id_def the_session_def)
  obtain s where s: "the_session st i = Some s" using assms(2) by (rule linksE)
  have dest: "newmux_restore_destination_session target item st = Some i"
    using s the_session_mem [OF s] by (simp add: newmux_restore_destination_session_def find assms(12))
  obtain rs where rs: "the_session st r = Some rs" "keys (s_windows rs) = rks" using assms(5) by (rule linksE)
  obtain win where win: "windows st w = Some win" using assms(10) by (auto simp: refs_def)
  have "find (\<lambda>k. snd (snd k) = Some w) rks \<noteq> None" unfolding find_None_iff using assms(7,8) by blast
  then obtain rwl where rwl: "winlink_find_by_window (s_windows rs) w = Some rwl" "link_key rwl \<in> set rks" "snd (snd (link_key rwl)) = Some w"
    using find_window_keys [of "s_windows rs" w] rs(2) find_SomeD by (cases "winlink_find_by_window (s_windows rs) w") force+
  obtain rpre rpost where split: "rks = rpre @ (wl_ptr rwl, wl_idx rwl, Some w) # rpost"
    using split_list [OF rwl(2)] rwl(3) by (auto simp: link_key_def)
  let ?new = "next_winlink st"
  obtain st1 where st1: "newmux_session_attach_at_saved_position h i w item st = Some (Some ?new, st1)" "put_between i w pre post st st1"
    using restore_position [OF assms(2-4)] by blast
  then obtain ks where ks: "links st1 = (links st)(i \<mapsto> (name, ks))" "map (snd \<circ> snd) ks = map (snd \<circ> snd) pre @ Some w # map (snd \<circ> snd) post"
      "?new \<in> fst ` set ks" and st1': "refs st1 w = Some (Suc (Suc n))" "session_groups st1 = []"
    using assms(2,10) by (auto simp: put_between_def)
  have lr: "links st1 r = Some (NEWMUX_RECOVERY_SESSION, rpre @ (wl_ptr rwl, wl_idx rwl, Some w) # rpost)"
    using ks(1) assms(5,9) split by simp
  have others: "\<forall>j name' ks'. j \<noteq> r \<longrightarrow> links st1 j = Some (name', ks') \<longrightarrow> name' \<noteq> NEWMUX_RECOVERY_SESSION"
    using ks(1) assms(2,9,11) by (metis fun_upd_apply option.inject prod.inject)
  have sizes: "\<And>st. same_links st (recalculate_sizes h st)" using assms(1) by (simp add: sizes_only_def)
  have ok: "keys_ok (rpre @ (wl_ptr rwl, wl_idx rwl, Some w) # rpost)" using assms(6) split by simp
  obtain st2 where st2: "server_unlink_window h r (wl_ptr rwl) st1 = Some st2" "links st2 i = links st1 i"
    using unlink_links [OF lr ok st1' sizes others] assms(9) by auto
  obtain s2 where s2: "the_session st2 i = Some s2" "keys (s_windows s2) = ks" using st2(2) ks(1) by (auto elim: linksE)
  obtain wl where wl: "wl_deref ?new (s_windows s2) = Some wl"
    using find_keys [of ?new "s_windows s2"] s2(2) ks(3) by (cases "wl_deref ?new (s_windows s2)") (auto simp: find_None_iff)
  let ?st3 = "recalculate_sizes h (snd (session_select i (wl_idx wl) st2))"
  let ?st' = "newmux_protect_window_history_on_next_clear w (newmux_history_snapshots_restore_if_shrunk (newmux_history_snapshots_take st win) ?st3)"
  have run: "newmux_restore_live_window h target item st = Some (None, ?st')"
    using dest rs(1) win rwl(1) st1(1) st2(1) s2(1) wl the_session_mem [OF rs(1)]
    by (simp add: newmux_restore_live_window_def find Let_def assms(12-14))
  have "same_links (snd (session_select i (wl_idx wl) st2)) ?st3" using assms(1) by (simp add: sizes_only_def)
  then have "same_links st2 ?st'" using same_links_trans same_links_select after_restore_links by blast
  then have "links ?st' i = Some (name, ks)" using st2(2) ks(1) by (simp add: same_links_def)
  then obtain s' where "the_session ?st' i = Some s'" "keys (s_windows s') = ks" by (rule linksE)
  moreover from this have "map wl_window (s_windows s') = map (snd \<circ> snd) pre @ Some w # map (snd \<circ> snd) post"
    unfolding ks(2) [symmetric] by (auto simp: link_key_def)
  ultimately show ?thesis using run by blast
qed

section \<open>The order of the windows\<close>

text \<open>What closing and reopening a window needs of the server, the session and the window.\<close>

definition window_closable :: "host \<Rightarrow> newmux \<Rightarrow> session \<Rightarrow> winlinks \<Rightarrow> winlink \<Rightarrow> winlinks \<Rightarrow> bool" where
  "window_closable h nm s xs wl ys \<longleftrightarrow> server_fine (nm_server nm) \<and> stack_valid (nm_recovery nm) \<and>
     the_session (nm_server nm) (s_id s) = Some s \<and> s_name s \<noteq> NEWMUX_RECOVERY_SESSION \<and>
     s_windows s = xs @ wl # ys \<and> xs @ ys \<noteq> [] \<and> distinct (map wl_window (s_windows s)) \<and>
     (\<forall>l \<in> set (s_windows s). wl_idx l + 1 < int_max) \<and>
     (case Option.bind (wl_window wl) (windows (nm_server nm)) of None \<Rightarrow> False
      | Some win \<Rightarrow> w_active win \<noteq> None \<and> \<not> newmux_window_looks_fresh h (nm_server nm) win)"

lemma closable_links:
  assumes "window_closable h nm s xs wl ys" "wl_window wl = Some w"
  shows "links (nm_server nm) (s_id s) = Some (s_name s, keys xs @ (wl_ptr wl, wl_idx wl, Some w) # keys ys)"
    "keys_ok (keys xs @ (wl_ptr wl, wl_idx wl, Some w) # keys ys)" "keys_fine (nm_server nm) (keys xs @ keys ys)"
    "winlink_previous (s_windows s) wl = (if xs = [] then None else Some (last xs))"
    "winlink_next (s_windows s) wl = (case ys of [] \<Rightarrow> None | l # _ \<Rightarrow> Some l)"
    "\<forall>k \<in> set (keys xs @ keys ys). \<exists>v. snd (snd k) = Some v \<and> refs (nm_server nm) v \<noteq> None"
proof -
  have lk: "link_key wl = (wl_ptr wl, wl_idx wl, Some w)" using assms(2) by (simp add: link_key_def)
  show l: "links (nm_server nm) (s_id s) = Some (s_name s, keys xs @ (wl_ptr wl, wl_idx wl, Some w) # keys ys)"
    using assms(1) lk by (simp add: links_def window_closable_def)
  have fine: "server_fine (nm_server nm)" using assms(1) by (simp add: window_closable_def)
  note f = links_fine [OF fine l]
  then show ok: "keys_ok (keys xs @ (wl_ptr wl, wl_idx wl, Some w) # keys ys)" by (simp add: keys_fine_def)
  note split = keys_ok_split [OF this]
  show "keys_fine (nm_server nm) (keys xs @ keys ys)" using f split(3) by (auto simp: keys_fine_def)
  have "wl_idx wl \<notin> wl_idx ` set xs" using split(4) by (auto simp: link_key_def)
  moreover have "s_windows s = xs @ wl # ys" using assms(1) by (simp add: window_closable_def)
  ultimately show "winlink_previous (s_windows s) wl = (if xs = [] then None else Some (last xs))"
    "winlink_next (s_windows s) wl = (case ys of [] \<Rightarrow> None | l # _ \<Rightarrow> Some l)"
    unfolding winlink_previous_def winlink_next_def
    using rb_prev_append [of "wl_idx wl" wl_idx xs wl ys] rb_next_append [of "wl_idx wl" wl_idx xs wl ys] by auto
  show "\<forall>k \<in> set (keys xs @ keys ys). \<exists>v. snd (snd k) = Some v \<and> refs (nm_server nm) v \<noteq> None"
  proof
    fix k assume "k \<in> set (keys xs @ keys ys)"
    then have "(fst k, kidx k, snd (snd k)) \<in> set (keys xs @ (wl_ptr wl, wl_idx wl, Some w) # keys ys)" by auto
    from link_refs [OF fine l this] show "\<exists>v. snd (snd k) = Some v \<and> refs (nm_server nm) v \<noteq> None" by auto
  qed
qed

lemma soft_delete_links:
  assumes "window_closable h nm s xs wl ys" "sizes_only h" "wl_window wl = Some w"
  shows "\<exists>nm1 item r rid rpre q ridx rpost. cmd_newmux_soft_delete_window_exec h (s_id s) (Some wl) nm = Some (None, [], nm1) \<and>
    nm_recovery nm1 = newmux_stack_push item r \<and> stack_valid r \<and> newmux_closed_stack r = newmux_closed_stack (nm_recovery nm) \<and>
    ci_type item = NEWMUX_CLOSED_WINDOW \<and> ci_session_id item = s_id s \<and> ci_window_id item = w \<and> ci_recovery_session_id item = rid \<and>
    links (nm_server nm1) (s_id s) = Some (s_name s, keys xs @ keys ys) \<and> rid \<noteq> s_id s \<and>
    links (nm_server nm1) rid = Some (NEWMUX_RECOVERY_SESSION, rpre @ (q, ridx, Some w) # rpost) \<and>
    keys_ok (rpre @ (q, ridx, Some w) # rpost) \<and> refs (nm_server nm1) = refs (nm_server nm) \<and> session_groups (nm_server nm1) = [] \<and>
    (\<forall>j name' ks'. j \<noteq> rid \<longrightarrow> links (nm_server nm1) j = Some (name', ks') \<longrightarrow> name' \<noteq> NEWMUX_RECOVERY_SESSION) \<and>
    closed_between (nm_server nm1) (keys xs) (wl_idx wl) (keys ys) item"
proof -
  let ?st = "nm_server nm" and ?r = "nm_recovery nm"
  note cl = assms(1) [unfolded window_closable_def] and lc = closable_links [OF assms(1,3)]
  obtain win active where win: "windows ?st w = Some win" "w_active win = Some active" "\<not> newmux_window_looks_fresh h ?st win"
    using cl assms(3) by (auto split: option.splits)
  have many: "\<not> only_winlink s wl" using cl lc(4,5) by (auto simp: only_winlink_def split: list.splits)
  obtain item r where item: "newmux_item_from_window ?st ?r s wl = Some (item, r)"
    using assms(3) win by (auto simp: newmux_item_from_window_def Let_def)
  have it: "ci_type item = NEWMUX_CLOSED_WINDOW" "ci_session_id item = s_id s" "ci_window_id item = w"
      "ci_left_window_id item = window_id_or (winlink_previous (s_windows s) wl)"
      "ci_right_window_id item = window_id_or (winlink_next (s_windows s) wl)"
      "newmux_closed_stack r = newmux_closed_stack ?r" "stack_valid r"
    using item cl assms(3) win
    by (auto simp: newmux_item_from_window_def new_item_def newmux_item_set_window_order_def Let_def stack_valid_def)
  have fine: "server_fine ?st" and ss: "the_session ?st (s_id s) = Some s" and name: "s_name s \<noteq> NEWMUX_RECOVERY_SESSION"
    and ne: "keys xs @ keys ys \<noteq> []" using cl by simp_all
  have lk: "link_key wl = (wl_ptr wl, wl_idx wl, Some w)" using assms(3) by (simp add: link_key_def)
  from break_window_links [OF fine assms(2) lc(1) name ne lk ss, of item]
  obtain rid st1 rpre q ridx rpost where st1: "newmux_break_live_window h item s wl ?st =
      Some (None, item\<lparr>ci_recovery_session_id := rid, ci_recovery_window_id := w\<rparr>, st1)" "rid \<noteq> s_id s"
    "links st1 (s_id s) = Some (s_name s, keys xs @ keys ys)"
    "links st1 rid = Some (NEWMUX_RECOVERY_SESSION, rpre @ (q, ridx, Some w) # rpost)" "keys_ok (rpre @ (q, ridx, Some w) # rpost)"
    "refs st1 = refs ?st" "session_groups st1 = []" "next_winlink st1 = next_winlink ?st + 1"
    "\<And>j name' ks'. j \<noteq> rid \<Longrightarrow> links st1 j = Some (name', ks') \<Longrightarrow> name' \<noteq> NEWMUX_RECOVERY_SESSION"
    by blast
  let ?item = "item\<lparr>ci_recovery_session_id := rid, ci_recovery_window_id := w\<rparr>"
  have "cmd_newmux_soft_delete_window_exec h (s_id s) (Some wl) nm = Some (None, [], \<lparr>nm_server = st1, nm_recovery = newmux_stack_push ?item r\<rparr>)"
    using ss assms(3) win many item st1(1) by (simp add: cmd_newmux_soft_delete_window_exec_def push_moved_def)
  moreover have "closed_between st1 (keys xs) (wl_idx wl) (keys ys) ?item"
  proof -
    have "keys_fine st1 (keys xs @ keys ys)"
      using lc(3) st1(8) unfolding keys_fine_def by (metis less_SucI Suc_eq_plus1)
    moreover have "\<forall>k \<in> set (keys xs @ keys ys). kidx k + 1 < int_max" using cl by (auto simp: link_key_def)
    moreover have "distinct (map (snd \<circ> snd) (keys xs @ keys ys))"
    proof -
      have "distinct (map wl_window (xs @ wl # ys))" using cl by metis
      then have "distinct (map wl_window (xs @ ys))" by simp
      then show ?thesis by (simp add: link_key_def comp_def)
    qed
    moreover have "ci_left_window_id ?item = (if keys xs = [] then - 1 else int (the (snd (snd (last (keys xs))))))"
      using it(4) lc(4,6) by (auto simp: window_id_or_def last_map link_key_def dest!: bspec [where x = "link_key (last xs)"])
    moreover have "ci_right_window_id ?item = (if keys ys = [] then - 1 else int (the (snd (snd (hd (keys ys))))))"
      using it(5) lc(5,6) by (cases ys) (auto simp: window_id_or_def link_key_def)
    ultimately show ?thesis
      unfolding closed_between_def using keys_ok_split(4,5) [OF lc(2)] lc(6) [folded st1(6)] ne by (intro conjI)
  qed
  ultimately show ?thesis
    using it st1 by (intro exI [of _ "\<lparr>nm_server = st1, nm_recovery = newmux_stack_push ?item r\<rparr>"] exI [of _ ?item] exI [of _ r] exI [of _ rid] exI [of _ rpre] exI [of _ q]
        exI [of _ ridx] exI [of _ rpost]) simp
qed

text \<open>
  C1. Closing a window softly and reopening it gives the session its windows back in the same
  order, whatever their indexes: after the closing the session has its other windows in order, and
  after the reopening the closed one is again between its neighbours, and the stack of closed items
  is as before (up to the 31 newest items). This needs a server without session groups, windows
  that are each in the session once, indexes that leave room to shuffle, and a window that is
  neither the only one nor fresh.
\<close>

theorem newmux_reopen_window_order:
  assumes "window_closable h nm s xs wl ys" "sizes_only h"
  shows "\<exists>nm1 s1 out nm2 s2. cmd_newmux_soft_delete_window_exec h (s_id s) (Some wl) nm = Some (None, [], nm1) \<and>
    the_session (nm_server nm1) (s_id s) = Some s1 \<and> map wl_window (s_windows s1) = map wl_window (xs @ ys) \<and>
    cmd_newmux_reopen_latest_closed_exec h print target nm1 = Some (None, out, nm2) \<and>
    the_session (nm_server nm2) (s_id s) = Some s2 \<and> map wl_window (s_windows s2) = map wl_window (s_windows s) \<and>
    newmux_closed_stack (nm_recovery nm2) = take 31 (newmux_closed_stack (nm_recovery nm))"
proof -
  obtain w where w: "wl_window wl = Some w" using assms(1) by (cases "wl_window wl") (simp_all add: window_closable_def)
  from soft_delete_links [OF assms w] obtain nm1 item r rid rpre q ridx rpost where
    d: "cmd_newmux_soft_delete_window_exec h (s_id s) (Some wl) nm = Some (None, [], nm1)"
      "nm_recovery nm1 = newmux_stack_push item r" "stack_valid r" "newmux_closed_stack r = newmux_closed_stack (nm_recovery nm)"
      "ci_type item = NEWMUX_CLOSED_WINDOW"
    and it: "ci_session_id item = s_id s" "ci_window_id item = w" "ci_recovery_session_id item = rid"
    and l: "links (nm_server nm1) (s_id s) = Some (s_name s, keys xs @ keys ys)" "rid \<noteq> s_id s"
      "links (nm_server nm1) rid = Some (NEWMUX_RECOVERY_SESSION, rpre @ (q, ridx, Some w) # rpost)"
      "keys_ok (rpre @ (q, ridx, Some w) # rpost)" "refs (nm_server nm1) = refs (nm_server nm)" "session_groups (nm_server nm1) = []"
      "\<forall>j name' ks'. j \<noteq> rid \<longrightarrow> links (nm_server nm1) j = Some (name', ks') \<longrightarrow> name' \<noteq> NEWMUX_RECOVERY_SESSION"
      "closed_between (nm_server nm1) (keys xs) (wl_idx wl) (keys ys) item"
    by blast
  have fine: "server_fine (nm_server nm)" and windows: "s_windows s = xs @ wl # ys" using assms(1) by (simp_all add: window_closable_def)
  obtain n where n: "refs (nm_server nm1) w = Some (Suc n)"
    using link_refs [OF fine closable_links(1) [OF assms(1) w], of "wl_ptr wl" "wl_idx wl" "Some w"] l(5) by auto
  obtain s1 where s1: "the_session (nm_server nm1) (s_id s) = Some s1" "keys (s_windows s1) = keys (xs @ ys)"
    using l(1) by (auto elim: linksE)
  from restore_window_links [OF assms(2) l(1,6,8,3,4) _ _ l(2) n l(7) it, of "(q, ridx, Some w)", where target = target]
  obtain st2 s2 where s2: "newmux_restore_live_window h target item (nm_server nm1) = Some (None, st2)"
    "the_session st2 (s_id s) = Some s2" "map wl_window (s_windows s2) = map (snd \<circ> snd) (keys xs) @ Some w # map (snd \<circ> snd) (keys ys)"
    by auto
  have pop: "fst (newmux_stack_pop (nm_recovery nm1)) = Some item"
    "newmux_closed_stack (snd (newmux_stack_pop (nm_recovery nm1))) = take 31 (newmux_closed_stack (nm_recovery nm))"
    using closed.pop_push [OF d(3), of item] d(2,4) by (simp_all add: NEWMUX_RECOVERY_MAX_ITEMS_def)
  then have "cmd_newmux_reopen_latest_closed_exec h print target nm1 = Some (None,
      if print then [newmux_print_closed_item item False st2] else [],
      \<lparr>nm_server = st2, nm_recovery = snd (newmux_stack_pop (nm_recovery nm1))\<rparr>)"
    using s2(1) d(5) by (cases "newmux_stack_pop (nm_recovery nm1)")
      (simp add: cmd_newmux_reopen_latest_closed_exec_def reopen_item_def newmux_restore_closed_item_def)
  moreover have "map wl_window (s_windows s2) = map wl_window (s_windows s)"
    using s2(3) w windows by (simp add: link_key_def comp_def)
  ultimately show ?thesis using d(1) s1(1) keys_eq(3) [OF s1(2)] s2(2) pop(2) by auto
qed

end
