(* ===== verification/Order_Examples.thy ===== *)
theory Order_Examples
  imports Server_Examples Window_Order
begin

text \<open>
  The window with the index 1 of the small server is closed and reopened: the hypotheses of the claim
  on the order of the windows hold there, and so do those of the claim on the numbers of the items.
\<close>

definition demo_session :: session where
  "demo_session = demo_options\<lparr>s_name := ''main'', s_curw := Some 11,
     s_windows := [demo_link 10 0 0 0, demo_link 11 1 0 1, demo_link 12 4 0 2]\<rparr>"

lemma demo_not_fresh: "\<not> newmux_window_looks_fresh demo_host demo_server (one_pane 3)"
  by code_simp

lemma demo_server_fine: "server_fine demo_server"
  by (auto simp: server_fine_def keys_fine_def keys_ok_def rb_ordered_def demo_server_def demo_session_def demo_options_def demo_link_def link_key_def refs_def
      one_pane_def three_panes_def demo_window_def)

lemma demo_closable: "window_closable demo_host demo_newmux demo_session [demo_link 10 0 0 0] (demo_link 11 1 0 1) [demo_link 12 4 0 2]"
proof -
  have "Option.bind (wl_window (demo_link 11 1 0 1)) (windows demo_server) = Some (one_pane 3)"
    by (simp add: demo_link_def demo_server_def)
  moreover have "w_active (one_pane 3) = Some 3" by (simp add: one_pane_def)
  moreover have "the_session demo_server (s_id demo_session) = Some demo_session"
    by (simp add: the_session_def demo_server_def demo_session_def demo_options_def)
  ultimately show ?thesis
    using demo_not_fresh demo_server_fine
    by (simp add: window_closable_def demo_newmux_def stack_valid_def demo_session_def demo_link_def NEWMUX_RECOVERY_SESSION_def)
qed

lemma demo_sizes: "sizes_only demo_host"
  by (simp add: sizes_only_def demo_host_def)

theorem newmux_order_witness:
  "\<exists>nm1 out nm2 s2. cmd_newmux_soft_delete_window_exec demo_host 0 (Some (demo_link 11 1 0 1)) demo_newmux = Some (None, [], nm1) \<and>
     cmd_newmux_reopen_latest_closed_exec demo_host True None nm1 = Some (None, out, nm2) \<and>
     the_session (nm_server nm2) 0 = Some s2 \<and> map wl_window (s_windows s2) = [Some 0, Some 1, Some 2]"
proof -
  have "s_id demo_session = 0" "map wl_window (s_windows demo_session) = [Some 0, Some 1, Some 2]"
    by (simp_all add: demo_session_def demo_options_def demo_link_def)
  then show ?thesis
    using newmux_reopen_window_order [OF demo_closable demo_sizes, where print = True and target = None] by metis
qed

theorem newmux_numbers_witness:
  "\<exists>nm. newmux_step demo_host demo_newmux nm \<and> recovery_ok (nm_recovery nm) \<and> newmux_closed_stack (nm_recovery nm) \<noteq> []"
proof -
  have w: "wl_window (demo_link 11 1 0 1) = Some 1" by (simp add: demo_link_def)
  from soft_delete_links [OF demo_closable demo_sizes w] obtain nm item r where nm:
    "cmd_newmux_soft_delete_window_exec demo_host (s_id demo_session) (Some (demo_link 11 1 0 1)) demo_newmux = Some (None, [], nm)"
    "nm_recovery nm = newmux_stack_push item r" "stack_valid r"
    by blast
  then have step: "newmux_step demo_host demo_newmux nm" by (blast intro: newmux_step.intros)
  moreover have "nm_recovery demo_newmux = newmux_stack_clear demo_recovery"
    by (simp add: demo_newmux_def newmux_stack_clear_def)
  moreover have "newmux_closed_stack (nm_recovery nm) \<noteq> []"
    unfolding nm(2) using closed.items_push [OF nm(3), of item] by (simp add: NEWMUX_RECOVERY_MAX_ITEMS_def)
  ultimately show ?thesis using newmux_numbers_unique [where n = 1 and h = demo_host and nm = demo_newmux and nm' = nm] by auto
qed

end
