(* ===== verification/Wait_For.thy ===== *)
theory Wait_For
  imports Prelude
begin

text \<open>
  Wait channels, \<^verbatim>\<open>commands/cmd-wait-for.c\<close>: a command waits on a named channel until the channel is
  signalled, or takes and gives back the lock of a channel. A command item is a number; the items
  that \<^verbatim>\<open>cmdq_next\<close> marked with \<^verbatim>\<open>CMDQ_WAITING\<close> are the list \<open>waiting\<close>, and \<^verbatim>\<open>cmdq_continue\<close> takes
  the mark away. The channels are a tree ordered by name.
\<close>

datatype cmd_retval = CMD_RETURN_ERROR | CMD_RETURN_NORMAL | CMD_RETURN_WAIT | CMD_RETURN_STOP

record wait_channel =
  wc_name :: string
  wc_locked :: bool
  wc_woken :: bool
  wc_waiters :: "nat list"
  wc_lockers :: "nat list"

record waits =
  wait_channels :: "wait_channel list"
  waiting :: "nat list"

section \<open>The operations\<close>

definition cmdq_continue :: "nat \<Rightarrow> waits \<Rightarrow> waits" where
  "cmdq_continue i st = st\<lparr>waiting := removeAll i (waiting st)\<rparr>"

definition wc_find :: "string \<Rightarrow> waits \<Rightarrow> wait_channel option" where
  "wc_find name st = rb_find wc_name name (wait_channels st)"

definition wc_upd :: "string \<Rightarrow> (wait_channel \<Rightarrow> wait_channel) \<Rightarrow> waits \<Rightarrow> waits" where
  "wc_upd name f st =
     st\<lparr>wait_channels := map (\<lambda>wc. if wc_name wc = name then f wc else wc) (wait_channels st)\<rparr>"

definition new_channel :: "string \<Rightarrow> wait_channel" where
  "new_channel name =
     \<lparr>wc_name = name, wc_locked = False, wc_woken = False, wc_waiters = [], wc_lockers = []\<rparr>"

definition cmd_wait_for_add :: "string \<Rightarrow> waits \<Rightarrow> waits" where
  "cmd_wait_for_add name st =
     st\<lparr>wait_channels := rb_insert wc_name (new_channel name) (wait_channels st)\<rparr>"

definition cmd_wait_for_remove :: "string \<Rightarrow> waits \<Rightarrow> waits" where
  "cmd_wait_for_remove name st =
     (case wc_find name st of None \<Rightarrow> st
      | Some wc \<Rightarrow>
          if wc_locked wc then st
          else if wc_waiters wc \<noteq> [] \<or> \<not> wc_woken wc then st
          else st\<lparr>wait_channels := rb_remove wc_name name (wait_channels st)\<rparr>)"

text \<open>The channel of the name, made when there is none.\<close>

definition the_channel :: "string \<Rightarrow> waits \<Rightarrow> wait_channel \<times> waits" where
  "the_channel name st =
     (case wc_find name st of Some wc \<Rightarrow> (wc, st) | None \<Rightarrow> (new_channel name, cmd_wait_for_add name st))"

definition cmd_wait_for_signal :: "string \<Rightarrow> waits \<Rightarrow> cmd_retval \<times> waits" where
  "cmd_wait_for_signal name st =
     (let (wc, st1) = the_channel name st
      in if wc_waiters wc = [] \<and> \<not> wc_woken wc
         then (CMD_RETURN_NORMAL, wc_upd name (wc_woken_update (\<lambda>_. True)) st1)
         else
           (let st2 = wc_upd name (wc_waiters_update (\<lambda>_. [])) (fold cmdq_continue (wc_waiters wc) st1)
            in (CMD_RETURN_NORMAL, cmd_wait_for_remove name st2)))"

definition cmd_wait_for_wait :: "nat \<Rightarrow> bool \<Rightarrow> string \<Rightarrow> waits \<Rightarrow> cmd_retval \<times> waits" where
  "cmd_wait_for_wait i client name st =
     (if \<not> client then (CMD_RETURN_ERROR, st)
      else
        (let (wc, st1) = the_channel name st
         in if wc_woken wc then (CMD_RETURN_NORMAL, cmd_wait_for_remove name st1)
            else (CMD_RETURN_WAIT, wc_upd name (wc_waiters_update (\<lambda>is. is @ [i])) st1)))"

definition cmd_wait_for_lock :: "nat \<Rightarrow> bool \<Rightarrow> string \<Rightarrow> waits \<Rightarrow> cmd_retval \<times> waits" where
  "cmd_wait_for_lock i client name st =
     (if \<not> client then (CMD_RETURN_ERROR, st)
      else
        (let (wc, st1) = the_channel name st
         in if wc_locked wc then (CMD_RETURN_WAIT, wc_upd name (wc_lockers_update (\<lambda>is. is @ [i])) st1)
            else (CMD_RETURN_NORMAL, wc_upd name (wc_locked_update (\<lambda>_. True)) st1)))"

definition cmd_wait_for_unlock :: "string \<Rightarrow> waits \<Rightarrow> cmd_retval \<times> waits" where
  "cmd_wait_for_unlock name st =
     (case wc_find name st of None \<Rightarrow> (CMD_RETURN_ERROR, st)
      | Some wc \<Rightarrow>
          if \<not> wc_locked wc then (CMD_RETURN_ERROR, st)
          else
            (case wc_lockers wc of
               i # _ \<Rightarrow> (CMD_RETURN_NORMAL, wc_upd name (wc_lockers_update tl) (cmdq_continue i st))
             | [] \<Rightarrow> (CMD_RETURN_NORMAL, cmd_wait_for_remove name (wc_upd name (wc_locked_update (\<lambda>_. False)) st))))"

text \<open>The flags \<^verbatim>\<open>-S\<close>, \<^verbatim>\<open>-L\<close> and \<^verbatim>\<open>-U\<close> in the order in which they are looked at.\<close>

definition cmd_wait_for_exec :: "bool \<Rightarrow> bool \<Rightarrow> bool \<Rightarrow> nat \<Rightarrow> bool \<Rightarrow> string \<Rightarrow> waits \<Rightarrow> cmd_retval \<times> waits" where
  "cmd_wait_for_exec S L U i client name st =
     (if S then cmd_wait_for_signal name st
      else if L then cmd_wait_for_lock i client name st
      else if U then cmd_wait_for_unlock name st
      else cmd_wait_for_wait i client name st)"

definition flush_channel :: "string \<Rightarrow> waits \<Rightarrow> waits" where
  "flush_channel name st =
     (case wc_find name st of None \<Rightarrow> st
      | Some wc \<Rightarrow>
          (let st1 = wc_upd name (wc_waiters_update (\<lambda>_. [])) (fold cmdq_continue (wc_waiters wc) st);
               st2 = wc_upd name (wc_woken_update (\<lambda>_. True)) st1;
               st3 = wc_upd name (wc_lockers_update (\<lambda>_. [])) (fold cmdq_continue (wc_lockers wc) st2);
               st4 = wc_upd name (wc_locked_update (\<lambda>_. False)) st3
           in cmd_wait_for_remove name st4))"

definition cmd_wait_for_flush :: "waits \<Rightarrow> waits" where
  "cmd_wait_for_flush st = fold flush_channel (map wc_name (wait_channels st)) st"

text \<open>What \<^verbatim>\<open>cmdq_next\<close> does with the result of the command: an item that has to wait is marked.\<close>

definition cmdq_fire :: "nat \<Rightarrow> cmd_retval \<times> waits \<Rightarrow> waits" where
  "cmdq_fire i r = (if fst r = CMD_RETURN_WAIT then (snd r)\<lparr>waiting := i # waiting (snd r)\<rparr> else snd r)"

section \<open>The channels by name\<close>

text \<open>
  A channel that is not in the tree is as good as a new one, so the tree can be read as a function
  from names to channels; what a command does is the change of one value of the function.
\<close>

definition chan :: "waits \<Rightarrow> string \<Rightarrow> wait_channel" where
  "chan st name = (case wc_find name st of None \<Rightarrow> new_channel name | Some wc \<Rightarrow> wc)"

definition channels_ok :: "waits \<Rightarrow> bool" where
  "channels_ok st \<longleftrightarrow> rb_ordered wc_name (wait_channels st)"

text \<open>Removing a channel resets it.\<close>

definition settled :: "wait_channel \<Rightarrow> wait_channel" where
  "settled wc = (if \<not> wc_locked wc \<and> wc_waiters wc = [] \<and> wc_woken wc then new_channel (wc_name wc) else wc)"

lemma wc_name_chan [simp]: "wc_name (chan st name) = name"
  by (auto simp: chan_def new_channel_def wc_find_def dest: rb_find_SomeD split: option.split)

lemma find_upd:
  assumes "\<And>wc. wc_name (f wc) = wc_name wc"
  shows "wc_find m (wc_upd n f st) = (if m = n then map_option f (wc_find n st) else wc_find m st)"
proof -
  have "wc_find m (wc_upd n f st) = map_option (\<lambda>wc. if wc_name wc = n then f wc else wc) (wc_find m st)"
    using assms by (simp add: wc_find_def wc_upd_def rb_find_map)
  then show ?thesis by (cases "wc_find m st") (auto simp: wc_find_def dest: rb_find_SomeD)
qed

lemma ok_upd: "(\<And>wc. wc_name (f wc) = wc_name wc) \<Longrightarrow> channels_ok (wc_upd n f st) = channels_ok st"
  by (simp add: channels_ok_def wc_upd_def rb_ordered_map)

text \<open>
  A command on the channel \<open>name\<close> leaves the tree ordered, turns that channel into \<open>wc\<close> and
  leaves the items \<open>ws\<close> waiting.
\<close>

definition turns :: "waits \<Rightarrow> string \<Rightarrow> wait_channel \<Rightarrow> nat list \<Rightarrow> waits \<Rightarrow> bool" where
  "turns st name wc ws st' \<longleftrightarrow> channels_ok st' \<and> chan st' = (chan st)(name := wc) \<and> waiting st' = ws"

lemma waiting_upd [simp]: "waiting (wc_upd n f st) = waiting st"
  by (simp add: wc_upd_def)

lemma waiting_remove [simp]: "waiting (cmd_wait_for_remove n st) = waiting st"
  by (simp add: cmd_wait_for_remove_def split: option.split)

lemma the_channel_found:
  assumes "channels_ok st"
  shows "fst (the_channel n st) = chan st n" "channels_ok (snd (the_channel n st))" "chan (snd (the_channel n st)) = chan st"
    "wc_find n (snd (the_channel n st)) = Some (chan st n)" "waiting (snd (the_channel n st)) = waiting st"
proof -
  have add: "wc_find m (cmd_wait_for_add n st) = (if m = n then Some (new_channel n) else wc_find m st)" if "wc_find n st = None" for m
    using that assms rb.find_insert [of wc_name "wait_channels st" "new_channel n" m]
    by (simp add: wc_find_def channels_ok_def cmd_wait_for_add_def new_channel_def)
  show "fst (the_channel n st) = chan st n" by (simp add: the_channel_def chan_def split: option.split)
  show "channels_ok (snd (the_channel n st))"
    using assms by (simp add: the_channel_def channels_ok_def cmd_wait_for_add_def rb_ordered_insert split: option.split)
  show "chan (snd (the_channel n st)) = chan st"
    using add by (auto simp: the_channel_def chan_def fun_eq_iff split: option.split)
  show "wc_find n (snd (the_channel n st)) = Some (chan st n)"
    using add by (auto simp: the_channel_def chan_def split: option.split)
  show "waiting (snd (the_channel n st)) = waiting st"
    by (simp add: the_channel_def cmd_wait_for_add_def split: option.split)
qed

lemma turns_upd:
  assumes "channels_ok st" "wc_find n st \<noteq> None" "\<And>wc. wc_name (f wc) = wc_name wc"
  shows "turns st n (f (chan st n)) (waiting st) (wc_upd n f st)"
  using assms by (auto simp: turns_def ok_upd chan_def find_upd fun_eq_iff split: option.split)

lemma chan_waiting [simp]: "chan (st\<lparr>waiting := ws\<rparr>) = chan st" "channels_ok (st\<lparr>waiting := ws\<rparr>) = channels_ok st"
  by (simp_all add: chan_def fun_eq_iff wc_find_def channels_ok_def)

lemma turns_remove:
  assumes "channels_ok st"
  shows "turns st n (settled (chan st n)) (waiting st) (cmd_wait_for_remove n st)"
proof -
  have gone: "wc_find m (st\<lparr>wait_channels := rb_remove wc_name n (wait_channels st)\<rparr>) = (if m = n then None else wc_find m st)" for m
    using assms by (simp add: wc_find_def channels_ok_def rb.find_remove)
  show ?thesis
  proof (cases "wc_find n st")
    case None
    then show ?thesis
      using assms by (simp add: turns_def cmd_wait_for_remove_def settled_def chan_def new_channel_def fun_eq_iff)
  next
    case (Some wc)
    then have c: "chan st n = wc" by (simp add: chan_def)
    then have "wc_name wc = n" using wc_name_chan [of st n] by simp
    then show ?thesis
      using assms Some c gone
      by (auto simp: turns_def cmd_wait_for_remove_def settled_def chan_def fun_eq_iff channels_ok_def rb_ordered_remove)
  qed
qed

lemma append_item [simp]:
  "wc_waiters_update (\<lambda>is. is @ [i]) wc = wc\<lparr>wc_waiters := wc_waiters wc @ [i]\<rparr>"
  "wc_lockers_update (\<lambda>is. is @ [i]) wc = wc\<lparr>wc_lockers := wc_lockers wc @ [i]\<rparr>"
  "wc_lockers_update tl wc = wc\<lparr>wc_lockers := tl (wc_lockers wc)\<rparr>"
  by (cases wc; simp)+

lemma turns_trans: "turns st n a ws st1 \<Longrightarrow> turns st1 n b ws' st2 \<Longrightarrow> turns st n b ws' st2"
  by (auto simp: turns_def)

lemma turns_chan: "turns st n wc ws st' \<Longrightarrow> chan st' n = wc \<and> channels_ok st' \<and> waiting st' = ws"
  by (simp add: turns_def)

lemma turns_found: "channels_ok st \<Longrightarrow> turns st n (chan st n) (waiting st) (snd (the_channel n st))"
  using the_channel_found [of st n] by (auto simp: turns_def)

lemma continue_all: "fold cmdq_continue is st = st\<lparr>waiting := filter (\<lambda>j. j \<notin> set is) (waiting st)\<rparr>"
proof (induction "is" arbitrary: st)
  case (Cons i "is")
  moreover have "filter (\<lambda>j. j \<noteq> i \<and> j \<notin> set is) ws = filter (\<lambda>j. j \<notin> set (i # is)) ws" for ws by simp
  ultimately show ?case by (simp add: cmdq_continue_def removeAll_filter_not_eq conj_commute eq_commute [of i])
qed simp

lemma turns_waiting: "channels_ok st \<Longrightarrow> turns st n (chan st n) ws (st\<lparr>waiting := ws\<rparr>)"
  by (simp add: turns_def)

lemma wc_find_waiting [simp]: "wc_find n (st\<lparr>waiting := ws\<rparr>) = wc_find n st"
  by (simp add: wc_find_def)

definition signalled :: "wait_channel \<Rightarrow> wait_channel" where
  "signalled wc = (if wc_waiters wc = [] \<and> \<not> wc_woken wc then wc\<lparr>wc_woken := True\<rparr> else settled (wc\<lparr>wc_waiters := []\<rparr>))"

lemma signal_turns:
  assumes "channels_ok st"
  shows "turns st n (signalled (chan st n)) (filter (\<lambda>j. j \<notin> set (wc_waiters (chan st n))) (waiting st)) (snd (cmd_wait_for_signal n st))"
proof -
  obtain wc st1 where r: "the_channel n st = (wc, st1)" by fastforce
  note f = the_channel_found [OF assms, of n, unfolded r fst_conv snd_conv] and t = turns_found [OF assms, of n, unfolded r snd_conv]
  let ?ws = "filter (\<lambda>j. j \<notin> set (wc_waiters wc)) (waiting st)" and ?st2 = "fold cmdq_continue (wc_waiters wc) st1"
  have st2: "turns st n wc ?ws ?st2"
    using turns_trans [OF t turns_waiting [OF f(2)]] f by (simp add: continue_all)
  have "turns ?st2 n (wc\<lparr>wc_waiters := []\<rparr>) ?ws (wc_upd n (wc_waiters_update (\<lambda>_. [])) ?st2)"
    using turns_upd [of ?st2 n "wc_waiters_update (\<lambda>_. [])"] f st2 by (simp add: continue_all)
  note st3 = turns_trans [OF st2 this]
  have "turns st n (settled (wc\<lparr>wc_waiters := []\<rparr>)) ?ws (cmd_wait_for_remove n (wc_upd n (wc_waiters_update (\<lambda>_. [])) ?st2))"
    using turns_trans [OF st3 turns_remove] turns_chan [OF st3] by metis
  moreover have "turns st n (wc\<lparr>wc_woken := True\<rparr>) (waiting st) (wc_upd n (wc_woken_update (\<lambda>_. True)) st1)"
    using turns_trans [OF t turns_upd] f by auto
  ultimately show ?thesis
    using f(1) r by (auto simp: cmd_wait_for_signal_def signalled_def)
qed

lemma wait_turns:
  assumes "channels_ok st"
  shows "cmd_wait_for_wait i False n st = (CMD_RETURN_ERROR, st)"
    "wc_woken (chan st n) \<Longrightarrow> fst (cmd_wait_for_wait i True n st) = CMD_RETURN_NORMAL \<and>
       turns st n (settled (chan st n)) (waiting st) (snd (cmd_wait_for_wait i True n st))"
    "\<not> wc_woken (chan st n) \<Longrightarrow> fst (cmd_wait_for_wait i True n st) = CMD_RETURN_WAIT \<and>
       turns st n ((chan st n)\<lparr>wc_waiters := wc_waiters (chan st n) @ [i]\<rparr>) (waiting st) (snd (cmd_wait_for_wait i True n st))"
proof -
  obtain wc st1 where r: "the_channel n st = (wc, st1)" by fastforce
  note f = the_channel_found [OF assms, of n, unfolded r fst_conv snd_conv] and t = turns_found [OF assms, of n, unfolded r snd_conv]
  show "cmd_wait_for_wait i False n st = (CMD_RETURN_ERROR, st)" by (simp add: cmd_wait_for_wait_def)
  have "turns st n (settled wc) (waiting st) (cmd_wait_for_remove n st1)" using turns_trans [OF t turns_remove] f by simp
  then show "fst (cmd_wait_for_wait i True n st) = CMD_RETURN_NORMAL \<and>
       turns st n (settled (chan st n)) (waiting st) (snd (cmd_wait_for_wait i True n st))" if "wc_woken (chan st n)"
    using that f(1) r by (simp add: cmd_wait_for_wait_def)
  have "turns st n (wc\<lparr>wc_waiters := wc_waiters wc @ [i]\<rparr>) (waiting st) (wc_upd n (wc_waiters_update (\<lambda>is. is @ [i])) st1)"
    using turns_trans [OF t turns_upd [of _ _ "wc_waiters_update (\<lambda>is. is @ [i])"]] f by simp
  then show "fst (cmd_wait_for_wait i True n st) = CMD_RETURN_WAIT \<and>
       turns st n ((chan st n)\<lparr>wc_waiters := wc_waiters (chan st n) @ [i]\<rparr>) (waiting st) (snd (cmd_wait_for_wait i True n st))"
    if "\<not> wc_woken (chan st n)"
    using that f(1) r by (simp add: cmd_wait_for_wait_def)
qed

lemma lock_turns:
  assumes "channels_ok st"
  shows "cmd_wait_for_lock i False n st = (CMD_RETURN_ERROR, st)"
    "wc_locked (chan st n) \<Longrightarrow> fst (cmd_wait_for_lock i True n st) = CMD_RETURN_WAIT \<and>
       turns st n ((chan st n)\<lparr>wc_lockers := wc_lockers (chan st n) @ [i]\<rparr>) (waiting st) (snd (cmd_wait_for_lock i True n st))"
    "\<not> wc_locked (chan st n) \<Longrightarrow> fst (cmd_wait_for_lock i True n st) = CMD_RETURN_NORMAL \<and>
       turns st n ((chan st n)\<lparr>wc_locked := True\<rparr>) (waiting st) (snd (cmd_wait_for_lock i True n st))"
proof -
  obtain wc st1 where r: "the_channel n st = (wc, st1)" by fastforce
  note f = the_channel_found [OF assms, of n, unfolded r fst_conv snd_conv] and t = turns_found [OF assms, of n, unfolded r snd_conv]
  show "cmd_wait_for_lock i False n st = (CMD_RETURN_ERROR, st)" by (simp add: cmd_wait_for_lock_def)
  have "turns st n (wc\<lparr>wc_lockers := wc_lockers wc @ [i]\<rparr>) (waiting st) (wc_upd n (wc_lockers_update (\<lambda>is. is @ [i])) st1)"
    using turns_trans [OF t turns_upd [of _ _ "wc_lockers_update (\<lambda>is. is @ [i])"]] f by simp
  then show "fst (cmd_wait_for_lock i True n st) = CMD_RETURN_WAIT \<and>
       turns st n ((chan st n)\<lparr>wc_lockers := wc_lockers (chan st n) @ [i]\<rparr>) (waiting st) (snd (cmd_wait_for_lock i True n st))"
    if "wc_locked (chan st n)"
    using that f(1) r by (simp add: cmd_wait_for_lock_def)
  have "turns st n (wc\<lparr>wc_locked := True\<rparr>) (waiting st) (wc_upd n (wc_locked_update (\<lambda>_. True)) st1)"
    using turns_trans [OF t turns_upd [of _ _ "wc_locked_update (\<lambda>_. True)"]] f by simp
  then show "fst (cmd_wait_for_lock i True n st) = CMD_RETURN_NORMAL \<and>
       turns st n ((chan st n)\<lparr>wc_locked := True\<rparr>) (waiting st) (snd (cmd_wait_for_lock i True n st))"
    if "\<not> wc_locked (chan st n)"
    using that f(1) r by (simp add: cmd_wait_for_lock_def)
qed

definition unlocked :: "wait_channel \<Rightarrow> wait_channel" where
  "unlocked wc = (case wc_lockers wc of [] \<Rightarrow> settled (wc\<lparr>wc_locked := False\<rparr>) | _ # is \<Rightarrow> wc\<lparr>wc_lockers := is\<rparr>)"

lemma unlock_turns:
  assumes "channels_ok st"
  shows "\<not> wc_locked (chan st n) \<Longrightarrow> cmd_wait_for_unlock n st = (CMD_RETURN_ERROR, st)"
    "wc_locked (chan st n) \<Longrightarrow> fst (cmd_wait_for_unlock n st) = CMD_RETURN_NORMAL \<and>
       turns st n (unlocked (chan st n)) (filter (\<lambda>j. j \<notin> set (take 1 (wc_lockers (chan st n)))) (waiting st))
         (snd (cmd_wait_for_unlock n st))"
proof -
  show "cmd_wait_for_unlock n st = (CMD_RETURN_ERROR, st)" if "\<not> wc_locked (chan st n)"
    using that by (auto simp: cmd_wait_for_unlock_def chan_def new_channel_def split: option.splits)
  assume l: "wc_locked (chan st n)"
  then obtain wc where wc: "wc_find n st = Some wc" "chan st n = wc"
    by (auto simp: chan_def new_channel_def split: option.splits)
  show "fst (cmd_wait_for_unlock n st) = CMD_RETURN_NORMAL \<and>
       turns st n (unlocked (chan st n)) (filter (\<lambda>j. j \<notin> set (take 1 (wc_lockers (chan st n)))) (waiting st))
         (snd (cmd_wait_for_unlock n st))"
  proof (cases "wc_lockers wc")
    case Nil
    let ?st1 = "wc_upd n (wc_locked_update (\<lambda>_. False)) st"
    have t: "turns st n (wc\<lparr>wc_locked := False\<rparr>) (waiting st) ?st1"
      using turns_upd [OF assms, of n "wc_locked_update (\<lambda>_. False)"] wc by simp
    then have "turns st n (settled (wc\<lparr>wc_locked := False\<rparr>)) (waiting st) (cmd_wait_for_remove n ?st1)"
      using turns_trans [OF t turns_remove] turns_chan [OF t] by metis
    then show ?thesis using l wc Nil by (simp add: cmd_wait_for_unlock_def unlocked_def)
  next
    case (Cons i "is")
    let ?ws = "removeAll i (waiting st)"
    have "turns (st\<lparr>waiting := ?ws\<rparr>) n (wc\<lparr>wc_lockers := is\<rparr>) ?ws (wc_upd n (wc_lockers_update tl) (st\<lparr>waiting := ?ws\<rparr>))"
      using turns_upd [of "st\<lparr>waiting := ?ws\<rparr>" n "wc_lockers_update tl"] assms wc Cons by simp
    then have "turns st n (wc\<lparr>wc_lockers := is\<rparr>) ?ws (wc_upd n (wc_lockers_update tl) (st\<lparr>waiting := ?ws\<rparr>))"
      using turns_trans [OF turns_waiting [OF assms]] by blast
    moreover have "?ws = filter (\<lambda>j. j \<noteq> i) (waiting st)" by (auto simp: removeAll_filter_not_eq intro: arg_cong2 [where f = filter])
    ultimately show ?thesis using l wc Cons by (simp add: cmd_wait_for_unlock_def unlocked_def cmdq_continue_def)
  qed
qed

section \<open>Every item is in its queue\<close>

text \<open>
  The commands that reach the channels: \<^verbatim>\<open>wait-for\<close> with one of its flags, by an item that has a
  client or none, and the flush when the server exits.
\<close>

datatype wait_cmd =
    Signal (cmd_item: nat) (channel: string)
  | Wait (cmd_item: nat) bool (channel: string)
  | Lock (cmd_item: nat) bool (channel: string)
  | Unlock (cmd_item: nat) (channel: string)
  | Flush (cmd_item: nat)

fun wait_step :: "wait_cmd \<Rightarrow> waits \<Rightarrow> waits" where
  "wait_step (Signal i n) st = cmdq_fire i (cmd_wait_for_exec True False False i True n st)"
| "wait_step (Lock i client n) st = cmdq_fire i (cmd_wait_for_exec False True False i client n st)"
| "wait_step (Unlock i n) st = cmdq_fire i (cmd_wait_for_exec False False True i True n st)"
| "wait_step (Wait i client n) st = cmdq_fire i (cmd_wait_for_exec False False False i client n st)"
| "wait_step (Flush i) st = cmd_wait_for_flush st"

definition queued :: "waits \<Rightarrow> string \<Rightarrow> nat list" where
  "queued st n = wc_waiters (chan st n) @ wc_lockers (chan st n)"

definition channel_ok :: "wait_channel \<Rightarrow> bool" where
  "channel_ok wc \<longleftrightarrow> (wc_lockers wc \<noteq> [] \<longrightarrow> wc_locked wc) \<and> (wc_waiters wc \<noteq> [] \<longrightarrow> \<not> wc_woken wc) \<and>
     distinct (wc_waiters wc @ wc_lockers wc)"

definition waits_ok :: "waits \<Rightarrow> bool" where
  "waits_ok st \<longleftrightarrow> channels_ok st \<and> (\<forall>n. channel_ok (chan st n)) \<and>
     (\<forall>n m i. i \<in> set (queued st n) \<and> i \<in> set (queued st m) \<longrightarrow> n = m) \<and>
     (\<forall>i. i \<in> set (waiting st) \<longleftrightarrow> (\<exists>n. i \<in> set (queued st n)))"

lemma settled_queues [simp]: "wc_waiters (settled wc) = wc_waiters wc"
  "channel_ok wc \<Longrightarrow> wc_lockers (settled wc) = wc_lockers wc"
  by (auto simp: settled_def new_channel_def channel_ok_def)

lemma channel_ok_settled: "channel_ok wc \<Longrightarrow> channel_ok (settled wc)"
  by (auto simp: settled_def new_channel_def channel_ok_def)

text \<open>A command changes one channel: the items that leave its queues go on, at most one joins.\<close>

lemma waits_ok_turns:
  assumes "waits_ok st" "turns st n wc ws st'" "channel_ok wc" "set (wc_waiters wc @ wc_lockers wc) = set (queued st n) - out \<union> into"
    "set ws' = set (waiting st) - out \<union> into" "out \<subseteq> set (queued st n)" "into \<inter> set (waiting st) = {}"
  shows "waits_ok (st'\<lparr>waiting := ws'\<rparr>)"
proof -
  have ok: "channels_ok st'" "chan st' = (chan st)(n := wc)" using assms(2) by (simp_all add: turns_def)
  have q: "set (queued (st'\<lparr>waiting := ws'\<rparr>) m) = (if m = n then set (queued st n) - out \<union> into else set (queued st m))" for m
    using ok(2) assms(4) by (simp add: queued_def)
  have w: "i \<in> set (waiting st) \<longleftrightarrow> (\<exists>n. i \<in> set (queued st n))" for i using assms(1) by (simp add: waits_ok_def)
  have one: "i \<in> set (queued st a) \<Longrightarrow> i \<in> set (queued st b) \<Longrightarrow> a = b" for a b i using assms(1) by (auto simp: waits_ok_def)
  have q': "i \<in> set (queued (st'\<lparr>waiting := ws'\<rparr>) m) \<longleftrightarrow> i \<in> set (queued st m) \<and> \<not> (m = n \<and> i \<in> out) \<or> m = n \<and> i \<in> into" for i m
    unfolding q by simp
  have new: "i \<in> into \<Longrightarrow> i \<notin> set (queued st m)" for i m using w assms(7) by blast
  have "\<forall>m. channel_ok (chan (st'\<lparr>waiting := ws'\<rparr>) m)" using assms(1,3) ok(2) by (simp add: waits_ok_def)
  moreover have "a = b" if "i \<in> set (queued (st'\<lparr>waiting := ws'\<rparr>) a) \<and> i \<in> set (queued (st'\<lparr>waiting := ws'\<rparr>) b)" for a b i
    using that one new unfolding q' by blast
  moreover have "i \<in> set ws' \<longleftrightarrow> (\<exists>m. i \<in> set (queued (st'\<lparr>waiting := ws'\<rparr>) m))" for i
  proof (cases "i \<in> out")
    case True
    then have "\<forall>m. i \<in> set (queued st m) \<longrightarrow> m = n" using one assms(6) by blast
    with True show ?thesis unfolding q' assms(5) by auto
  next
    case False
    then show ?thesis unfolding q' assms(5) using w by auto
  qed
  ultimately show ?thesis using ok(1) unfolding waits_ok_def by simp
qed

text \<open>What a command does to its channel, and the items that leave and join the queues.\<close>

fun turned :: "wait_cmd \<Rightarrow> wait_channel \<Rightarrow> wait_channel" where
  "turned (Signal i n) wc = signalled wc"
| "turned (Wait i client n) wc = (if \<not> client then wc else if wc_woken wc then settled wc else wc\<lparr>wc_waiters := wc_waiters wc @ [i]\<rparr>)"
| "turned (Lock i client n) wc = (if \<not> client then wc else if wc_locked wc then wc\<lparr>wc_lockers := wc_lockers wc @ [i]\<rparr> else wc\<lparr>wc_locked := True\<rparr>)"
| "turned (Unlock i n) wc = (if wc_locked wc then unlocked wc else wc)"
| "turned (Flush i) wc = new_channel (wc_name wc)"

fun leaving :: "wait_cmd \<Rightarrow> wait_channel \<Rightarrow> nat list" where
  "leaving (Signal i n) wc = wc_waiters wc"
| "leaving (Unlock i n) wc = (if wc_locked wc then take 1 (wc_lockers wc) else [])"
| "leaving (Flush i) wc = wc_waiters wc @ wc_lockers wc"
| "leaving _ wc = []"

fun joining :: "wait_cmd \<Rightarrow> wait_channel \<Rightarrow> nat list" where
  "joining (Wait i client n) wc = (if client \<and> \<not> wc_woken wc then [i] else [])"
| "joining (Lock i client n) wc = (if client \<and> wc_locked wc then [i] else [])"
| "joining _ wc = []"

definition flush_free :: "wait_cmd \<Rightarrow> bool" where
  "flush_free c \<longleftrightarrow> (case c of Flush _ \<Rightarrow> False | _ \<Rightarrow> True)"

lemma turns_refl: "channels_ok st \<Longrightarrow> turns st n (chan st n) (waiting st) st"
  by (simp add: turns_def)

lemma turns_marked: "turns st n wc ws st' \<Longrightarrow> turns st n wc ws' (st'\<lparr>waiting := ws'\<rparr>)"
  by (simp add: turns_def)

lemma cmdq_fire_simps:
  "fst r \<noteq> CMD_RETURN_WAIT \<Longrightarrow> cmdq_fire i r = snd r"
  "fst r = CMD_RETURN_WAIT \<Longrightarrow> cmdq_fire i r = (snd r)\<lparr>waiting := i # waiting (snd r)\<rparr>"
  by (simp_all add: cmdq_fire_def)

lemma step_turns:
  assumes "channels_ok st" "flush_free c"
  defines "wc \<equiv> chan st (channel c)"
  shows "turns st (channel c) (turned c wc) (joining c wc @ filter (\<lambda>j. j \<notin> set (leaving c wc)) (waiting st)) (wait_step c st)"
proof (cases c)
  case (Signal i n)
  have "fst (cmd_wait_for_signal n st) \<noteq> CMD_RETURN_WAIT" by (simp add: cmd_wait_for_signal_def Let_def split: prod.split)
  then show ?thesis using signal_turns [OF assms(1), of n] Signal by (simp add: wc_def cmd_wait_for_exec_def cmdq_fire_simps)
next
  case (Wait i client n)
  show ?thesis
  proof (cases "client \<and> \<not> wc_woken (chan st n)")
    case True
    then have w: "fst (cmd_wait_for_wait i True n st) = CMD_RETURN_WAIT"
        "turns st n ((chan st n)\<lparr>wc_waiters := wc_waiters (chan st n) @ [i]\<rparr>) (waiting st) (snd (cmd_wait_for_wait i True n st))"
      using wait_turns(3) [OF assms(1), of n i] by auto
    from turns_marked [OF w(2)] turns_chan [OF w(2)] w(1) True Wait show ?thesis
      by (simp add: wc_def cmd_wait_for_exec_def cmdq_fire_simps)
  next
    case False
    then show ?thesis using wait_turns [OF assms(1)] turns_refl [OF assms(1)] Wait
      by (cases client) (auto simp: wc_def cmd_wait_for_exec_def cmdq_fire_simps)
  qed
next
  case (Lock i client n)
  show ?thesis
  proof (cases "client \<and> wc_locked (chan st n)")
    case True
    then have w: "fst (cmd_wait_for_lock i True n st) = CMD_RETURN_WAIT"
        "turns st n ((chan st n)\<lparr>wc_lockers := wc_lockers (chan st n) @ [i]\<rparr>) (waiting st) (snd (cmd_wait_for_lock i True n st))"
      using lock_turns(2) [OF assms(1), of n i] by auto
    from turns_marked [OF w(2)] turns_chan [OF w(2)] w(1) True Lock show ?thesis
      by (simp add: wc_def cmd_wait_for_exec_def cmdq_fire_simps)
  next
    case False
    then show ?thesis using lock_turns [OF assms(1)] turns_refl [OF assms(1)] Lock
      by (cases client) (auto simp: wc_def cmd_wait_for_exec_def cmdq_fire_simps)
  qed
next
  case (Unlock i n)
  then show ?thesis using unlock_turns [OF assms(1), of n] turns_refl [OF assms(1)]
    by (cases "wc_locked (chan st n)") (auto simp: wc_def cmd_wait_for_exec_def cmdq_fire_simps)
qed (use assms(2) in \<open>simp add: flush_free_def\<close>)

lemma channel_ok_turned:
  assumes "channel_ok wc" "cmd_item c \<notin> set (wc_waiters wc @ wc_lockers wc)" "flush_free c"
  shows "channel_ok (turned c wc)"
    "set (wc_waiters (turned c wc) @ wc_lockers (turned c wc)) = set (wc_waiters wc @ wc_lockers wc) - set (leaving c wc) \<union> set (joining c wc)"
  using assms
  by (cases c; cases "wc_lockers wc"; auto simp: channel_ok_def signalled_def settled_def unlocked_def new_channel_def flush_free_def)+

lemma flush_turns:
  assumes "channels_ok st"
  shows "turns st n (new_channel n) (filter (\<lambda>j. j \<notin> set (queued st n)) (waiting st)) (flush_channel n st)"
proof (cases "wc_find n st")
  case None
  then have "chan st n = new_channel n" "queued st n = []" by (simp_all add: chan_def queued_def new_channel_def)
  with None turns_refl [OF assms, of n] show ?thesis by (simp add: flush_channel_def)
next
  case (Some wc)
  then have wc: "chan st n = wc" "wc_name wc = n" using wc_name_chan [of st n] by (simp_all add: chan_def)
  let ?W = "\<lambda>is ws. filter (\<lambda>j. j \<notin> set is) ws"
  have upd: "turns st n (f wc') ws (wc_upd n f st')" if "turns st n wc' ws st'" "wc_find n st' \<noteq> None" "\<And>wc. wc_name (f wc) = wc_name wc" for wc' ws st' f
    using turns_trans [OF that(1) turns_upd [of st' n f]] that turns_chan [OF that(1)] by auto
  have mark: "turns st n wc' (?W is ws) (fold cmdq_continue is st')" if "turns st n wc' ws st'" for wc' ws st' "is"
    using turns_marked [OF that] turns_chan [OF that] by (simp add: continue_all)
  let ?st1 = "fold cmdq_continue (wc_waiters wc) st" let ?st2 = "wc_upd n (wc_waiters_update (\<lambda>_. [])) ?st1"
  let ?st3 = "wc_upd n (wc_woken_update (\<lambda>_. True)) ?st2" let ?st4 = "fold cmdq_continue (wc_lockers wc) ?st3"
  let ?st5 = "wc_upd n (wc_lockers_update (\<lambda>_. [])) ?st4" let ?st6 = "wc_upd n (wc_locked_update (\<lambda>_. False)) ?st5"
  have found: "wc_find n ?st1 \<noteq> None" "wc_find n ?st2 \<noteq> None" "wc_find n ?st4 \<noteq> None" "wc_find n ?st5 \<noteq> None"
    using Some by (simp_all add: continue_all find_upd)
  let ?ws = "?W (wc_lockers wc) (?W (wc_waiters wc) (waiting st))"
  have t1: "turns st n wc (?W (wc_waiters wc) (waiting st)) ?st1" using mark turns_refl [OF assms, of n] wc(1) by simp
  have t2: "turns st n (wc\<lparr>wc_waiters := []\<rparr>) (?W (wc_waiters wc) (waiting st)) ?st2" using upd [OF t1 found(1)] by simp
  have t3: "turns st n (wc\<lparr>wc_waiters := [], wc_woken := True\<rparr>) (?W (wc_waiters wc) (waiting st)) ?st3" using upd [OF t2 found(2)] by simp
  have t4: "turns st n (wc\<lparr>wc_waiters := [], wc_woken := True\<rparr>) ?ws ?st4" using mark [OF t3] .
  have t5: "turns st n (wc\<lparr>wc_waiters := [], wc_woken := True, wc_lockers := []\<rparr>) ?ws ?st5" using upd [OF t4 found(3)] by simp
  have t6: "turns st n (wc\<lparr>wc_waiters := [], wc_woken := True, wc_lockers := [], wc_locked := False\<rparr>) ?ws ?st6"
    using upd [OF t5 found(4)] by simp
  have "turns st n (new_channel n) ?ws (cmd_wait_for_remove n ?st6)"
    using turns_trans [OF t6 turns_remove [of ?st6 n]] turns_chan [OF t6] wc(2) by (simp add: settled_def)
  moreover have "?ws = filter (\<lambda>j. j \<notin> set (queued st n)) (waiting st)"
    using wc(1) by (auto simp: queued_def intro: filter_cong)
  ultimately show ?thesis using Some by (simp add: flush_channel_def Let_def)
qed

lemma flush_all:
  assumes "channels_ok st"
  shows "channels_ok (fold flush_channel ns st) \<and> chan (fold flush_channel ns st) = (\<lambda>m. if m \<in> set ns then new_channel m else chan st m) \<and>
     set (waiting (fold flush_channel ns st)) = {i \<in> set (waiting st). \<forall>n \<in> set ns. i \<notin> set (queued st n)}"
  using assms
proof (induction ns arbitrary: st)
  case (Cons n ns)
  have t: "channels_ok (flush_channel n st)" "chan (flush_channel n st) = (chan st)(n := new_channel n)"
      "waiting (flush_channel n st) = filter (\<lambda>j. j \<notin> set (queued st n)) (waiting st)"
    using flush_turns [OF Cons.prems, of n] by (simp_all add: turns_def)
  have "queued (flush_channel n st) m = (if m = n then [] else queued st m)" for m
    using t(2) by (simp add: queued_def new_channel_def)
  then show ?case using Cons.IH [OF t(1)] t by (auto simp: fun_eq_iff)
qed simp

lemma flush_result:
  assumes "waits_ok st"
  shows "waits_ok (cmd_wait_for_flush st) \<and> chan (cmd_wait_for_flush st) = new_channel \<and> waiting (cmd_wait_for_flush st) = []"
proof -
  have new: "chan st m = new_channel m" if "m \<notin> set (map wc_name (wait_channels st))" for m
    using that by (auto simp: chan_def wc_find_def split: option.split dest: rb_find_SomeD)
  have ok: "channels_ok st" using assms by (simp add: waits_ok_def)
  note f = flush_all [OF ok, of "map wc_name (wait_channels st)", folded cmd_wait_for_flush_def]
  then have c: "chan (cmd_wait_for_flush st) = new_channel" using new by (auto simp: fun_eq_iff)
  have "i \<notin> set (waiting (cmd_wait_for_flush st))" for i
  proof
    assume i: "i \<in> set (waiting (cmd_wait_for_flush st))"
    then obtain n where n: "i \<in> set (queued st n)" using f assms by (auto simp: waits_ok_def)
    then have "chan st n \<noteq> new_channel n" by (auto simp: queued_def new_channel_def)
    then have "n \<in> set (map wc_name (wait_channels st))" using new by blast
    with i n f show False by auto
  qed
  then have w: "waiting (cmd_wait_for_flush st) = []" by (metis list.set_intros(1) neq_Nil_conv)
  show ?thesis using f c w by (simp add: waits_ok_def queued_def new_channel_def channel_ok_def)
qed

lemma wait_step_ok:
  assumes "waits_ok st" "cmd_item c \<notin> set (waiting st)"
  shows "waits_ok (wait_step c st)"
proof (cases "flush_free c")
  case True
  let ?wc = "chan st (channel c)"
  have ok: "channels_ok st" "channel_ok ?wc" using assms(1) by (simp_all add: waits_ok_def)
  have fresh: "cmd_item c \<notin> set (wc_waiters ?wc @ wc_lockers ?wc)"
    using assms by (auto simp: waits_ok_def queued_def)
  have "set (leaving c ?wc) \<subseteq> set (queued st (channel c))"
    by (cases c) (auto simp: queued_def dest: in_set_takeD)
  moreover have "set (joining c ?wc) \<inter> set (waiting st) = {}" using assms(2) by (cases c) auto
  moreover note step = step_turns [OF ok(1) True]
  moreover from turns_chan [OF step]
  have "set (waiting (wait_step c st)) = set (waiting st) - set (leaving c ?wc) \<union> set (joining c ?wc)" by auto
  ultimately show ?thesis
    using waits_ok_turns [OF assms(1) step channel_ok_turned(1) [OF ok(2) fresh True], of "set (leaving c ?wc)" "set (joining c ?wc)"
        "waiting (wait_step c st)"] channel_ok_turned(2) [OF ok(2) fresh True]
    by (simp add: queued_def)
next
  case False
  then show ?thesis using flush_result [OF assms(1)] by (cases c) (auto simp: flush_free_def)
qed

section \<open>Who goes on, and when\<close>

definition run_waits :: "wait_cmd list \<Rightarrow> waits \<Rightarrow> waits" where
  "run_waits cs st = fold wait_step cs st"

text \<open>Every item runs its command once, so none of the items is one that waits already.\<close>

definition fresh_items :: "wait_cmd list \<Rightarrow> waits \<Rightarrow> bool" where
  "fresh_items cs st \<longleftrightarrow> distinct (map cmd_item cs) \<and> set (map cmd_item cs) \<inter> set (waiting st) = {}"

fun signals :: "string \<Rightarrow> wait_cmd \<Rightarrow> bool" where
  "signals n (Signal _ m) = (m = n)"
| "signals n (Flush _) = True"
| "signals n _ = False"

fun unlocks :: "string \<Rightarrow> wait_cmd \<Rightarrow> bool" where
  "unlocks n (Unlock _ m) = (m = n)"
| "unlocks n _ = False"

lemma waiting_step:
  assumes "waits_ok st"
  shows "set (waiting (wait_step c st)) \<subseteq> insert (cmd_item c) (set (waiting st))"
proof (cases "flush_free c")
  case True
  have "set (joining c wc) \<subseteq> {cmd_item c}" for wc by (cases c) auto
  then show ?thesis
    using turns_chan [OF step_turns [OF _ True, of st]] assms by (force simp: waits_ok_def)
next
  case False
  then show ?thesis using flush_result [OF assms] by (cases c) (auto simp: flush_free_def)
qed

lemma fresh_step:
  assumes "waits_ok st" "fresh_items (c # cs) st"
  shows "waits_ok (wait_step c st)" "fresh_items cs (wait_step c st)"
proof -
  have f: "cmd_item c \<notin> set (waiting st)" "cmd_item c \<notin> set (map cmd_item cs)" "distinct (map cmd_item cs)"
      "set (map cmd_item cs) \<inter> set (waiting st) = {}"
    using assms(2) by (auto simp: fresh_items_def)
  show "waits_ok (wait_step c st)" using wait_step_ok [OF assms(1) f(1)] .
  show "fresh_items cs (wait_step c st)" using waiting_step [OF assms(1), of c] f(2-4) unfolding fresh_items_def by blast
qed

lemma fresh_stays_out:
  "waits_ok st \<Longrightarrow> fresh_items cs st \<Longrightarrow> i \<notin> set (waiting st) \<Longrightarrow> i \<notin> cmd_item ` set cs \<Longrightarrow> i \<notin> set (waiting (run_waits cs st))"
proof (induction cs arbitrary: st)
  case (Cons c cs)
  then have "i \<notin> set (waiting (wait_step c st))" using waiting_step [OF Cons.prems(1), of c] by auto
  then show ?case using Cons fresh_step [OF Cons.prems(1,2)] by (simp add: run_waits_def)
qed (simp add: run_waits_def)

text \<open>The step of an item that waits for a signal, and of one that waits for a lock.\<close>

lemma waiter_step:
  assumes "waits_ok st" "cmd_item c \<notin> set (waiting st)" "i \<in> set (wc_waiters (chan st n))"
  shows "if signals n c then i \<notin> set (waiting (wait_step c st)) else i \<in> set (wc_waiters (chan (wait_step c st) n))"
proof (cases "flush_free c")
  case True
  have "channels_ok st" and wc: "channel_ok (chan st (channel c))" using assms(1) by (simp_all add: waits_ok_def)
  then have t: "turns st (channel c) (turned c (chan st (channel c)))
      (joining c (chan st (channel c)) @ filter (\<lambda>j. j \<notin> set (leaving c (chan st (channel c)))) (waiting st)) (wait_step c st)"
    using step_turns True by blast
  show ?thesis
  proof (cases "channel c = n")
    case True
    then show ?thesis using t wc assms(2,3)
      by (cases c) (auto simp: turns_def settled_def channel_ok_def unlocked_def split: list.split)
  next
    case False
    then have "\<not> signals n c" using \<open>flush_free c\<close> by (cases c) (auto simp: flush_free_def)
    then show ?thesis using t assms(3) False by (simp add: turns_def)
  qed
next
  case False
  then show ?thesis using flush_result [OF assms(1)] by (cases c) (auto simp: flush_free_def)
qed

lemma locker_step:
  assumes "waits_ok st" "cmd_item c \<notin> set (waiting st)" "wc_lockers (chan st n) = js @ i # ks" "flush_free c"
  shows "if unlocks n c then (case js of [] \<Rightarrow> i \<notin> set (waiting (wait_step c st))
      | _ # js' \<Rightarrow> wc_lockers (chan (wait_step c st) n) = js' @ i # ks)
    else \<exists>ks'. wc_lockers (chan (wait_step c st) n) = js @ i # ks'"
proof -
  have "channels_ok st" and wc: "channel_ok (chan st (channel c))" using assms(1) by (simp_all add: waits_ok_def)
  then have t: "turns st (channel c) (turned c (chan st (channel c)))
      (joining c (chan st (channel c)) @ filter (\<lambda>j. j \<notin> set (leaving c (chan st (channel c)))) (waiting st)) (wait_step c st)"
    using step_turns assms(4) by blast
  show ?thesis
  proof (cases "channel c = n")
    case True
    then show ?thesis using t wc assms(2-4)
      by (cases c; cases js) (auto simp: turns_def settled_def signalled_def channel_ok_def unlocked_def flush_free_def split: if_splits)
  next
    case False
    then have "\<not> unlocks n c" using assms(4) by (cases c) (auto simp: flush_free_def)
    then show ?thesis using t assms(3) False by (simp add: turns_def)
  qed
qed

lemma waiter_run:
  "waits_ok st \<Longrightarrow> fresh_items cs st \<Longrightarrow> i \<in> set (wc_waiters (chan st n)) \<Longrightarrow>
     i \<in> set (waiting (run_waits cs st)) \<longleftrightarrow> (\<forall>c \<in> set cs. \<not> signals n c)"
proof (induction cs arbitrary: st)
  case Nil
  then show ?case by (auto simp: run_waits_def waits_ok_def queued_def)
next
  case (Cons c cs)
  have i: "i \<in> set (waiting st)" using Cons.prems by (auto simp: waits_ok_def queued_def)
  have c: "cmd_item c \<notin> set (waiting st)" "i \<notin> cmd_item ` set cs" using Cons.prems(2) i by (auto simp: fresh_items_def)
  note next_ok = fresh_step [OF Cons.prems(1,2)] and st = waiter_step [OF Cons.prems(1) c(1) Cons.prems(3)]
  have run: "run_waits (c # cs) st = run_waits cs (wait_step c st)" by (simp add: run_waits_def)
  show ?case
  proof (cases "signals n c")
    case True
    then show ?thesis using st fresh_stays_out [OF next_ok _ c(2)] by (simp add: run)
  next
    case False
    then show ?thesis using st Cons.IH [OF next_ok] by (simp add: run)
  qed
qed

lemma locker_run:
  "waits_ok st \<Longrightarrow> fresh_items cs st \<Longrightarrow> wc_lockers (chan st n) = js @ i # ks \<Longrightarrow>
     i \<in> set (waiting (run_waits cs st)) \<longleftrightarrow> (\<forall>c \<in> set cs. flush_free c) \<and> length (filter (unlocks n) cs) \<le> length js"
proof (induction cs arbitrary: st js ks)
  case Nil
  then have "i \<in> set (queued st n)" by (simp add: queued_def)
  then show ?case using Nil.prems(1) by (auto simp: run_waits_def waits_ok_def)
next
  case (Cons c cs)
  have "i \<in> set (queued st n)" using Cons.prems(3) by (simp add: queued_def)
  then have i: "i \<in> set (waiting st)" using Cons.prems(1) by (auto simp: waits_ok_def)
  have c: "cmd_item c \<notin> set (waiting st)" "i \<notin> cmd_item ` set cs" using Cons.prems(2) i by (auto simp: fresh_items_def)
  note next_ok = fresh_step [OF Cons.prems(1,2)] and out = fresh_stays_out [OF fresh_step [OF Cons.prems(1,2)] _ c(2)]
  have run: "run_waits (c # cs) st = run_waits cs (wait_step c st)" by (simp add: run_waits_def)
  show ?case
  proof (cases "flush_free c")
    case False
    then have "i \<notin> set (waiting (wait_step c st))"
      using flush_result [OF Cons.prems(1)] by (cases c) (auto simp: flush_free_def)
    then show ?thesis using out False by (simp add: run)
  next
    case True
    note st = locker_step [OF Cons.prems(1) c(1) Cons.prems(3) True]
    show ?thesis
    proof (cases "unlocks n c")
      case False
      then show ?thesis using st Cons.IH [OF next_ok] True by (auto simp: run)
    next
      case un: True
      then show ?thesis using st out Cons.IH [OF next_ok] True by (cases js) (auto simp: run)
    qed
  qed
qed

text \<open>
  C10. Waiting ends exactly when it should, whatever the other commands on this and on other channels
  do in between: an item that waits on a channel goes on at the first signal to the channel and not
  before; an item that waits for the lock behind \<open>js\<close> goes on when the channel has been unlocked
  once more than there are items in front of it, in the order of the queue; and a flush lets
  everything go on.
\<close>

theorem wait_for_live:
  assumes "waits_ok st" "fresh_items cs st"
  shows "(i \<in> set (wc_waiters (chan st n)) \<longrightarrow>
       (i \<in> set (waiting (run_waits cs st)) \<longleftrightarrow> (\<forall>c \<in> set cs. \<not> signals n c))) \<and>
     (wc_lockers (chan st n) = js @ i # ks \<longrightarrow>
       (i \<in> set (waiting (run_waits cs st)) \<longleftrightarrow> (\<forall>c \<in> set cs. flush_free c) \<and> length (filter (unlocks n) cs) \<le> length js))"
  using waiter_run [OF assms] locker_run [OF assms] by blast

text \<open>
  C11. The queues stay consistent: starting without channels, after any commands of new items every
  waiting item is in exactly one queue, at most once, nothing else waits, a channel with items that
  want its lock is locked, and one with items that wait is not woken.
\<close>

theorem wait_for_consistent:
  assumes "fresh_items cs \<lparr>wait_channels = [], waiting = []\<rparr>"
  shows "waits_ok (run_waits cs \<lparr>wait_channels = [], waiting = []\<rparr>)"
proof -
  have "waits_ok (run_waits cs st)" if "waits_ok st" "fresh_items cs st" for cs st
    using that
  proof (induction cs arbitrary: st)
    case (Cons c cs)
    then show ?case using fresh_step [OF Cons.prems] by (simp add: run_waits_def)
  qed (simp add: run_waits_def)
  moreover have "waits_ok \<lparr>wait_channels = [], waiting = []\<rparr>"
    by (simp add: waits_ok_def channels_ok_def rb_ordered_def chan_def wc_find_def rb_find_def queued_def new_channel_def channel_ok_def)
  ultimately show ?thesis using assms by blast
qed

text \<open>
  A wakeup can get lost: a second signal to a channel that nobody waits on takes the channel away,
  and so does giving back the lock of a channel that was signalled meanwhile; in both cases an item
  that waits afterwards is not woken by the signal it missed.
\<close>

theorem wait_for_lost_wakeup:
  fixes n :: string
  defines "st \<equiv> \<lparr>wait_channels = [], waiting = []\<rparr>"
  shows "waiting (run_waits [Signal 1 n, Wait 2 True n] st) = [] \<and>
    waiting (run_waits [Signal 1 n, Signal 2 n, Wait 3 True n] st) = [3] \<and>
    waiting (run_waits [Lock 1 True n, Signal 2 n, Unlock 3 n, Wait 4 True n] st) = [4]"
  by (simp add: run_waits_def st_def cmd_wait_for_exec_def cmd_wait_for_signal_def cmd_wait_for_wait_def cmd_wait_for_lock_def
      cmd_wait_for_unlock_def the_channel_def wc_find_def rb_find_def cmd_wait_for_add_def new_channel_def wc_upd_def
      cmd_wait_for_remove_def rb_remove_def cmdq_fire_def)

definition demo_waits :: waits where
  "demo_waits = \<lparr>wait_channels = [\<lparr>wc_name = ''a'', wc_locked = True, wc_woken = False, wc_waiters = [], wc_lockers = [2, 3]\<rparr>,
      \<lparr>wc_name = ''b'', wc_locked = False, wc_woken = False, wc_waiters = [4], wc_lockers = []\<rparr>], waiting = [4, 3, 2]\<rparr>"

lemma demo_chan: "chan demo_waits m = (if m = ''a'' then hd (wait_channels demo_waits)
    else if m = ''b'' then hd (tl (wait_channels demo_waits)) else new_channel m)"
  by (auto simp: chan_def wc_find_def rb_find_def demo_waits_def)

lemma demo_waits_ok: "waits_ok demo_waits"
proof -
  have ord: "channels_ok demo_waits" by (simp add: channels_ok_def rb_ordered_def demo_waits_def)
  have ok: "channel_ok (chan demo_waits m)" for m
    unfolding demo_chan by (simp add: channel_ok_def demo_waits_def new_channel_def)
  have q: "queued demo_waits m = (if m = ''a'' then [2, 3] else if m = ''b'' then [4] else [])" for m
    unfolding queued_def demo_chan by (simp add: demo_waits_def new_channel_def)
  have mem: "i \<in> set (queued demo_waits m) \<longleftrightarrow> m = ''a'' \<and> i \<in> {2, 3} \<or> m = ''b'' \<and> i = 4" for i m
    unfolding q by auto
  have one: "n = m" if "i \<in> set (queued demo_waits n) \<and> i \<in> set (queued demo_waits m)" for n m i
    using that unfolding mem by auto
  have "i \<in> set (waiting demo_waits) \<longleftrightarrow> i = 4 \<or> i \<in> {2, 3}" for i by (auto simp: demo_waits_def)
  then have "i \<in> set (waiting demo_waits) \<longleftrightarrow> (\<exists>n. i \<in> set (queued demo_waits n))" for i unfolding mem by blast
  then show ?thesis unfolding waits_ok_def using ord ok one by (intro conjI allI impI)
qed

theorem wait_for_live_witness:
  "3 \<in> set (waiting (run_waits [Unlock 5 ''a'', Signal 6 ''a''] demo_waits)) \<and>
   3 \<notin> set (waiting (run_waits [Unlock 5 ''a'', Signal 6 ''b'', Unlock 7 ''a''] demo_waits)) \<and>
   4 \<notin> set (waiting (run_waits [Unlock 5 ''a'', Signal 6 ''b'', Unlock 7 ''a''] demo_waits))"
proof -
  have f: "fresh_items [Unlock 5 ''a'', Signal 6 ''a''] demo_waits"
      "fresh_items [Unlock 5 ''a'', Signal 6 ''b'', Unlock 7 ''a''] demo_waits"
    by (simp_all add: fresh_items_def demo_waits_def)
  have q: "wc_lockers (chan demo_waits ''a'') = [2] @ 3 # []" "4 \<in> set (wc_waiters (chan demo_waits ''b''))"
    unfolding demo_chan by (simp_all add: demo_waits_def)
  show ?thesis
    using wait_for_live [OF demo_waits_ok f(1), THEN conjunct2, THEN mp, OF q(1)]
      wait_for_live [OF demo_waits_ok f(2), THEN conjunct2, THEN mp, OF q(1)]
      wait_for_live [OF demo_waits_ok f(2), THEN conjunct1, THEN mp, OF q(2)]
    by (simp add: flush_free_def)
qed

theorem wait_for_consistent_witness:
  "waits_ok (run_waits [Lock 1 True ''a'', Lock 2 True ''a'', Wait 3 True ''b'', Unlock 4 ''a''] \<lparr>wait_channels = [], waiting = []\<rparr>)"
  by (rule wait_for_consistent) (simp add: fresh_items_def)

end
