(* ===== verification/Colour.thy ===== *)
theory Colour
  imports Grid Cstring "HOL-Library.Signed_Division"
begin

text \<open>
  Colours, \<^verbatim>\<open>terminal/colour.c\<close>: a colour is an \<^verbatim>\<open>int\<close>, here its 32 bits, with a flag for an RGB triplet
  and one for an entry of the palette of 256; \<open>-1\<close> (all bits) is no colour. The tables and names are
  those of the source.
\<close>

section \<open>RGB and the palette\<close>

definition colour_dist_sq :: "int \<Rightarrow> int \<Rightarrow> int \<Rightarrow> int \<Rightarrow> int \<Rightarrow> int \<Rightarrow> int" where
  "colour_dist_sq R G B r g b = (R - r) * (R - r) + (G - g) * (G - g) + (B - b) * (B - b)"

definition colour_to_6cube :: "int \<Rightarrow> int" where
  "colour_to_6cube v = (if v < 48 then 0 else if v < 114 then 1 else (v - 35) sdiv 40)"

definition q2c :: "int list" where
  "q2c = [0x00, 0x5f, 0x87, 0xaf, 0xd7, 0xff]"

definition colour_find_rgb :: "u8 \<Rightarrow> u8 \<Rightarrow> u8 \<Rightarrow> u32" where
  "colour_find_rgb r g b =
     (let qr = colour_to_6cube (uint r); cr = q2c ! nat qr;
          qg = colour_to_6cube (uint g); cg = q2c ! nat qg;
          qb = colour_to_6cube (uint b); cb = q2c ! nat qb
      in if cr = uint r \<and> cg = uint g \<and> cb = uint b
         then word_of_int (16 + 36 * qr + 6 * qg + qb) OR COLOUR_FLAG_256
         else
           (let grey_avg = (uint r + uint g + uint b) sdiv 3;
                grey_idx = (if grey_avg > 238 then 23 else (grey_avg - 3) sdiv 10);
                grey = 8 + 10 * grey_idx;
                d = colour_dist_sq cr cg cb (uint r) (uint g) (uint b);
                idx = (if colour_dist_sq grey grey grey (uint r) (uint g) (uint b) < d then 232 + grey_idx
                       else 16 + 36 * qr + 6 * qg + qb)
            in word_of_int idx OR COLOUR_FLAG_256))"

definition colour_join_rgb :: "u8 \<Rightarrow> u8 \<Rightarrow> u8 \<Rightarrow> u32" where
  "colour_join_rgb r g b = push_bit 16 (ucast r) OR push_bit 8 (ucast g) OR ucast b OR COLOUR_FLAG_RGB"

definition colour_split_rgb :: "u32 \<Rightarrow> u8 \<times> u8 \<times> u8" where
  "colour_split_rgb c = (ucast (drop_bit 16 c AND 0xff), ucast (drop_bit 8 c AND 0xff), ucast (c AND 0xff))"

definition colour_256toRGB_table :: "u32 list" where
  "colour_256toRGB_table =
    [0x000000, 0x800000, 0x008000, 0x808000, 0x000080, 0x800080, 0x008080, 0xc0c0c0, 0x808080, 0xff0000, 0x00ff00, 0xffff00,
     0x0000ff, 0xff00ff, 0x00ffff, 0xffffff, 0x000000, 0x00005f, 0x000087, 0x0000af, 0x0000d7, 0x0000ff, 0x005f00, 0x005f5f,
     0x005f87, 0x005faf, 0x005fd7, 0x005fff, 0x008700, 0x00875f, 0x008787, 0x0087af, 0x0087d7, 0x0087ff, 0x00af00, 0x00af5f,
     0x00af87, 0x00afaf, 0x00afd7, 0x00afff, 0x00d700, 0x00d75f, 0x00d787, 0x00d7af, 0x00d7d7, 0x00d7ff, 0x00ff00, 0x00ff5f,
     0x00ff87, 0x00ffaf, 0x00ffd7, 0x00ffff, 0x5f0000, 0x5f005f, 0x5f0087, 0x5f00af, 0x5f00d7, 0x5f00ff, 0x5f5f00, 0x5f5f5f,
     0x5f5f87, 0x5f5faf, 0x5f5fd7, 0x5f5fff, 0x5f8700, 0x5f875f, 0x5f8787, 0x5f87af, 0x5f87d7, 0x5f87ff, 0x5faf00, 0x5faf5f,
     0x5faf87, 0x5fafaf, 0x5fafd7, 0x5fafff, 0x5fd700, 0x5fd75f, 0x5fd787, 0x5fd7af, 0x5fd7d7, 0x5fd7ff, 0x5fff00, 0x5fff5f,
     0x5fff87, 0x5fffaf, 0x5fffd7, 0x5fffff, 0x870000, 0x87005f, 0x870087, 0x8700af, 0x8700d7, 0x8700ff, 0x875f00, 0x875f5f,
     0x875f87, 0x875faf, 0x875fd7, 0x875fff, 0x878700, 0x87875f, 0x878787, 0x8787af, 0x8787d7, 0x8787ff, 0x87af00, 0x87af5f,
     0x87af87, 0x87afaf, 0x87afd7, 0x87afff, 0x87d700, 0x87d75f, 0x87d787, 0x87d7af, 0x87d7d7, 0x87d7ff, 0x87ff00, 0x87ff5f,
     0x87ff87, 0x87ffaf, 0x87ffd7, 0x87ffff, 0xaf0000, 0xaf005f, 0xaf0087, 0xaf00af, 0xaf00d7, 0xaf00ff, 0xaf5f00, 0xaf5f5f,
     0xaf5f87, 0xaf5faf, 0xaf5fd7, 0xaf5fff, 0xaf8700, 0xaf875f, 0xaf8787, 0xaf87af, 0xaf87d7, 0xaf87ff, 0xafaf00, 0xafaf5f,
     0xafaf87, 0xafafaf, 0xafafd7, 0xafafff, 0xafd700, 0xafd75f, 0xafd787, 0xafd7af, 0xafd7d7, 0xafd7ff, 0xafff00, 0xafff5f,
     0xafff87, 0xafffaf, 0xafffd7, 0xafffff, 0xd70000, 0xd7005f, 0xd70087, 0xd700af, 0xd700d7, 0xd700ff, 0xd75f00, 0xd75f5f,
     0xd75f87, 0xd75faf, 0xd75fd7, 0xd75fff, 0xd78700, 0xd7875f, 0xd78787, 0xd787af, 0xd787d7, 0xd787ff, 0xd7af00, 0xd7af5f,
     0xd7af87, 0xd7afaf, 0xd7afd7, 0xd7afff, 0xd7d700, 0xd7d75f, 0xd7d787, 0xd7d7af, 0xd7d7d7, 0xd7d7ff, 0xd7ff00, 0xd7ff5f,
     0xd7ff87, 0xd7ffaf, 0xd7ffd7, 0xd7ffff, 0xff0000, 0xff005f, 0xff0087, 0xff00af, 0xff00d7, 0xff00ff, 0xff5f00, 0xff5f5f,
     0xff5f87, 0xff5faf, 0xff5fd7, 0xff5fff, 0xff8700, 0xff875f, 0xff8787, 0xff87af, 0xff87d7, 0xff87ff, 0xffaf00, 0xffaf5f,
     0xffaf87, 0xffafaf, 0xffafd7, 0xffafff, 0xffd700, 0xffd75f, 0xffd787, 0xffd7af, 0xffd7d7, 0xffd7ff, 0xffff00, 0xffff5f,
     0xffff87, 0xffffaf, 0xffffd7, 0xffffff, 0x080808, 0x121212, 0x1c1c1c, 0x262626, 0x303030, 0x3a3a3a, 0x444444, 0x4e4e4e,
     0x585858, 0x626262, 0x6c6c6c, 0x767676, 0x808080, 0x8a8a8a, 0x949494, 0x9e9e9e, 0xa8a8a8, 0xb2b2b2, 0xbcbcbc, 0xc6c6c6,
     0xd0d0d0, 0xdadada, 0xe4e4e4, 0xeeeeee]"

definition colour_256toRGB :: "u32 \<Rightarrow> u32" where
  "colour_256toRGB c = colour_256toRGB_table ! unat (c AND 0xff) OR COLOUR_FLAG_RGB"

definition colour_256to16_table :: "u32 list" where
  "colour_256to16_table =
    [0, 1, 2, 3, 4, 5, 6, 7, 8, 9, 10, 11, 12, 13, 14, 15, 0, 4, 4, 4, 12, 12, 2, 6,
     4, 4, 12, 12, 2, 2, 6, 4, 12, 12, 2, 2, 2, 6, 12, 12, 10, 10, 10, 10, 14, 12, 10, 10,
     10, 10, 10, 14, 1, 5, 4, 4, 12, 12, 3, 8, 4, 4, 12, 12, 2, 2, 6, 4, 12, 12, 2, 2,
     2, 6, 12, 12, 10, 10, 10, 10, 14, 12, 10, 10, 10, 10, 10, 14, 1, 1, 5, 4, 12, 12, 1, 1,
     5, 4, 12, 12, 3, 3, 8, 4, 12, 12, 2, 2, 2, 6, 12, 12, 10, 10, 10, 10, 14, 12, 10, 10,
     10, 10, 10, 14, 1, 1, 1, 5, 12, 12, 1, 1, 1, 5, 12, 12, 1, 1, 1, 5, 12, 12, 3, 3,
     3, 7, 12, 12, 10, 10, 10, 10, 14, 12, 10, 10, 10, 10, 10, 14, 9, 9, 9, 9, 13, 12, 9, 9,
     9, 9, 13, 12, 9, 9, 9, 9, 13, 12, 9, 9, 9, 9, 13, 12, 11, 11, 11, 11, 7, 12, 10, 10,
     10, 10, 10, 14, 9, 9, 9, 9, 9, 13, 9, 9, 9, 9, 9, 13, 9, 9, 9, 9, 9, 13, 9, 9,
     9, 9, 9, 13, 9, 9, 9, 9, 9, 13, 11, 11, 11, 11, 11, 15, 0, 0, 0, 0, 0, 0, 8, 8,
     8, 8, 8, 8, 7, 7, 7, 7, 7, 7, 15, 15, 15, 15, 15, 15]"

definition colour_256to16 :: "u32 \<Rightarrow> u32" where
  "colour_256to16 c = colour_256to16_table ! unat (c AND 0xff)"

text \<open>The comparisons \<^verbatim>\<open>0 <= c <= 7\<close> and \<^verbatim>\<open>90 <= c <= 97\<close> of the \<^verbatim>\<open>int\<close> are those of the word.\<close>

definition colour_force_rgb :: "u32 \<Rightarrow> u32" where
  "colour_force_rgb c =
     (if c AND COLOUR_FLAG_RGB \<noteq> 0 then c
      else if c AND COLOUR_FLAG_256 \<noteq> 0 then colour_256toRGB c
      else if c \<le> 7 then colour_256toRGB c
      else if 90 \<le> c \<and> c \<le> 97 then colour_256toRGB (8 + c - 90)
      else - 1)"

datatype client_theme = THEME_UNKNOWN | THEME_LIGHT | THEME_DARK

definition rgb_theme :: "u32 \<Rightarrow> client_theme" where
  "rgb_theme c =
     (let brightness = uint (drop_bit 16 c AND 0xff) + uint (drop_bit 8 c AND 0xff) + uint (c AND 0xff)
      in if brightness > 382 then THEME_LIGHT else THEME_DARK)"

text \<open>The recursive calls are on RGB colours.\<close>

definition colour_totheme :: "u32 \<Rightarrow> client_theme" where
  "colour_totheme c =
     (if c = - 1 then THEME_UNKNOWN
      else if c AND COLOUR_FLAG_RGB \<noteq> 0 then rgb_theme c
      else if c AND COLOUR_FLAG_256 \<noteq> 0 then rgb_theme (colour_256toRGB c)
      else if c = 0 \<or> c = 90 then THEME_DARK
      else if c = 7 \<or> c = 97 then THEME_LIGHT
      else if c \<le> 7 then rgb_theme (colour_256toRGB c)
      else if 90 \<le> c \<and> c \<le> 97 then rgb_theme (colour_256toRGB (8 + c - 90))
      else THEME_UNKNOWN)"

section \<open>Strings\<close>

definition show_hex2 :: "u8 \<Rightarrow> string" where
  "show_hex2 w = [hex_char (unat w div 16), hex_char (unat w mod 16)]"

definition colour_tostring :: "u32 \<Rightarrow> string" where
  "colour_tostring c =
     (if c = - 1 then ''none''
      else if c AND COLOUR_FLAG_RGB \<noteq> 0 then
        (case colour_split_rgb c of (r, g, b) \<Rightarrow> CHR ''#'' # show_hex2 r @ show_hex2 g @ show_hex2 b)
      else if c AND COLOUR_FLAG_256 \<noteq> 0 then ''colour'' @ show_nat (unat (c AND 0xff))
      else if c = 0 then ''black''
      else if c = 1 then ''red''
      else if c = 2 then ''green''
      else if c = 3 then ''yellow''
      else if c = 4 then ''blue''
      else if c = 5 then ''magenta''
      else if c = 6 then ''cyan''
      else if c = 7 then ''white''
      else if c = 8 then ''default''
      else if c = 9 then ''terminal''
      else if c = 90 then ''brightblack''
      else if c = 91 then ''brightred''
      else if c = 92 then ''brightgreen''
      else if c = 93 then ''brightyellow''
      else if c = 94 then ''brightblue''
      else if c = 95 then ''brightmagenta''
      else if c = 96 then ''brightcyan''
      else if c = 97 then ''brightwhite''
      else ''invalid'')"

definition colours :: "(string \<times> u32) list" where
  "colours =
    [(''AliceBlue'', 0xf0f8ff), (''AntiqueWhite'', 0xfaebd7), (''AntiqueWhite1'', 0xffefdb), (''AntiqueWhite2'', 0xeedfcc),
     (''AntiqueWhite3'', 0xcdc0b0), (''AntiqueWhite4'', 0x8b8378), (''BlanchedAlmond'', 0xffebcd), (''BlueViolet'', 0x8a2be2),
     (''CadetBlue'', 0x5f9ea0), (''CadetBlue1'', 0x98f5ff), (''CadetBlue2'', 0x8ee5ee), (''CadetBlue3'', 0x7ac5cd),
     (''CadetBlue4'', 0x53868b), (''CornflowerBlue'', 0x6495ed), (''DarkBlue'', 0x00008b), (''DarkCyan'', 0x008b8b),
     (''DarkGoldenrod'', 0xb8860b), (''DarkGoldenrod1'', 0xffb90f), (''DarkGoldenrod2'', 0xeead0e), (''DarkGoldenrod3'', 0xcd950c),
     (''DarkGoldenrod4'', 0x8b6508), (''DarkGray'', 0xa9a9a9), (''DarkGreen'', 0x006400), (''DarkGrey'', 0xa9a9a9),
     (''DarkKhaki'', 0xbdb76b), (''DarkMagenta'', 0x8b008b), (''DarkOliveGreen'', 0x556b2f), (''DarkOliveGreen1'', 0xcaff70),
     (''DarkOliveGreen2'', 0xbcee68), (''DarkOliveGreen3'', 0xa2cd5a), (''DarkOliveGreen4'', 0x6e8b3d), (''DarkOrange'', 0xff8c00),
     (''DarkOrange1'', 0xff7f00), (''DarkOrange2'', 0xee7600), (''DarkOrange3'', 0xcd6600), (''DarkOrange4'', 0x8b4500),
     (''DarkOrchid'', 0x9932cc), (''DarkOrchid1'', 0xbf3eff), (''DarkOrchid2'', 0xb23aee), (''DarkOrchid3'', 0x9a32cd),
     (''DarkOrchid4'', 0x68228b), (''DarkRed'', 0x8b0000), (''DarkSalmon'', 0xe9967a), (''DarkSeaGreen'', 0x8fbc8f),
     (''DarkSeaGreen1'', 0xc1ffc1), (''DarkSeaGreen2'', 0xb4eeb4), (''DarkSeaGreen3'', 0x9bcd9b), (''DarkSeaGreen4'', 0x698b69),
     (''DarkSlateBlue'', 0x483d8b), (''DarkSlateGray'', 0x2f4f4f), (''DarkSlateGray1'', 0x97ffff), (''DarkSlateGray2'', 0x8deeee),
     (''DarkSlateGray3'', 0x79cdcd), (''DarkSlateGray4'', 0x528b8b), (''DarkSlateGrey'', 0x2f4f4f), (''DarkTurquoise'', 0x00ced1),
     (''DarkViolet'', 0x9400d3), (''DeepPink'', 0xff1493), (''DeepPink1'', 0xff1493), (''DeepPink2'', 0xee1289),
     (''DeepPink3'', 0xcd1076), (''DeepPink4'', 0x8b0a50), (''DeepSkyBlue'', 0x00bfff), (''DeepSkyBlue1'', 0x00bfff),
     (''DeepSkyBlue2'', 0x00b2ee), (''DeepSkyBlue3'', 0x009acd), (''DeepSkyBlue4'', 0x00688b), (''DimGray'', 0x696969),
     (''DimGrey'', 0x696969), (''DodgerBlue'', 0x1e90ff), (''DodgerBlue1'', 0x1e90ff), (''DodgerBlue2'', 0x1c86ee),
     (''DodgerBlue3'', 0x1874cd), (''DodgerBlue4'', 0x104e8b), (''FloralWhite'', 0xfffaf0), (''ForestGreen'', 0x228b22),
     (''GhostWhite'', 0xf8f8ff), (''GreenYellow'', 0xadff2f), (''HotPink'', 0xff69b4), (''HotPink1'', 0xff6eb4),
     (''HotPink2'', 0xee6aa7), (''HotPink3'', 0xcd6090), (''HotPink4'', 0x8b3a62), (''IndianRed'', 0xcd5c5c),
     (''IndianRed1'', 0xff6a6a), (''IndianRed2'', 0xee6363), (''IndianRed3'', 0xcd5555), (''IndianRed4'', 0x8b3a3a),
     (''LavenderBlush'', 0xfff0f5), (''LavenderBlush1'', 0xfff0f5), (''LavenderBlush2'', 0xeee0e5), (''LavenderBlush3'', 0xcdc1c5),
     (''LavenderBlush4'', 0x8b8386), (''LawnGreen'', 0x7cfc00), (''LemonChiffon'', 0xfffacd), (''LemonChiffon1'', 0xfffacd),
     (''LemonChiffon2'', 0xeee9bf), (''LemonChiffon3'', 0xcdc9a5), (''LemonChiffon4'', 0x8b8970), (''LightBlue'', 0xadd8e6),
     (''LightBlue1'', 0xbfefff), (''LightBlue2'', 0xb2dfee), (''LightBlue3'', 0x9ac0cd), (''LightBlue4'', 0x68838b),
     (''LightCoral'', 0xf08080), (''LightCyan'', 0xe0ffff), (''LightCyan1'', 0xe0ffff), (''LightCyan2'', 0xd1eeee),
     (''LightCyan3'', 0xb4cdcd), (''LightCyan4'', 0x7a8b8b), (''LightGoldenrod'', 0xeedd82), (''LightGoldenrod1'', 0xffec8b),
     (''LightGoldenrod2'', 0xeedc82), (''LightGoldenrod3'', 0xcdbe70), (''LightGoldenrod4'', 0x8b814c), (''LightGoldenrodYellow'', 0xfafad2),
     (''LightGray'', 0xd3d3d3), (''LightGreen'', 0x90ee90), (''LightGrey'', 0xd3d3d3), (''LightPink'', 0xffb6c1),
     (''LightPink1'', 0xffaeb9), (''LightPink2'', 0xeea2ad), (''LightPink3'', 0xcd8c95), (''LightPink4'', 0x8b5f65),
     (''LightSalmon'', 0xffa07a), (''LightSalmon1'', 0xffa07a), (''LightSalmon2'', 0xee9572), (''LightSalmon3'', 0xcd8162),
     (''LightSalmon4'', 0x8b5742), (''LightSeaGreen'', 0x20b2aa), (''LightSkyBlue'', 0x87cefa), (''LightSkyBlue1'', 0xb0e2ff),
     (''LightSkyBlue2'', 0xa4d3ee), (''LightSkyBlue3'', 0x8db6cd), (''LightSkyBlue4'', 0x607b8b), (''LightSlateBlue'', 0x8470ff),
     (''LightSlateGray'', 0x778899), (''LightSlateGrey'', 0x778899), (''LightSteelBlue'', 0xb0c4de), (''LightSteelBlue1'', 0xcae1ff),
     (''LightSteelBlue2'', 0xbcd2ee), (''LightSteelBlue3'', 0xa2b5cd), (''LightSteelBlue4'', 0x6e7b8b), (''LightYellow'', 0xffffe0),
     (''LightYellow1'', 0xffffe0), (''LightYellow2'', 0xeeeed1), (''LightYellow3'', 0xcdcdb4), (''LightYellow4'', 0x8b8b7a),
     (''LimeGreen'', 0x32cd32), (''MediumAquamarine'', 0x66cdaa), (''MediumBlue'', 0x0000cd), (''MediumOrchid'', 0xba55d3),
     (''MediumOrchid1'', 0xe066ff), (''MediumOrchid2'', 0xd15fee), (''MediumOrchid3'', 0xb452cd), (''MediumOrchid4'', 0x7a378b),
     (''MediumPurple'', 0x9370db), (''MediumPurple1'', 0xab82ff), (''MediumPurple2'', 0x9f79ee), (''MediumPurple3'', 0x8968cd),
     (''MediumPurple4'', 0x5d478b), (''MediumSeaGreen'', 0x3cb371), (''MediumSlateBlue'', 0x7b68ee), (''MediumSpringGreen'', 0x00fa9a),
     (''MediumTurquoise'', 0x48d1cc), (''MediumVioletRed'', 0xc71585), (''MidnightBlue'', 0x191970), (''MintCream'', 0xf5fffa),
     (''MistyRose'', 0xffe4e1), (''MistyRose1'', 0xffe4e1), (''MistyRose2'', 0xeed5d2), (''MistyRose3'', 0xcdb7b5),
     (''MistyRose4'', 0x8b7d7b), (''NavajoWhite'', 0xffdead), (''NavajoWhite1'', 0xffdead), (''NavajoWhite2'', 0xeecfa1),
     (''NavajoWhite3'', 0xcdb38b), (''NavajoWhite4'', 0x8b795e), (''NavyBlue'', 0x000080), (''OldLace'', 0xfdf5e6),
     (''OliveDrab'', 0x6b8e23), (''OliveDrab1'', 0xc0ff3e), (''OliveDrab2'', 0xb3ee3a), (''OliveDrab3'', 0x9acd32),
     (''OliveDrab4'', 0x698b22), (''OrangeRed'', 0xff4500), (''OrangeRed1'', 0xff4500), (''OrangeRed2'', 0xee4000),
     (''OrangeRed3'', 0xcd3700), (''OrangeRed4'', 0x8b2500), (''PaleGoldenrod'', 0xeee8aa), (''PaleGreen'', 0x98fb98),
     (''PaleGreen1'', 0x9aff9a), (''PaleGreen2'', 0x90ee90), (''PaleGreen3'', 0x7ccd7c), (''PaleGreen4'', 0x548b54),
     (''PaleTurquoise'', 0xafeeee), (''PaleTurquoise1'', 0xbbffff), (''PaleTurquoise2'', 0xaeeeee), (''PaleTurquoise3'', 0x96cdcd),
     (''PaleTurquoise4'', 0x668b8b), (''PaleVioletRed'', 0xdb7093), (''PaleVioletRed1'', 0xff82ab), (''PaleVioletRed2'', 0xee799f),
     (''PaleVioletRed3'', 0xcd6889), (''PaleVioletRed4'', 0x8b475d), (''PapayaWhip'', 0xffefd5), (''PeachPuff'', 0xffdab9),
     (''PeachPuff1'', 0xffdab9), (''PeachPuff2'', 0xeecbad), (''PeachPuff3'', 0xcdaf95), (''PeachPuff4'', 0x8b7765),
     (''PowderBlue'', 0xb0e0e6), (''RebeccaPurple'', 0x663399), (''RosyBrown'', 0xbc8f8f), (''RosyBrown1'', 0xffc1c1),
     (''RosyBrown2'', 0xeeb4b4), (''RosyBrown3'', 0xcd9b9b), (''RosyBrown4'', 0x8b6969), (''RoyalBlue'', 0x4169e1),
     (''RoyalBlue1'', 0x4876ff), (''RoyalBlue2'', 0x436eee), (''RoyalBlue3'', 0x3a5fcd), (''RoyalBlue4'', 0x27408b),
     (''SaddleBrown'', 0x8b4513), (''SandyBrown'', 0xf4a460), (''SeaGreen'', 0x2e8b57), (''SeaGreen1'', 0x54ff9f),
     (''SeaGreen2'', 0x4eee94), (''SeaGreen3'', 0x43cd80), (''SeaGreen4'', 0x2e8b57), (''SkyBlue'', 0x87ceeb),
     (''SkyBlue1'', 0x87ceff), (''SkyBlue2'', 0x7ec0ee), (''SkyBlue3'', 0x6ca6cd), (''SkyBlue4'', 0x4a708b),
     (''SlateBlue'', 0x6a5acd), (''SlateBlue1'', 0x836fff), (''SlateBlue2'', 0x7a67ee), (''SlateBlue3'', 0x6959cd),
     (''SlateBlue4'', 0x473c8b), (''SlateGray'', 0x708090), (''SlateGray1'', 0xc6e2ff), (''SlateGray2'', 0xb9d3ee),
     (''SlateGray3'', 0x9fb6cd), (''SlateGray4'', 0x6c7b8b), (''SlateGrey'', 0x708090), (''SpringGreen'', 0x00ff7f),
     (''SpringGreen1'', 0x00ff7f), (''SpringGreen2'', 0x00ee76), (''SpringGreen3'', 0x00cd66), (''SpringGreen4'', 0x008b45),
     (''SteelBlue'', 0x4682b4), (''SteelBlue1'', 0x63b8ff), (''SteelBlue2'', 0x5cacee), (''SteelBlue3'', 0x4f94cd),
     (''SteelBlue4'', 0x36648b), (''VioletRed'', 0xd02090), (''VioletRed1'', 0xff3e96), (''VioletRed2'', 0xee3a8c),
     (''VioletRed3'', 0xcd3278), (''VioletRed4'', 0x8b2252), (''WebGray'', 0x808080), (''WebGreen'', 0x008000),
     (''WebGrey'', 0x808080), (''WebMaroon'', 0x800000), (''WebPurple'', 0x800080), (''WhiteSmoke'', 0xf5f5f5),
     (''X11Gray'', 0xbebebe), (''X11Green'', 0x00ff00), (''X11Grey'', 0xbebebe), (''X11Maroon'', 0xb03060),
     (''X11Purple'', 0xa020f0), (''YellowGreen'', 0x9acd32), (''alice blue'', 0xf0f8ff), (''antique white'', 0xfaebd7),
     (''aqua'', 0x00ffff), (''aquamarine'', 0x7fffd4), (''aquamarine1'', 0x7fffd4), (''aquamarine2'', 0x76eec6),
     (''aquamarine3'', 0x66cdaa), (''aquamarine4'', 0x458b74), (''azure'', 0xf0ffff), (''azure1'', 0xf0ffff),
     (''azure2'', 0xe0eeee), (''azure3'', 0xc1cdcd), (''azure4'', 0x838b8b), (''beige'', 0xf5f5dc),
     (''bisque'', 0xffe4c4), (''bisque1'', 0xffe4c4), (''bisque2'', 0xeed5b7), (''bisque3'', 0xcdb79e),
     (''bisque4'', 0x8b7d6b), (''black'', 0x000000), (''blanched almond'', 0xffebcd), (''blue violet'', 0x8a2be2),
     (''blue'', 0x0000ff), (''blue1'', 0x0000ff), (''blue2'', 0x0000ee), (''blue3'', 0x0000cd),
     (''blue4'', 0x00008b), (''brown'', 0xa52a2a), (''brown1'', 0xff4040), (''brown2'', 0xee3b3b),
     (''brown3'', 0xcd3333), (''brown4'', 0x8b2323), (''burlywood'', 0xdeb887), (''burlywood1'', 0xffd39b),
     (''burlywood2'', 0xeec591), (''burlywood3'', 0xcdaa7d), (''burlywood4'', 0x8b7355), (''cadet blue'', 0x5f9ea0),
     (''chartreuse'', 0x7fff00), (''chartreuse1'', 0x7fff00), (''chartreuse2'', 0x76ee00), (''chartreuse3'', 0x66cd00),
     (''chartreuse4'', 0x458b00), (''chocolate'', 0xd2691e), (''chocolate1'', 0xff7f24), (''chocolate2'', 0xee7621),
     (''chocolate3'', 0xcd661d), (''chocolate4'', 0x8b4513), (''coral'', 0xff7f50), (''coral1'', 0xff7256),
     (''coral2'', 0xee6a50), (''coral3'', 0xcd5b45), (''coral4'', 0x8b3e2f), (''cornflower blue'', 0x6495ed),
     (''cornsilk'', 0xfff8dc), (''cornsilk1'', 0xfff8dc), (''cornsilk2'', 0xeee8cd), (''cornsilk3'', 0xcdc8b1),
     (''cornsilk4'', 0x8b8878), (''crimson'', 0xdc143c), (''cyan'', 0x00ffff), (''cyan1'', 0x00ffff),
     (''cyan2'', 0x00eeee), (''cyan3'', 0x00cdcd), (''cyan4'', 0x008b8b), (''dark blue'', 0x00008b),
     (''dark cyan'', 0x008b8b), (''dark goldenrod'', 0xb8860b), (''dark gray'', 0xa9a9a9), (''dark green'', 0x006400),
     (''dark grey'', 0xa9a9a9), (''dark khaki'', 0xbdb76b), (''dark magenta'', 0x8b008b), (''dark olive green'', 0x556b2f),
     (''dark orange'', 0xff8c00), (''dark orchid'', 0x9932cc), (''dark red'', 0x8b0000), (''dark salmon'', 0xe9967a),
     (''dark sea green'', 0x8fbc8f), (''dark slate blue'', 0x483d8b), (''dark slate gray'', 0x2f4f4f), (''dark slate grey'', 0x2f4f4f),
     (''dark turquoise'', 0x00ced1), (''dark violet'', 0x9400d3), (''deep pink'', 0xff1493), (''deep sky blue'', 0x00bfff),
     (''dim gray'', 0x696969), (''dim grey'', 0x696969), (''dodger blue'', 0x1e90ff), (''firebrick'', 0xb22222),
     (''firebrick1'', 0xff3030), (''firebrick2'', 0xee2c2c), (''firebrick3'', 0xcd2626), (''firebrick4'', 0x8b1a1a),
     (''floral white'', 0xfffaf0), (''forest green'', 0x228b22), (''fuchsia'', 0xff00ff), (''gainsboro'', 0xdcdcdc),
     (''ghost white'', 0xf8f8ff), (''gold'', 0xffd700), (''gold1'', 0xffd700), (''gold2'', 0xeec900),
     (''gold3'', 0xcdad00), (''gold4'', 0x8b7500), (''goldenrod'', 0xdaa520), (''goldenrod1'', 0xffc125),
     (''goldenrod2'', 0xeeb422), (''goldenrod3'', 0xcd9b1d), (''goldenrod4'', 0x8b6914), (''green yellow'', 0xadff2f),
     (''green'', 0x00ff00), (''green1'', 0x00ff00), (''green2'', 0x00ee00), (''green3'', 0x00cd00),
     (''green4'', 0x008b00), (''honeydew'', 0xf0fff0), (''honeydew1'', 0xf0fff0), (''honeydew2'', 0xe0eee0),
     (''honeydew3'', 0xc1cdc1), (''honeydew4'', 0x838b83), (''hot pink'', 0xff69b4), (''indian red'', 0xcd5c5c),
     (''indigo'', 0x4b0082), (''ivory'', 0xfffff0), (''ivory1'', 0xfffff0), (''ivory2'', 0xeeeee0),
     (''ivory3'', 0xcdcdc1), (''ivory4'', 0x8b8b83), (''khaki'', 0xf0e68c), (''khaki1'', 0xfff68f),
     (''khaki2'', 0xeee685), (''khaki3'', 0xcdc673), (''khaki4'', 0x8b864e), (''lavender blush'', 0xfff0f5),
     (''lavender'', 0xe6e6fa), (''lawn green'', 0x7cfc00), (''lemon chiffon'', 0xfffacd), (''light blue'', 0xadd8e6),
     (''light coral'', 0xf08080), (''light cyan'', 0xe0ffff), (''light goldenrod yellow'', 0xfafad2), (''light goldenrod'', 0xeedd82),
     (''light gray'', 0xd3d3d3), (''light green'', 0x90ee90), (''light grey'', 0xd3d3d3), (''light pink'', 0xffb6c1),
     (''light salmon'', 0xffa07a), (''light sea green'', 0x20b2aa), (''light sky blue'', 0x87cefa), (''light slate blue'', 0x8470ff),
     (''light slate gray'', 0x778899), (''light slate grey'', 0x778899), (''light steel blue'', 0xb0c4de), (''light yellow'', 0xffffe0),
     (''lime green'', 0x32cd32), (''lime'', 0x00ff00), (''linen'', 0xfaf0e6), (''magenta'', 0xff00ff),
     (''magenta1'', 0xff00ff), (''magenta2'', 0xee00ee), (''magenta3'', 0xcd00cd), (''magenta4'', 0x8b008b),
     (''maroon'', 0xb03060), (''maroon1'', 0xff34b3), (''maroon2'', 0xee30a7), (''maroon3'', 0xcd2990),
     (''maroon4'', 0x8b1c62), (''medium aquamarine'', 0x66cdaa), (''medium blue'', 0x0000cd), (''medium orchid'', 0xba55d3),
     (''medium purple'', 0x9370db), (''medium sea green'', 0x3cb371), (''medium slate blue'', 0x7b68ee), (''medium spring green'', 0x00fa9a),
     (''medium turquoise'', 0x48d1cc), (''medium violet red'', 0xc71585), (''midnight blue'', 0x191970), (''mint cream'', 0xf5fffa),
     (''misty rose'', 0xffe4e1), (''moccasin'', 0xffe4b5), (''navajo white'', 0xffdead), (''navy blue'', 0x000080),
     (''navy'', 0x000080), (''old lace'', 0xfdf5e6), (''olive drab'', 0x6b8e23), (''olive'', 0x808000),
     (''orange red'', 0xff4500), (''orange'', 0xffa500), (''orange1'', 0xffa500), (''orange2'', 0xee9a00),
     (''orange3'', 0xcd8500), (''orange4'', 0x8b5a00), (''orchid'', 0xda70d6), (''orchid1'', 0xff83fa),
     (''orchid2'', 0xee7ae9), (''orchid3'', 0xcd69c9), (''orchid4'', 0x8b4789), (''pale goldenrod'', 0xeee8aa),
     (''pale green'', 0x98fb98), (''pale turquoise'', 0xafeeee), (''pale violet red'', 0xdb7093), (''papaya whip'', 0xffefd5),
     (''peach puff'', 0xffdab9), (''peru'', 0xcd853f), (''pink'', 0xffc0cb), (''pink1'', 0xffb5c5),
     (''pink2'', 0xeea9b8), (''pink3'', 0xcd919e), (''pink4'', 0x8b636c), (''plum'', 0xdda0dd),
     (''plum1'', 0xffbbff), (''plum2'', 0xeeaeee), (''plum3'', 0xcd96cd), (''plum4'', 0x8b668b),
     (''powder blue'', 0xb0e0e6), (''purple'', 0xa020f0), (''purple1'', 0x9b30ff), (''purple2'', 0x912cee),
     (''purple3'', 0x7d26cd), (''purple4'', 0x551a8b), (''rebecca purple'', 0x663399), (''red'', 0xff0000),
     (''red1'', 0xff0000), (''red2'', 0xee0000), (''red3'', 0xcd0000), (''red4'', 0x8b0000),
     (''rosy brown'', 0xbc8f8f), (''royal blue'', 0x4169e1), (''saddle brown'', 0x8b4513), (''salmon'', 0xfa8072),
     (''salmon1'', 0xff8c69), (''salmon2'', 0xee8262), (''salmon3'', 0xcd7054), (''salmon4'', 0x8b4c39),
     (''sandy brown'', 0xf4a460), (''sea green'', 0x2e8b57), (''seashell'', 0xfff5ee), (''seashell1'', 0xfff5ee),
     (''seashell2'', 0xeee5de), (''seashell3'', 0xcdc5bf), (''seashell4'', 0x8b8682), (''sienna'', 0xa0522d),
     (''sienna1'', 0xff8247), (''sienna2'', 0xee7942), (''sienna3'', 0xcd6839), (''sienna4'', 0x8b4726),
     (''silver'', 0xc0c0c0), (''sky blue'', 0x87ceeb), (''slate blue'', 0x6a5acd), (''slate gray'', 0x708090),
     (''slate grey'', 0x708090), (''snow'', 0xfffafa), (''snow1'', 0xfffafa), (''snow2'', 0xeee9e9),
     (''snow3'', 0xcdc9c9), (''snow4'', 0x8b8989), (''spring green'', 0x00ff7f), (''steel blue'', 0x4682b4),
     (''tan'', 0xd2b48c), (''tan1'', 0xffa54f), (''tan2'', 0xee9a49), (''tan3'', 0xcd853f),
     (''tan4'', 0x8b5a2b), (''teal'', 0x008080), (''thistle'', 0xd8bfd8), (''thistle1'', 0xffe1ff),
     (''thistle2'', 0xeed2ee), (''thistle3'', 0xcdb5cd), (''thistle4'', 0x8b7b8b), (''tomato'', 0xff6347),
     (''tomato1'', 0xff6347), (''tomato2'', 0xee5c42), (''tomato3'', 0xcd4f39), (''tomato4'', 0x8b3626),
     (''turquoise'', 0x40e0d0), (''turquoise1'', 0x00f5ff), (''turquoise2'', 0x00e5ee), (''turquoise3'', 0x00c5cd),
     (''turquoise4'', 0x00868b), (''violet red'', 0xd02090), (''violet'', 0xee82ee), (''web gray'', 0x808080),
     (''web green'', 0x008000), (''web grey'', 0x808080), (''web maroon'', 0x800000), (''web purple'', 0x800080),
     (''wheat'', 0xf5deb3), (''wheat1'', 0xffe7ba), (''wheat2'', 0xeed8ae), (''wheat3'', 0xcdba96),
     (''wheat4'', 0x8b7e66), (''white smoke'', 0xf5f5f5), (''white'', 0xffffff), (''x11 gray'', 0xbebebe),
     (''x11 green'', 0x00ff00), (''x11 grey'', 0xbebebe), (''x11 maroon'', 0xb03060), (''x11 purple'', 0xa020f0),
     (''yellow green'', 0x9acd32), (''yellow'', 0xffff00), (''yellow1'', 0xffff00), (''yellow2'', 0xeeee00),
     (''yellow3'', 0xcdcd00), (''yellow4'', 0x8b8b00)]"

text \<open>
  \<^verbatim>\<open>round(2.55 * c)\<close> of the grey levels, in double precision: the products for 50 and 90 fall below the
  half that the exact ones would be.
\<close>

definition grey_level :: "int \<Rightarrow> int" where
  "grey_level c = (if c = 50 \<or> c = 90 then (51 * c + 10) div 20 - 1 else (51 * c + 10) div 20)"

definition colour_byname :: "string \<Rightarrow> u32" where
  "colour_byname name =
     (if strncaseeq name ''grey'' 4 \<or> strncaseeq name ''gray'' 4 then
        (if drop 4 name = [] then 0xbebebe OR COLOUR_FLAG_RGB
         else
           (case strtonum (drop 4 name) 0 100 of None \<Rightarrow> - 1
            | Some n \<Rightarrow>
                (let c = grey_level n
                 in if c < 0 \<or> c > 255 then - 1
                    else colour_join_rgb (word_of_int c) (word_of_int c) (word_of_int c))))
      else
        (case find (\<lambda>(n, c). strcaseeq n name) colours of
           Some (n, c) \<Rightarrow> c OR COLOUR_FLAG_RGB
         | None \<Rightarrow> - 1))"

definition basic_colours :: "(string \<times> string \<times> u32) list" where
  "basic_colours =
    [(''black'', ''0'', 0), (''red'', ''1'', 1), (''green'', ''2'', 2), (''yellow'', ''3'', 3),
     (''blue'', ''4'', 4), (''magenta'', ''5'', 5), (''cyan'', ''6'', 6), (''white'', ''7'', 7),
     (''brightblack'', ''90'', 90), (''brightred'', ''91'', 91), (''brightgreen'', ''92'', 92), (''brightyellow'', ''93'', 93),
     (''brightblue'', ''94'', 94), (''brightmagenta'', ''95'', 95), (''brightcyan'', ''96'', 96), (''brightwhite'', ''97'', 97)]"

definition hex_byte :: "string \<Rightarrow> u8" where
  "hex_byte s = of_nat (hex_digits_value s)"

definition colour_fromstring :: "string \<Rightarrow> u32" where
  "colour_fromstring s =
     (if s \<noteq> [] \<and> hd s = CHR ''#'' \<and> length s = 7 then
        (if list_all (\<lambda>c. hex_value c \<noteq> None) (tl s)
         then colour_join_rgb (hex_byte (take 2 (drop 1 s))) (hex_byte (take 2 (drop 3 s))) (hex_byte (take 2 (drop 5 s)))
         else - 1)
      else if strncaseeq s ''colour'' 6 then
        (case strtonum (drop 6 s) 0 255 of None \<Rightarrow> - 1 | Some n \<Rightarrow> word_of_int n OR COLOUR_FLAG_256)
      else if strncaseeq s ''color'' 5 then
        (case strtonum (drop 5 s) 0 255 of None \<Rightarrow> - 1 | Some n \<Rightarrow> word_of_int n OR COLOUR_FLAG_256)
      else if strcaseeq s ''default'' then 8
      else if strcaseeq s ''terminal'' then 9
      else
        (case find (\<lambda>(name, number, c). strcaseeq s name \<or> s = number) basic_colours of
           Some (_, _, c) \<Rightarrow> c
         | None \<Rightarrow> colour_byname s))"

section \<open>Palettes\<close>

record colour_palette =
  cp_fg :: u32
  cp_bg :: u32
  cp_palette :: "u32 list option"
  cp_default_palette :: "u32 list option"

definition colour_palette_init :: colour_palette where
  "colour_palette_init = \<lparr>cp_fg = 8, cp_bg = 8, cp_palette = None, cp_default_palette = None\<rparr>"

definition colour_palette_clear :: "colour_palette option \<Rightarrow> colour_palette option" where
  "colour_palette_clear po = map_option (\<lambda>p. p\<lparr>cp_fg := 8, cp_bg := 8, cp_palette := None\<rparr>) po"

definition palette_entry :: "u32 list option \<Rightarrow> u32 \<Rightarrow> u32 option" where
  "palette_entry arr n =
     (case arr of None \<Rightarrow> Some (- 1) | Some cs \<Rightarrow> if unat n < length cs then Some (cs ! unat n) else None)"

text \<open>The result is \<open>None\<close> when an array is read outside its bounds.\<close>

definition colour_palette_get :: "colour_palette option \<Rightarrow> u32 \<Rightarrow> u32 option" where
  "colour_palette_get po n =
     (case po of None \<Rightarrow> Some (- 1)
      | Some p \<Rightarrow>
          (let read = (\<lambda>n.
             (case palette_entry (cp_palette p) n of None \<Rightarrow> None
              | Some c \<Rightarrow> if c \<noteq> - 1 then Some c else palette_entry (cp_default_palette p) n))
           in if 90 \<le> n \<and> n \<le> 97 then read (8 + n - 90)
              else if n AND COLOUR_FLAG_256 \<noteq> 0 then read (n AND NOT COLOUR_FLAG_256)
              else if sint n \<ge> 8 then Some (- 1)
              else read n))"

definition colour_palette_set :: "colour_palette option \<Rightarrow> int \<Rightarrow> u32 \<Rightarrow> bool \<times> colour_palette option" where
  "colour_palette_set po n c =
     (case po of None \<Rightarrow> (False, po)
      | Some p \<Rightarrow>
          if n < 0 \<or> n > 255 then (False, po)
          else if c = - 1 \<and> cp_palette p = None then (False, po)
          else
            (let arr = (case cp_palette p of None \<Rightarrow> replicate 256 (- 1) | Some cs \<Rightarrow> cs)
             in (True, Some (p\<lparr>cp_palette := Some (arr[nat n := c])\<rparr>))))"

text \<open>The items of the option \<^verbatim>\<open>pane-colours\<close>: index and colour.\<close>

definition colour_palette_from_option :: "colour_palette option \<Rightarrow> (nat \<times> u32) list \<Rightarrow> colour_palette option" where
  "colour_palette_from_option po items =
     map_option (\<lambda>p.
       if items = [] then p\<lparr>cp_default_palette := None\<rparr>
       else p\<lparr>cp_default_palette :=
         Some (fold (\<lambda>(n, c) arr. if n < 256 then arr[n := c] else arr) items (replicate 256 (- 1)))\<rparr>) po"

end
