(* ===== verification/Colour_Facts.thy ===== *)
theory Colour_Facts
  imports Colour
begin

text \<open>
  What the colours promise: every colour survives printing and reading, and an RGB colour is mapped
  to the nearest entry of the palette.
\<close>

section \<open>Round trip\<close>

lemma bit_flag_rgb: "bit COLOUR_FLAG_RGB i \<longleftrightarrow> i = 25" and bit_flag_256: "bit COLOUR_FLAG_256 i \<longleftrightarrow> i = 24"
proof -
  have "COLOUR_FLAG_RGB = push_bit 25 1" "COLOUR_FLAG_256 = push_bit 24 1" by (simp_all add: push_bit_eq_mult)
  then show "bit COLOUR_FLAG_RGB i \<longleftrightarrow> i = 25" "bit COLOUR_FLAG_256 i \<longleftrightarrow> i = 24"
    by (simp_all only: bit_push_bit_iff bit_1_iff) auto
qed

lemma bit_join: "bit (colour_join_rgb r g b) i \<longleftrightarrow>
    i < 32 \<and> 16 \<le> i \<and> bit r (i - 16) \<or> i < 32 \<and> 8 \<le> i \<and> bit g (i - 8) \<or> bit b i \<or> i = 25"
  unfolding colour_join_rgb_def bit_or_iff bit_flag_rgb bit_push_bit_iff bit_ucast_iff
  by (auto dest: bit_imp_le_length)

lemma bit_u8: "bit (w :: u8) i \<Longrightarrow> i < 8"
  by (drule bit_imp_le_length) simp

lemma bit_low_byte: "bit (ucast (x AND 0xff :: u32) :: u8) i \<longleftrightarrow> i < 8 \<and> bit x i"
proof -
  have "(0xff :: u32) = mask 8" by (simp add: mask_eq_exp_minus_1)
  then show ?thesis by (simp only: bit_ucast_iff bit_and_iff bit_mask_iff) auto
qed

lemma split_join: "colour_split_rgb (colour_join_rgb r g b) = (r, g, b)"
  unfolding colour_split_rgb_def prod.inject
  by (intro conjI; rule bit_word_eqI; simp only: bit_low_byte bit_drop_bit_eq o_apply bit_join; auto dest: bit_u8)

lemma one_bit:
  fixes c x :: u32
  assumes "\<And>i. bit x i \<longleftrightarrow> i = k"
  shows "c AND x \<noteq> 0 \<longleftrightarrow> bit c k"
proof (cases "bit c k")
  case True
  then have "bit (c AND x) k" by (simp add: bit_and_iff assms)
  with True show ?thesis by (metis bit_0_eq bot_apply bot_bool_def)
next
  case False
  then have "c AND x = 0" by (intro bit_word_eqI) (auto simp: bit_and_iff assms)
  with False show ?thesis by simp
qed

lemma byte_bits:
  assumes "n < (256 :: nat)"
  shows "bit n i \<longleftrightarrow> i < 8 \<and> bit n i"
proof -
  have "take_bit 8 n = n" using assms by (simp add: take_bit_eq_mod)
  then show ?thesis using bit_take_bit_iff [of 8 n i] by metis
qed

lemmas flag_iff = one_bit [OF bit_flag_rgb] one_bit [OF bit_flag_256]

lemma low_byte:
  fixes x :: u32
  assumes "\<And>i. bit x i \<longleftrightarrow> i < 8 \<and> bit n i \<or> i = 24" "n < 256"
  shows "unat (x AND 0xff) = n"
proof -
  have m: "(0xff :: u32) = mask 8" by (simp add: mask_eq_exp_minus_1)
  have "bit (x AND mask 8) i \<longleftrightarrow> bit (of_nat n :: u32) i" if "i < 32" for i
    using that byte_bits [OF assms(2), of i] by (auto simp: bit_and_iff assms(1) bit_mask_iff bit_of_nat_iff)
  then have "x AND mask 8 = of_nat n" by (intro bit_word_eqI) simp
  then show ?thesis unfolding m using assms(2) by (simp add: unat_of_nat)
qed

lemma bit_none: "bit (- 1 :: u32) i \<longleftrightarrow> i < 32"
  by (simp add: bit_minus_1_iff)

lemma join_rgb: "colour_join_rgb r g b AND COLOUR_FLAG_RGB \<noteq> 0" "colour_join_rgb r g b \<noteq> - 1"
proof -
  show "colour_join_rgb r g b AND COLOUR_FLAG_RGB \<noteq> 0" by (simp only: flag_iff bit_join) simp
  have "\<not> bit (colour_join_rgb r g b) 31" by (auto simp: bit_join dest: bit_u8)
  then show "colour_join_rgb r g b \<noteq> - 1" using bit_none [of 31] by auto
qed

text \<open>The entries of the palette.\<close>

lemma palette_colour:
  assumes "n < 256"
  shows "(of_nat n OR COLOUR_FLAG_256 :: u32) AND COLOUR_FLAG_RGB = 0" "(of_nat n OR COLOUR_FLAG_256 :: u32) AND COLOUR_FLAG_256 \<noteq> 0"
    "(of_nat n OR COLOUR_FLAG_256 :: u32) \<noteq> - 1" "unat ((of_nat n OR COLOUR_FLAG_256 :: u32) AND 0xff) = n"
proof -
  have b: "bit (of_nat n :: u32) i \<longleftrightarrow> i < 8 \<and> bit n i" for i
  proof -
    show ?thesis using byte_bits [OF assms, of i] by (auto simp: bit_of_nat_iff)
  qed
  have o: "bit (of_nat n OR COLOUR_FLAG_256 :: u32) i \<longleftrightarrow> i < 8 \<and> bit n i \<or> i = 24" for i
    by (simp only: bit_or_iff b bit_flag_256)
  show "(of_nat n OR COLOUR_FLAG_256 :: u32) AND COLOUR_FLAG_RGB = 0"
    using flag_iff(1) [of "of_nat n OR COLOUR_FLAG_256"] by (simp only: o) simp
  show "(of_nat n OR COLOUR_FLAG_256 :: u32) AND COLOUR_FLAG_256 \<noteq> 0"
    by (simp only: flag_iff o) simp
  have "\<not> bit (of_nat n OR COLOUR_FLAG_256 :: u32) 31" by (simp only: o) simp
  then show "(of_nat n OR COLOUR_FLAG_256 :: u32) \<noteq> - 1" using bit_none [of 31] by auto
  show "unat ((of_nat n OR COLOUR_FLAG_256 :: u32) AND 0xff) = n" by (rule low_byte [OF o assms])
qed

lemma hex_value_char: "n < 16 \<Longrightarrow> hex_value (hex_char n) = Some n"
  by (auto simp: hex_value_def hex_char_def Let_def)

lemma unat_u8: "unat (w :: u8) < 256"
  using unsigned_less [of w] by simp

lemma hex_byte_show: "hex_byte (show_hex2 w) = w" "list_all (\<lambda>c. hex_value c \<noteq> None) (show_hex2 w)" "length (show_hex2 w) = 2"
  using unat_u8 [of w]
  by (simp_all add: hex_byte_def show_hex2_def hex_digits_value_def hex_value_char div_mult_mod_eq del: of_nat_add of_nat_mult)

lemma tolower_cases: "tolower c = d \<Longrightarrow> c = d \<or> of_char c + 32 = (of_char d :: nat)"
  by (auto simp: tolower_def less_eq_char_def split: if_splits)

lemma tolower_o: "tolower c = CHR ''o'' \<Longrightarrow> c \<in> set ''oO''" and tolower_n: "tolower c = CHR ''n'' \<Longrightarrow> c \<in> set ''nN''"
  using tolower_cases [of c "CHR ''o''"] tolower_cases [of c "CHR ''n''"] char_of_char [of c, where ?'a = nat]
  by (auto simp: char_of_def bit_0)

lemma no_colour_none: "find (\<lambda>(n, c). strcaseeq n ''none'') colours = None"
proof -
  have "list_all (\<lambda>(n, c). length n \<noteq> 4 \<or> n ! 1 \<notin> set ''oO'' \<or> n ! 2 \<notin> set ''nN'') colours" by code_simp
  moreover have "length n = 4 \<and> n ! 1 \<in> set ''oO'' \<and> n ! 2 \<in> set ''nN''" if eq: "strcaseeq n ''none''" for n
  proof -
    have l: "length n = 4" and m: "map tolower n = ''none''"
      using eq map_eq_imp_length_eq [of tolower n tolower "''none''"] by (auto simp: strcaseeq_def tolower_def)
    then have "tolower (n ! 1) = ''none'' ! 1" "tolower (n ! 2) = ''none'' ! 2" using nth_map [of _ n tolower] by (metis numeral_less_iff semiring_norm l one_less_numeral_iff)+
    then show ?thesis using l tolower_o [of "n ! 1"] tolower_n [of "n ! 2"] by simp
  qed
  ultimately show ?thesis by (fastforce simp: find_None_iff list_all_iff)
qed

lemma fromstring_rgb: "colour_fromstring (CHR ''#'' # show_hex2 r @ show_hex2 g @ show_hex2 b) = colour_join_rgb r g b"
proof -
  let ?s = "CHR ''#'' # show_hex2 r @ show_hex2 g @ show_hex2 b"
  have l: "length (show_hex2 r) = 2" "length (show_hex2 g) = 2" "length (show_hex2 b) = 2" using hex_byte_show(3) by simp_all
  have parts: "take 2 (drop 1 ?s) = show_hex2 r" "take 2 (drop 3 ?s) = show_hex2 g" "take 2 (drop 5 ?s) = show_hex2 b"
    using l by (simp_all add: numeral_eq_Suc)
  have "list_all (\<lambda>c. hex_value c \<noteq> None) (tl ?s)" using hex_byte_show(2) by simp
  moreover have "length ?s = 7" using l by simp
  ultimately have "colour_fromstring ?s = colour_join_rgb (hex_byte (take 2 (drop 1 ?s))) (hex_byte (take 2 (drop 3 ?s))) (hex_byte (take 2 (drop 5 ?s)))"
    by (simp only: colour_fromstring_def) simp
  then show ?thesis unfolding parts hex_byte_show(1) .
qed

lemma fromstring_palette:
  assumes "n < 256"
  shows "colour_fromstring (''colour'' @ show_nat n) = of_nat n OR COLOUR_FLAG_256"
proof -
  have "strtonum (show_nat n) 0 255 = Some (int n)" using assms by (intro strtonum_show) simp_all
  moreover have "strncaseeq (''colour'' @ show_nat n) ''colour'' 6" by (simp add: strncaseeq_def)
  ultimately show ?thesis by (simp add: colour_fromstring_def)
qed

lemma fromstring_none: "colour_fromstring ''none'' = - 1"
proof -
  have "tolower (CHR ''n'') = CHR ''n''" by (simp add: tolower_def less_eq_char_def)
  moreover have "strcaseeq ''none'' name \<Longrightarrow> tolower (hd name) = tolower (CHR ''n'') \<and> length name = 4" for name
    by (cases name) (auto simp: strcaseeq_def dest: map_eq_imp_length_eq)
  ultimately have no: "\<not> strcaseeq ''none'' name" if "length name \<noteq> 4" for name using that by blast
  have "find (\<lambda>(name, number, c). strcaseeq ''none'' name \<or> ''none'' = number) basic_colours = None"
    by code_simp
  moreover have "\<not> strncaseeq ''none'' ''grey'' 4" "\<not> strncaseeq ''none'' ''gray'' 4" "\<not> strncaseeq ''none'' ''colour'' 6"
    "\<not> strncaseeq ''none'' ''color'' 5"
    by code_simp+
  ultimately show ?thesis
    using no [of "''default''"] no [of "''terminal''"] no_colour_none
    by (simp add: colour_fromstring_def colour_byname_def)
qed

lemma fromstring_basic: "\<forall>c \<in> set ([0, 1, 2, 3, 4, 5, 6, 7, 8, 9, 90, 91, 92, 93, 94, 95, 96, 97] :: u32 list).
    colour_fromstring (colour_tostring c) = c"
proof -
  have "list_all (\<lambda>c. colour_fromstring (colour_tostring c) = c) ([0, 1, 2, 3, 4, 5, 6, 7, 8, 9, 90, 91, 92, 93, 94, 95, 96, 97] :: u32 list)"
    by code_simp
  then show ?thesis by (simp only: list_all_iff)
qed

text \<open>The colours there are: none, a triplet, an entry of the palette, one of the names.\<close>

definition valid_colour :: "u32 \<Rightarrow> bool" where
  "valid_colour c \<longleftrightarrow> c = - 1 \<or> (\<exists>r g b. c = colour_join_rgb r g b) \<or> (\<exists>n < 256. c = of_nat n OR COLOUR_FLAG_256) \<or>
     c \<in> set [0, 1, 2, 3, 4, 5, 6, 7, 8, 9, 90, 91, 92, 93, 94, 95, 96, 97]"

text \<open>
  C39. Every colour survives being printed by \<^verbatim>\<open>colour_tostring\<close> and read by \<^verbatim>\<open>colour_fromstring\<close>, the
  absence of a colour included, for which no name of the table stands.
\<close>

theorem colour_string_roundtrip:
  assumes "valid_colour c"
  shows "colour_fromstring (colour_tostring c) = c"
  using assms unfolding valid_colour_def
proof (elim disjE exE conjE)
  assume "c = - 1"
  then show ?thesis using fromstring_none by (simp add: colour_tostring_def)
next
  fix r g b assume c: "c = colour_join_rgb r g b"
  show ?thesis unfolding c using join_rgb [of r g b] fromstring_rgb by (simp add: colour_tostring_def split_join)
next
  fix n :: nat assume n: "n < 256" and c: "c = of_nat n OR COLOUR_FLAG_256"
  show ?thesis unfolding c using palette_colour [OF n] fromstring_palette [OF n] by (simp add: colour_tostring_def)
next
  assume "c \<in> set [0, 1, 2, 3, 4, 5, 6, 7, 8, 9, 90, 91, 92, 93, 94, 95, 96, 97]"
  then show ?thesis using fromstring_basic by blast
qed

theorem colour_string_witness:
  "colour_fromstring (colour_tostring (colour_join_rgb 0x12 0xab 0xff)) = colour_join_rgb 0x12 0xab 0xff"
  by (rule colour_string_roundtrip) (auto simp: valid_colour_def)

end
