(* ===== verification/Colour_Nearest.thy ===== *)
theory Colour_Nearest
  imports Colour
begin

text \<open>
  The conversion of a 24-bit colour to the palette, \<^verbatim>\<open>colour_find_rgb\<close>: what it picks is no further from the
  colour, in the distance of the source, than any other entry of the cube and of the greys.
\<close>

section \<open>The nearest entry of the palette\<close>

definition palette_dist :: "u8 \<Rightarrow> u8 \<Rightarrow> u8 \<Rightarrow> nat \<Rightarrow> int" where
  "palette_dist r g b j =
     (case colour_split_rgb (colour_256toRGB (of_nat j)) of
        (R, G, B) \<Rightarrow> colour_dist_sq (uint R) (uint G) (uint B) (uint r) (uint g) (uint b))"

lemma cube_table: "j \<in> {16..<232} \<Longrightarrow> colour_split_rgb (colour_256toRGB (of_nat j)) =
    (of_int (q2c ! ((j - 16) div 36)), of_int (q2c ! ((j - 16) div 6 mod 6)), of_int (q2c ! ((j - 16) mod 6)))"
proof -
  have "list_all (\<lambda>j. colour_split_rgb (colour_256toRGB (of_nat j)) =
      (of_int (q2c ! ((j - 16) div 36)), of_int (q2c ! ((j - 16) div 6 mod 6)), of_int (q2c ! ((j - 16) mod 6)))) [16..<232]"
    by code_simp
  then show "j \<in> {16..<232} \<Longrightarrow> ?thesis" by (simp only: list_all_iff set_upt)
qed

lemma grey_table: "k < 24 \<Longrightarrow> colour_split_rgb (colour_256toRGB (of_nat (232 + k))) =
    (of_nat (8 + 10 * k), of_nat (8 + 10 * k), of_nat (8 + 10 * k))"
proof -
  have "list_all (\<lambda>k. colour_split_rgb (colour_256toRGB (of_nat (232 + k))) =
      (of_nat (8 + 10 * k), of_nat (8 + 10 * k), of_nat (8 + 10 * k))) [0..<24]"
    by code_simp
  then show "k < 24 \<Longrightarrow> ?thesis" by (simp only: list_all_iff set_upt) simp
qed

lemma q2c_range: "k < 6 \<Longrightarrow> 0 \<le> q2c ! k \<and> q2c ! k < 256"
  by (auto simp: q2c_def less_Suc_eq numeral_eq_Suc)

lemma cube_level:
  assumes "0 \<le> v" "v < 256"
  shows "0 \<le> colour_to_6cube v \<and> colour_to_6cube v < 6"
    "k < 6 \<Longrightarrow> (q2c ! nat (colour_to_6cube v) - v) * (q2c ! nat (colour_to_6cube v) - v) \<le> (q2c ! k - v) * (q2c ! k - v)"
proof -
  have all: "list_all (\<lambda>v. let c = q2c ! nat (colour_to_6cube (int v)) in 0 \<le> colour_to_6cube (int v) \<and> colour_to_6cube (int v) < 6 \<and>
      list_all (\<lambda>q. (c - int v) * (c - int v) \<le> (q - int v) * (q - int v)) q2c) [0..<256]"
    by code_simp
  have "nat v \<in> set [0..<256]" using assms by auto
  with all have one: "let c = q2c ! nat (colour_to_6cube v) in 0 \<le> colour_to_6cube v \<and> colour_to_6cube v < 6 \<and>
      list_all (\<lambda>q. (c - v) * (c - v) \<le> (q - v) * (q - v)) q2c"
    unfolding list_all_iff using assms(1) by fastforce
  then show "0 \<le> colour_to_6cube v \<and> colour_to_6cube v < 6" by (simp add: Let_def)
  assume "k < 6"
  then have "q2c ! k \<in> set q2c" by (intro nth_mem) (simp add: q2c_def)
  with one show "(q2c ! nat (colour_to_6cube v) - v) * (q2c ! nat (colour_to_6cube v) - v) \<le> (q2c ! k - v) * (q2c ! k - v)"
    by (simp add: Let_def list_all_iff)
qed

lemma cube_parts:
  assumes "x < 6" "y < 6" "z < (6 :: nat)"
  shows "(36 * x + 6 * y + z) div 36 = x" "(36 * x + 6 * y + z) div 6 mod 6 = y" "(36 * x + 6 * y + z) mod 6 = z"
proof -
  have eq: "36 * x + 6 * y + z = z + 6 * (6 * x + y)" by simp
  have "(z + 6 * (6 * x + y)) div 6 = 6 * x + y" using assms by (subst div_mult_self2) auto
  then have six: "(36 * x + 6 * y + z) div 6 = 6 * x + y" by (simp only: eq)
  then show "(36 * x + 6 * y + z) div 6 mod 6 = y" using assms by simp
  have "(36 * x + 6 * y + z) div (6 * 6) = (6 * x + y) div 6" by (simp only: six div_mult2_eq)
  then show "(36 * x + 6 * y + z) div 36 = x" using assms by simp
  have "(z + 6 * (6 * x + y)) mod 6 = z" using assms by (subst mod_mult_self2) auto
  then show "(36 * x + 6 * y + z) mod 6 = z" by (simp only: eq)
qed

lemma dist_cube:
  assumes "x < 6" "y < 6" "z < 6"
  shows "palette_dist r g b (16 + 36 * x + 6 * y + z) = colour_dist_sq (q2c ! x) (q2c ! y) (q2c ! z) (uint r) (uint g) (uint b)"
proof -
  let ?j = "16 + 36 * x + 6 * y + z"
  have "?j - 16 = 36 * x + 6 * y + z" by simp
  then have "?j \<in> {16..<232}" "(?j - 16) div 36 = x" "(?j - 16) div 6 mod 6 = y" "(?j - 16) mod 6 = z"
    using cube_parts [OF assms] assms by (auto simp: add.assoc)
  moreover have "uint (of_int (q2c ! k) :: u8) = q2c ! k" if "k < 6" for k
    using q2c_range [OF that] by (simp add: unsigned_of_int take_bit_int_eq_self)
  ultimately show ?thesis using cube_table [of ?j] assms by (simp add: palette_dist_def)
qed

lemma cube_index:
  assumes "(j :: nat) \<in> {16..<232}"
  shows "\<exists>x y z. x < 6 \<and> y < 6 \<and> z < 6 \<and> j = 16 + 36 * x + 6 * y + z"
proof -
  define k where "k = j - 16"
  define m where "m = k div 6"
  have j: "j = 16 + k" "k < 216" using assms unfolding k_def by auto
  have k: "k = 6 * m + k mod 6" unfolding m_def by simp
  have m: "m = 6 * (m div 6) + m mod 6" by simp
  have "m < 36" using j(2) unfolding m_def by (intro less_mult_imp_div_less) simp
  then have "m div 6 < 6" by (intro less_mult_imp_div_less) simp
  moreover have "j = 16 + 36 * (m div 6) + 6 * (m mod 6) + k mod 6" using j(1) k m by linarith
  moreover have "m mod 6 < 6" "k mod 6 < 6" by simp_all
  ultimately show ?thesis by blast
qed

lemma dist_grey:
  assumes "k < 24"
  shows "palette_dist r g b (232 + k) = colour_dist_sq (8 + 10 * int k) (8 + 10 * int k) (8 + 10 * int k) (uint r) (uint g) (uint b)"
proof -
  have "uint (of_nat (8 + 10 * k) :: u8) = int (8 + 10 * k)"
    using assms by (simp only: uint_nat unat_of_nat) simp
  then show ?thesis unfolding palette_dist_def grey_table [OF assms] prod.case by simp
qed

text \<open>Among the greys the nearest is the one nearest to the average.\<close>

lemma grey_nearest:
  assumes "s = r + g + b" "0 \<le> k" "k < 24" "0 \<le> i" "i < 24"
    "i > 0 \<Longrightarrow> 30 * i + 9 \<le> s" "i < 23 \<Longrightarrow> s \<le> 30 * i + 38"
  shows "colour_dist_sq (8 + 10 * i) (8 + 10 * i) (8 + 10 * i) r g b \<le> colour_dist_sq (8 + 10 * k) (8 + 10 * k) (8 + 10 * k) r g (b :: int)"
proof -
  let ?d = "\<lambda>x. colour_dist_sq x x x r g b"
  have diff: "?d (8 + 10 * k) - ?d (8 + 10 * i) = 10 * (k - i) * (3 * (16 + 10 * i + 10 * k) - 2 * s)"
    unfolding colour_dist_sq_def assms(1) by (simp add: algebra_simps)
  have "0 \<le> (k - i) * (3 * (16 + 10 * i + 10 * k) - 2 * s)"
  proof (cases "i \<le> k")
    case True
    show ?thesis
    proof (cases "i = k")
      case False
      then have "0 \<le> 3 * (16 + 10 * i + 10 * k) - 2 * s" using True assms by auto
      then show ?thesis using True by (intro mult_nonneg_nonneg) simp_all
    qed simp
  next
    case False
    then have "3 * (16 + 10 * i + 10 * k) - 2 * s \<le> 0" using assms by auto
    then show ?thesis using False by (intro mult_nonpos_nonpos) simp_all
  qed
  then have "0 \<le> 10 * ((k - i) * (3 * (16 + 10 * i + 10 * k) - 2 * s))" by simp
  then have "0 \<le> ?d (8 + 10 * k) - ?d (8 + 10 * i)" unfolding diff by (simp only: mult.assoc)
  then show ?thesis by simp
qed

text \<open>What the conversion computes when the colour is not on the cube.\<close>

lemma flag_word: "0 \<le> n \<Longrightarrow> word_of_int n OR COLOUR_FLAG_256 = of_nat (nat n) OR COLOUR_FLAG_256"
  by simp

lemma sdiv_pos: "0 \<le> a \<Longrightarrow> 0 < b \<Longrightarrow> a sdiv b = a div (b :: int)"
  by (cases "a = 0") (simp_all add: signed_divide_int_def)

lemma sdiv_neg: "- b < a \<Longrightarrow> a < 0 \<Longrightarrow> a sdiv b = (0 :: int)"
  by (simp add: signed_divide_int_def)

lemma grey_choice:
  assumes "avg = (r + g + b) sdiv (3 :: int)" "idx = (if avg > 238 then 23 else (avg - 3) sdiv 10)"
    "0 \<le> r" "0 \<le> g" "0 \<le> b" "r < 256" "g < 256" "b < 256"
  shows "0 \<le> idx" "idx < 24" "idx > 0 \<Longrightarrow> 30 * idx + 9 \<le> r + g + b" "idx < 23 \<Longrightarrow> r + g + b \<le> 30 * idx + 38"
proof -
  have avg: "avg = (r + g + b) div 3" using assms by (simp add: sdiv_pos)
  have idx: "idx = (if avg > 238 then 23 else if avg < 3 then 0 else (avg - 3) div 10)"
    unfolding assms(2) using avg assms(3-5) by (auto simp: sdiv_pos intro: sdiv_neg)
  show "0 \<le> idx" "idx < 24" unfolding idx by auto
  show "idx > 0 \<Longrightarrow> 30 * idx + 9 \<le> r + g + b" unfolding idx avg by (auto split: if_splits)
  show "idx < 23 \<Longrightarrow> r + g + b \<le> 30 * idx + 38" unfolding idx avg by (auto split: if_splits)
qed

lemma dist_sq_mono:
  assumes "(x - r) * (x - r) \<le> (x' - r) * (x' - r)" "(y - g) * (y - g) \<le> (y' - g) * (y' - g)"
    "(z - b) * (z - b) \<le> (z' - b) * (z' - b)"
  shows "colour_dist_sq x y z r g b \<le> colour_dist_sq x' y' z' r g b"
  unfolding colour_dist_sq_def using assms by linarith

lemma u8_range: "0 \<le> uint (w :: u8)" "uint (w :: u8) < 256"
  using uint_lt2p [of w] by simp_all

lemma level_small: "nat (colour_to_6cube (uint (w :: u8))) < 6" "int (nat (colour_to_6cube (uint w))) = colour_to_6cube (uint w)"
  using cube_level(1) [OF u8_range, of w] by linarith+

lemma cube_best:
  assumes "x < 6" "y < 6" "z < 6"
  shows "palette_dist r g b (16 + 36 * nat (colour_to_6cube (uint r)) + 6 * nat (colour_to_6cube (uint g)) + nat (colour_to_6cube (uint b)))
    \<le> palette_dist r g b (16 + 36 * x + 6 * y + z)"
  unfolding dist_cube [OF level_small(1) level_small(1) level_small(1)] dist_cube [OF assms]
  by (intro dist_sq_mono cube_level(2) u8_range assms)

lemma grey_best:
  assumes "i < 24" "k < 24" "i > 0 \<Longrightarrow> 30 * int i + 9 \<le> uint r + uint g + uint b" "i < 23 \<Longrightarrow> uint r + uint g + uint b \<le> 30 * int i + 38"
  shows "palette_dist r g b (232 + i) \<le> palette_dist r g b (232 + k)"
  unfolding dist_grey [OF assms(1)] dist_grey [OF assms(2)]
  by (rule grey_nearest [OF refl]) (use assms in auto)

lemma word_of_nat_int: "n = int m \<Longrightarrow> word_of_int n = (of_nat m :: u32)"
  by (simp only: of_int_of_nat_eq)

lemma find_rgb_pick:
  assumes "avg = (uint r + uint g + uint b) sdiv 3" "idx = (if avg > 238 then 23 else (avg - 3) sdiv 10)"
  shows "\<exists>i\<in>{16 + 36 * nat (colour_to_6cube (uint r)) + 6 * nat (colour_to_6cube (uint g)) + nat (colour_to_6cube (uint b)), 232 + nat idx}.
    colour_find_rgb r g b = of_nat i OR COLOUR_FLAG_256 \<and>
      palette_dist r g b i \<le> palette_dist r g b (16 + 36 * nat (colour_to_6cube (uint r)) + 6 * nat (colour_to_6cube (uint g)) + nat (colour_to_6cube (uint b))) \<and>
      palette_dist r g b i \<le> palette_dist r g b (232 + nat idx)"
proof -
  let ?q = "\<lambda>w :: u8. colour_to_6cube (uint w)"
  let ?cube = "16 + 36 * nat (?q r) + 6 * nat (?q g) + nat (?q b)"
  let ?d = "colour_dist_sq (q2c ! nat (?q r)) (q2c ! nat (?q g)) (q2c ! nat (?q b)) (uint r) (uint g) (uint b)"
  let ?e = "colour_dist_sq (8 + 10 * idx) (8 + 10 * idx) (8 + 10 * idx) (uint r) (uint g) (uint b)"
  note idx = grey_choice(1,2) [OF assms u8_range(1) u8_range(1) u8_range(1) u8_range(2) u8_range(2) u8_range(2)]
  have cube: "palette_dist r g b ?cube = ?d" by (rule dist_cube [OF level_small(1) level_small(1) level_small(1)])
  have grey: "palette_dist r g b (232 + nat idx) = ?e" using dist_grey [of "nat idx" r g b] idx by simp
  have wc: "word_of_int (16 + 36 * ?q r + 6 * ?q g + ?q b) = (of_nat ?cube :: u32)"
    by (rule word_of_nat_int) (simp only: of_nat_add of_nat_mult of_nat_numeral level_small(2))
  have wg: "word_of_int (232 + idx) = (of_nat (232 + nat idx) :: u32)"
    by (rule word_of_nat_int) (use idx(1) in simp)
  have code: "colour_find_rgb r g b =
      (if q2c ! nat (?q r) = uint r \<and> q2c ! nat (?q g) = uint g \<and> q2c ! nat (?q b) = uint b then of_nat ?cube OR COLOUR_FLAG_256
       else if ?e < ?d then of_nat (232 + nat idx) OR COLOUR_FLAG_256 else of_nat ?cube OR COLOUR_FLAG_256)"
    unfolding colour_find_rgb_def Let_def assms(1) [symmetric] assms(2) [symmetric] wc [symmetric] wg [symmetric]
    by (cases "?e < ?d") (simp_all only: if_True if_False)
  have exact: "?d = 0" if "q2c ! nat (?q r) = uint r" "q2c ! nat (?q g) = uint g" "q2c ! nat (?q b) = uint b"
    using that by (simp add: colour_dist_sq_def)
  have pos: "0 \<le> ?e" by (simp add: colour_dist_sq_def)
  consider "q2c ! nat (?q r) = uint r \<and> q2c ! nat (?q g) = uint g \<and> q2c ! nat (?q b) = uint b" | (near)
    "\<not> (q2c ! nat (?q r) = uint r \<and> q2c ! nat (?q g) = uint g \<and> q2c ! nat (?q b) = uint b)" "?e < ?d" | (far)
    "\<not> (q2c ! nat (?q r) = uint r \<and> q2c ! nat (?q g) = uint g \<and> q2c ! nat (?q b) = uint b)" "\<not> ?e < ?d" by blast
  then show ?thesis
  proof cases
    case 1
    then have "colour_find_rgb r g b = of_nat ?cube OR COLOUR_FLAG_256" "?d \<le> ?e"
      using code exact pos by (simp_all only: if_True simp_thms)
    then show ?thesis unfolding cube [symmetric] grey [symmetric] by blast
  next
    case near
    then have "colour_find_rgb r g b = of_nat (232 + nat idx) OR COLOUR_FLAG_256" "?e \<le> ?d"
      unfolding code if_not_P [OF near(1)] if_P [OF near(2)] by (auto simp only: less_imp_le)
    then show ?thesis unfolding cube [symmetric] grey [symmetric] by blast
  next
    case far
    then have "colour_find_rgb r g b = of_nat ?cube OR COLOUR_FLAG_256" "?d \<le> ?e"
      unfolding code if_not_P [OF far(1)] if_not_P [OF far(2)] by (auto simp only: not_less)
    then show ?thesis unfolding cube [symmetric] grey [symmetric] by blast
  qed
qed

text \<open>
  C40. For every 24-bit colour, \<^verbatim>\<open>colour_find_rgb\<close> returns an entry of the 6x6x6 cube or of the grey ramp, and
  no entry of either is nearer: among the entries 16 to 255 of \<^verbatim>\<open>colour_256toRGB\<close> it has the least squared
  distance to the colour. So the threshold table of the cube and the shortcut that considers one grey only, the one
  at the average of the three channels, lose nothing against a search of the whole palette.
\<close>

theorem colour_find_nearest:
  "\<exists>i. colour_find_rgb r g b = of_nat i OR COLOUR_FLAG_256 \<and> 16 \<le> i \<and> i < 256 \<and>
     (\<forall>j\<in>{16..<256}. palette_dist r g b i \<le> palette_dist r g b j)"
proof -
  let ?X = "nat (colour_to_6cube (uint r))" and ?Y = "nat (colour_to_6cube (uint g))" and ?Z = "nat (colour_to_6cube (uint b))"
  let ?cube = "16 + 36 * ?X + 6 * ?Y + ?Z"
  define avg where "avg = (uint r + uint g + uint b) sdiv 3"
  define idx where "idx = (if avg > 238 then 23 else (avg - 3) sdiv 10)"
  let ?grey = "232 + nat idx"
  note choice = grey_choice [OF avg_def idx_def u8_range(1) u8_range(1) u8_range(1) u8_range(2) u8_range(2) u8_range(2)]
  have cube: "palette_dist r g b ?cube \<le> palette_dist r g b j" if "j \<in> {16..<232}" for j
    using cube_index [OF that] cube_best by blast
  have grey: "palette_dist r g b ?grey \<le> palette_dist r g b j" if "j \<in> {232..<256}" for j
  proof -
    have k: "j = 232 + (j - 232)" "j - 232 < 24" using that by auto
    have "palette_dist r g b ?grey \<le> palette_dist r g b (232 + (j - 232))"
      by (rule grey_best [OF _ k(2)]) (use choice in auto)
    then show ?thesis using k(1) by simp
  qed
  have res: "\<exists>i\<in>{?cube, ?grey}. colour_find_rgb r g b = of_nat i OR COLOUR_FLAG_256 \<and>
      palette_dist r g b i \<le> palette_dist r g b ?cube \<and> palette_dist r g b i \<le> palette_dist r g b ?grey"
    by (rule find_rgb_pick [OF avg_def idx_def])
  then obtain i where i: "i \<in> {?cube, ?grey}" "colour_find_rgb r g b = of_nat i OR COLOUR_FLAG_256"
    "palette_dist r g b i \<le> palette_dist r g b ?cube" "palette_dist r g b i \<le> palette_dist r g b ?grey" by blast
  have "16 \<le> i" "i < 256" using i(1) choice level_small [of r] level_small [of g] level_small [of b] by auto
  moreover have "palette_dist r g b i \<le> palette_dist r g b j" if "j \<in> {16..<256}" for j
    using cube [of j] grey [of j] i(3,4) that by (cases "j < 232") auto
  ultimately show ?thesis using i(2) by blast
qed

theorem colour_find_nearest_witness:
  "\<exists>i. colour_find_rgb 0x31 0x30 0x32 = of_nat i OR COLOUR_FLAG_256 \<and> i < 256 \<and>
     palette_dist 0x31 0x30 0x32 i \<le> palette_dist 0x31 0x30 0x32 59 \<and> palette_dist 0x31 0x30 0x32 i \<le> palette_dist 0x31 0x30 0x32 236"
proof -
  have "59 \<in> {16..<256 :: nat}" "236 \<in> {16..<256 :: nat}" by simp_all
  then show ?thesis using colour_find_nearest [of "0x31" "0x30" "0x32"] by blast
qed

end
