(* ===== verification/Input_Base.thy ===== *)
theory Input_Base
  imports Utf8_Decode Grid Colour
begin

text \<open>
  The input parser of \<^verbatim>\<open>terminal/input.c\<close>, its state and its buffers: \<^verbatim>\<open>struct input_ctx\<close>, the collection of
  intermediate, parameter and string bytes, the splitting of parameters, saving and restoring.

  What the parser does to the rest of the program (the screen that it writes on, the pane, replies to the program in
  the pane) is a \<open>sw_action\<close>; an environment gives the meaning of the actions on a state of its own and the values
  that the parser reads back. The theorems hold in every environment.
\<close>

section \<open>What the parser does to the rest of the program\<close>

abbreviation MODE_CURSOR :: u32 where "MODE_CURSOR \<equiv> 0x1"
abbreviation MODE_INSERT :: u32 where "MODE_INSERT \<equiv> 0x2"
abbreviation MODE_KCURSOR :: u32 where "MODE_KCURSOR \<equiv> 0x4"
abbreviation MODE_KKEYPAD :: u32 where "MODE_KKEYPAD \<equiv> 0x8"
abbreviation MODE_WRAP :: u32 where "MODE_WRAP \<equiv> 0x10"
abbreviation MODE_MOUSE_STANDARD :: u32 where "MODE_MOUSE_STANDARD \<equiv> 0x20"
abbreviation MODE_MOUSE_BUTTON :: u32 where "MODE_MOUSE_BUTTON \<equiv> 0x40"
abbreviation MODE_CURSOR_BLINKING :: u32 where "MODE_CURSOR_BLINKING \<equiv> 0x80"
abbreviation MODE_MOUSE_UTF8 :: u32 where "MODE_MOUSE_UTF8 \<equiv> 0x100"
abbreviation MODE_MOUSE_SGR :: u32 where "MODE_MOUSE_SGR \<equiv> 0x200"
abbreviation MODE_BRACKETPASTE :: u32 where "MODE_BRACKETPASTE \<equiv> 0x400"
abbreviation MODE_FOCUSON :: u32 where "MODE_FOCUSON \<equiv> 0x800"
abbreviation MODE_MOUSE_ALL :: u32 where "MODE_MOUSE_ALL \<equiv> 0x1000"
abbreviation MODE_ORIGIN :: u32 where "MODE_ORIGIN \<equiv> 0x2000"
abbreviation MODE_CRLF :: u32 where "MODE_CRLF \<equiv> 0x4000"
abbreviation MODE_KEYS_EXTENDED :: u32 where "MODE_KEYS_EXTENDED \<equiv> 0x8000"
abbreviation MODE_CURSOR_VERY_VISIBLE :: u32 where "MODE_CURSOR_VERY_VISIBLE \<equiv> 0x10000"
abbreviation MODE_CURSOR_BLINKING_SET :: u32 where "MODE_CURSOR_BLINKING_SET \<equiv> 0x20000"
abbreviation MODE_KEYS_EXTENDED_2 :: u32 where "MODE_KEYS_EXTENDED_2 \<equiv> 0x40000"
abbreviation MODE_THEME_UPDATES :: u32 where "MODE_THEME_UPDATES \<equiv> 0x80000"
abbreviation MODE_SYNC :: u32 where "MODE_SYNC \<equiv> 0x100000"
abbreviation ALL_MOUSE_MODES :: u32 where
  "ALL_MOUSE_MODES \<equiv> MODE_MOUSE_STANDARD OR MODE_MOUSE_BUTTON OR MODE_MOUSE_ALL"
abbreviation EXTENDED_KEY_MODES :: u32 where
  "EXTENDED_KEY_MODES \<equiv> MODE_KEYS_EXTENDED OR MODE_KEYS_EXTENDED_2"

datatype screen_cursor_style = SCREEN_CURSOR_DEFAULT | SCREEN_CURSOR_BLOCK | SCREEN_CURSOR_UNDERLINE | SCREEN_CURSOR_BAR

datatype input_end_type = INPUT_END_ST | INPUT_END_BEL

datatype input_request_type = INPUT_REQUEST_PALETTE | INPUT_REQUEST_CLIPBOARD | INPUT_REQUEST_QUEUE

text \<open>
  The first group are the \<^verbatim>\<open>screen_write_\<close> functions of the same names, the second changes fields of the screen
  directly or by functions of \<^verbatim>\<open>screen.c\<close>, the third changes the pane, its window and the server. \<open>SW_reply\<close> is
  \<^verbatim>\<open>input_reply\<close> and \<open>SW_add_request\<close> is \<^verbatim>\<open>input_add_request\<close>.
\<close>

datatype (plugins only: code size) sw_action =
    SW_collect_end | SW_collect_add grid_cell | SW_backspace | SW_linefeed bool u32 | SW_carriagereturn
  | SW_reset | SW_start_pane | SW_start | SW_start_callback | SW_stop | SW_fullredraw | SW_reverseindex u32 | SW_mode_set u32 | SW_mode_clear u32
  | SW_alignmenttest | SW_cursormove int int bool | SW_cursorleft int | SW_cursorright int | SW_cursorup int
  | SW_cursordown int | SW_clearcharacter int u32 | SW_deletecharacter int u32 | SW_insertcharacter int u32
  | SW_scrollregion int int | SW_deleteline int u32 | SW_insertline int u32 | SW_clearendofscreen u32
  | SW_clearstartofscreen u32 | SW_clearscreen u32 | SW_clearhistory | SW_clearendofline u32
  | SW_clearstartofline u32 | SW_clearline u32 | SW_scrollup int u32 | SW_scrolldown int u32
  | SW_alternateon grid_cell bool | SW_alternateoff grid_cell bool | SW_start_sync | SW_stop_sync
  | SW_rawstring "u8 list" bool
  | SC_set_cx nat | SC_set_tab nat | SC_clear_tab nat | SC_clear_tabs nat | SC_push_title | SC_pop_title
  | SC_set_title "u8 list" | SC_set_path "u8 list" | SC_set_cursor screen_cursor_style u32
  | SC_set_cursor_colour u32 | SC_line_flag nat u32 | SC_progress_bar nat int
  | WP_bell | WP_activity | WP_dirty | WP_set_flags u32 | WP_clear_flags u32 | WP_last_theme client_theme | WP_rename "u8 list option"
  | WP_clipboard string "u8 list"
  | SW_reply bool string | SW_write string | SW_add_request input_request_type int input_end_type

record screen_view =
  sv_grid :: grid
  sv_cx :: nat
  sv_cy :: nat
  sv_mode :: u32
  sv_tabs :: "bool list"
  sv_cstyle :: screen_cursor_style
  sv_ccolour :: u32
  sv_default_ccolour :: u32

text \<open>
  The environment of a parser: the state outside of it, of type \<open>'s\<close>; whether it belongs to a pane (\<open>ie_pane\<close>), which
  may be in a mode, has an event to write replies to and a client (of a popup); the options; and the functions that are not modelled.
\<close>

record 's input_env =
  ie_do :: "sw_action \<Rightarrow> 's \<Rightarrow> 's"
  ie_view :: "'s \<Rightarrow> screen_view"
  ie_hyperlinks_put :: "'s \<Rightarrow> u8 list \<Rightarrow> u8 list option \<Rightarrow> 's \<times> u32"
  ie_theme :: "'s \<Rightarrow> client_theme"
  ie_foreground :: "'s \<Rightarrow> u32"
  ie_background :: "'s \<Rightarrow> u32"
  ie_cells :: utf8_table
  ie_utf8 :: utf8_env
  ie_pane :: bool
  ie_in_mode :: bool
  ie_event :: bool
  ie_client :: bool
  ie_xpixel :: nat
  ie_ypixel :: nat
  ie_buffer_size :: nat
  ie_extended_keys :: nat
  ie_cursor_style :: int
  ie_get_clipboard :: nat
  ie_set_clipboard :: nat
  ie_allow_passthrough :: nat
  ie_allow_set_title :: bool
  ie_allow_rename :: bool
  ie_paste_top :: "u8 list option"
  ie_parseX11 :: "u8 list \<Rightarrow> u32"
  ie_b64_pton :: "u8 list \<Rightarrow> u8 list option"
  ie_b64_ntop :: "u8 list \<Rightarrow> string option"
  ie_version :: string

section \<open>The context\<close>

record input_cell =
  icl_cell :: grid_cell
  icl_set :: bool
  icl_g0set :: bool
  icl_g1set :: bool

datatype input_param = INPUT_MISSING | INPUT_NUMBER int | INPUT_STRING "u8 list"

datatype input_state =
    Ground | Esc_enter | Esc_intermediate | Csi_enter | Csi_parameter | Csi_intermediate | Csi_ignore
  | Dcs_enter | Dcs_parameter | Dcs_intermediate | Dcs_handler | Dcs_escape | Dcs_ignore
  | Osc_string | Apc_string | Rename_string | Consume_st

text \<open>
  The buffers are the bytes they hold (their lengths are \<^verbatim>\<open>interm_len\<close>, \<^verbatim>\<open>param_len\<close> and \<^verbatim>\<open>input_len\<close>);
  \<open>ic_discard\<close> and \<open>ic_lastset\<close> are the bits \<^verbatim>\<open>INPUT_DISCARD\<close> and \<^verbatim>\<open>INPUT_LAST\<close> of the flags; \<open>ic_timer\<close> says
  that the ground timer is running.
\<close>

record 's input_ctx =
  ic_screen :: 's
  ic_palette :: "colour_palette option"
  ic_cell :: input_cell
  ic_old_cell :: input_cell
  ic_old_cx :: nat
  ic_old_cy :: nat
  ic_old_mode :: u32
  ic_interm :: "u8 list"
  ic_param :: "u8 list"
  ic_input :: "u8 list"
  ic_space :: nat
  ic_end :: input_end_type
  ic_params :: "input_param list"
  ic_utf8 :: utf8_data
  ic_utf8started :: bool
  ic_ch :: u8
  ic_last :: utf8_data
  ic_state :: input_state
  ic_discard :: bool
  ic_lastset :: bool
  ic_since_ground :: "u8 list"
  ic_timer :: bool

definition act :: "'s input_env \<Rightarrow> sw_action \<Rightarrow> 's input_ctx \<Rightarrow> 's input_ctx" where
  "act env a ictx = ictx\<lparr>ic_screen := ie_do env a (ic_screen ictx)\<rparr>"

abbreviation view :: "'s input_env \<Rightarrow> 's input_ctx \<Rightarrow> screen_view" where
  "view env ictx \<equiv> ie_view env (ic_screen ictx)"

abbreviation gc_update :: "(grid_cell \<Rightarrow> grid_cell) \<Rightarrow> 's input_ctx \<Rightarrow> 's input_ctx" where
  "gc_update f ictx \<equiv> ictx\<lparr>ic_cell := (ic_cell ictx)\<lparr>icl_cell := f (icl_cell (ic_cell ictx))\<rparr>\<rparr>"

abbreviation cell_bg :: "'s input_ctx \<Rightarrow> u32" where
  "cell_bg ictx \<equiv> gc_bg (icl_cell (ic_cell ictx))"

text \<open>A buffer as a C string of characters.\<close>

definition chars :: "u8 list \<Rightarrow> string" where
  "chars bs = map (\<lambda>b. char_of (unat b)) bs"

abbreviation INPUT_BUF_START :: nat where "INPUT_BUF_START \<equiv> 32"

section \<open>Resetting, saving, restoring\<close>

definition input_replacement :: utf8_data where
  "input_replacement = \<lparr>ud_data = [0xef, 0xbf, 0xbd] @ replicate 29 0, ud_have = 3, ud_size = 3, ud_width = 1\<rparr>"

definition input_stop_utf8 :: "'s input_env \<Rightarrow> 's input_ctx \<Rightarrow> 's input_ctx" where
  "input_stop_utf8 env ictx =
     (if ic_utf8started ictx then
        (let ictx1 = gc_update (\<lambda>gc. gc\<lparr>gc_data := utf8_copy input_replacement\<rparr>) ictx
         in (act env (SW_collect_add (icl_cell (ic_cell ictx1))) ictx1)\<lparr>ic_utf8started := False\<rparr>)
      else ictx\<lparr>ic_utf8started := False\<rparr>)"

definition input_start_ground_timer :: "'s input_ctx \<Rightarrow> 's input_ctx" where
  "input_start_ground_timer ictx = ictx\<lparr>ic_timer := True\<rparr>"

definition input_reset_cell :: "'s input_ctx \<Rightarrow> 's input_ctx" where
  "input_reset_cell ictx =
     (let cell = \<lparr>icl_cell = grid_default_cell, icl_set = False, icl_g0set = False, icl_g1set = False\<rparr>
      in ictx\<lparr>ic_cell := cell, ic_old_cell := cell, ic_old_cx := 0, ic_old_cy := 0\<rparr>)"

definition input_save_state :: "'s input_env \<Rightarrow> 's input_ctx \<Rightarrow> 's input_ctx" where
  "input_save_state env ictx =
     ictx\<lparr>ic_old_cell := ic_cell ictx, ic_old_cx := sv_cx (view env ictx), ic_old_cy := sv_cy (view env ictx),
       ic_old_mode := sv_mode (view env ictx)\<rparr>"

definition input_restore_state :: "'s input_env \<Rightarrow> 's input_ctx \<Rightarrow> 's input_ctx" where
  "input_restore_state env ictx =
     (let ictx1 = ictx\<lparr>ic_cell := ic_old_cell ictx\<rparr>;
          ictx2 = act env (if ic_old_mode ictx AND MODE_ORIGIN \<noteq> 0 then SW_mode_set MODE_ORIGIN else SW_mode_clear MODE_ORIGIN) ictx1
      in act env (SW_cursormove (int (ic_old_cx ictx)) (int (ic_old_cy ictx)) False) ictx2)"

definition input_clear :: "'s input_ctx \<Rightarrow> 's input_ctx" where
  "input_clear ictx =
     ictx\<lparr>ic_timer := False, ic_interm := [], ic_param := [], ic_input := [], ic_end := INPUT_END_ST, ic_discard := False\<rparr>"

definition input_reset :: "'s input_env \<Rightarrow> 's input_ctx \<Rightarrow> bool \<Rightarrow> 's input_ctx" where
  "input_reset env ictx clear =
     (let ictx1 = input_reset_cell ictx;
          ictx2 = (if clear \<and> ie_pane env
            then act env SW_stop (act env SW_reset (act env (if ie_in_mode env then SW_start else SW_start_pane) ictx1)) else ictx1)
      in (input_clear ictx2)\<lparr>ic_state := Ground, ic_discard := False, ic_lastset := False\<rparr>)"

definition input_ground :: "'s input_ctx \<Rightarrow> 's input_ctx" where
  "input_ground ictx =
     (let ictx1 = ictx\<lparr>ic_timer := False, ic_since_ground := []\<rparr>
      in if ic_space ictx1 > INPUT_BUF_START then ictx1\<lparr>ic_space := INPUT_BUF_START\<rparr> else ictx1)"

definition input_init :: "'s input_env \<Rightarrow> 's \<Rightarrow> colour_palette option \<Rightarrow> 's input_ctx" where
  "input_init env s palette =
     (let zero = grid_default_cell\<lparr>gc_data := ud_zero, gc_fg := 0, gc_bg := 0, gc_us := 0\<rparr>;
          cell = \<lparr>icl_cell = zero, icl_set = False, icl_g0set = False, icl_g1set = False\<rparr>
      in input_reset env
        \<lparr>ic_screen = s, ic_palette = palette, ic_cell = cell, ic_old_cell = cell, ic_old_cx = 0, ic_old_cy = 0,
          ic_old_mode = 0, ic_interm = [], ic_param = [], ic_input = [], ic_space = INPUT_BUF_START,
          ic_end = INPUT_END_ST, ic_params = [], ic_utf8 = ud_zero, ic_utf8started = False, ic_ch = 0,
          ic_last = ud_zero, ic_state = Ground, ic_discard = False, ic_lastset = False, ic_since_ground = [],
          ic_timer = False\<rparr> False)"

definition input_ground_timer_callback :: "'s input_env \<Rightarrow> 's input_ctx \<Rightarrow> 's input_ctx" where
  "input_ground_timer_callback env ictx = input_reset env (ictx\<lparr>ic_timer := False\<rparr>) False"

section \<open>Collecting\<close>

definition input_intermediate :: "'s input_ctx \<Rightarrow> 's input_ctx" where
  "input_intermediate ictx =
     (if length (ic_interm ictx) = 3 then ictx\<lparr>ic_discard := True\<rparr>
      else ictx\<lparr>ic_interm := ic_interm ictx @ [ic_ch ictx]\<rparr>)"

definition input_parameter :: "'s input_ctx \<Rightarrow> 's input_ctx" where
  "input_parameter ictx =
     (if length (ic_param ictx) = 63 then ictx\<lparr>ic_discard := True\<rparr>
      else ictx\<lparr>ic_param := ic_param ictx @ [ic_ch ictx]\<rparr>)"

text \<open>The space after growing it for \<open>n\<close> bytes, and whether they fit. A buffer of no space would be grown forever.\<close>

function input_grow :: "nat \<Rightarrow> nat \<Rightarrow> nat \<Rightarrow> (nat \<times> bool) option" where
  "input_grow limit n space =
     (if n + 1 < space then Some (space, True)
      else if space = 0 then None
      else if 2 * space > limit then Some (space, False)
      else input_grow limit n (2 * space))"
  by pat_completeness auto

termination by (relation "measure (\<lambda>(limit, n, space). n + 2 - space)") auto

declare input_grow.simps [simp del]

definition input_input :: "'s input_env \<Rightarrow> 's input_ctx \<Rightarrow> 's input_ctx option" where
  "input_input env ictx =
     map_option
       (\<lambda>(space, ok). if ok then ictx\<lparr>ic_space := space, ic_input := ic_input ictx @ [ic_ch ictx]\<rparr>
          else ictx\<lparr>ic_space := space, ic_discard := True\<rparr>)
       (input_grow (ie_buffer_size env) (length (ic_input ictx)) (ic_space ictx))"

section \<open>Parameters\<close>

abbreviation INT_MAX :: int where "INT_MAX \<equiv> 2147483647"

text \<open>
  The fields of the parameter buffer between semicolons. The list has 24 places; the result is false when a number is
  not one or all 24 are used, and the parameters before that stay in the list.
\<close>

fun split_params :: "u8 list list \<Rightarrow> input_param list \<Rightarrow> bool \<times> input_param list" where
  "split_params [] ps = (True, ps)"
| "split_params (out # outs) ps =
     (let next = (\<lambda>p. if Suc (length ps) = 24 then (False, ps @ [p]) else split_params outs (ps @ [p]))
      in if out = [] then next INPUT_MISSING
         else if 0x3a \<in> set out then next (INPUT_STRING out)
         else (case strtonum (chars out) 0 INT_MAX of None \<Rightarrow> (False, ps) | Some n \<Rightarrow> next (INPUT_NUMBER n)))"

definition input_split :: "'s input_ctx \<Rightarrow> bool \<times> 's input_ctx" where
  "input_split ictx =
     (if ic_param ictx = [] then (True, ictx\<lparr>ic_params := []\<rparr>)
      else (case split_params (strsep_all 0x3b (ic_param ictx)) [] of (ok, ps) \<Rightarrow> (ok, ictx\<lparr>ic_params := ps\<rparr>)))"

definition input_get :: "'s input_ctx \<Rightarrow> nat \<Rightarrow> int \<Rightarrow> int \<Rightarrow> int" where
  "input_get ictx validx minval defval =
     (if validx \<ge> length (ic_params ictx) then defval
      else
        (case ic_params ictx ! validx of
           INPUT_MISSING \<Rightarrow> defval
         | INPUT_STRING s \<Rightarrow> - 1
         | INPUT_NUMBER n \<Rightarrow> if n < minval then minval else n))"

end
