(* ===== verification/Input_Csi.thy ===== *)
theory Input_Csi
  imports Input_Base
begin

text \<open>
  The control characters, escape sequences and control sequences of \<^verbatim>\<open>terminal/input.c\<close>: \<^verbatim>\<open>input_c0_dispatch\<close>,
  \<^verbatim>\<open>input_esc_dispatch\<close>, \<^verbatim>\<open>input_csi_dispatch\<close> and what they call.
\<close>

section \<open>Characters\<close>

abbreviation GRID_ATTR_BRIGHT :: u16 where "GRID_ATTR_BRIGHT \<equiv> 0x1"
abbreviation GRID_ATTR_DIM :: u16 where "GRID_ATTR_DIM \<equiv> 0x2"
abbreviation GRID_ATTR_UNDERSCORE :: u16 where "GRID_ATTR_UNDERSCORE \<equiv> 0x4"
abbreviation GRID_ATTR_BLINK :: u16 where "GRID_ATTR_BLINK \<equiv> 0x8"
abbreviation GRID_ATTR_REVERSE :: u16 where "GRID_ATTR_REVERSE \<equiv> 0x10"
abbreviation GRID_ATTR_HIDDEN :: u16 where "GRID_ATTR_HIDDEN \<equiv> 0x20"
abbreviation GRID_ATTR_ITALICS :: u16 where "GRID_ATTR_ITALICS \<equiv> 0x40"
abbreviation GRID_ATTR_CHARSET :: u16 where "GRID_ATTR_CHARSET \<equiv> 0x80"
abbreviation GRID_ATTR_STRIKETHROUGH :: u16 where "GRID_ATTR_STRIKETHROUGH \<equiv> 0x100"
abbreviation GRID_ATTR_UNDERSCORE_2 :: u16 where "GRID_ATTR_UNDERSCORE_2 \<equiv> 0x200"
abbreviation GRID_ATTR_UNDERSCORE_3 :: u16 where "GRID_ATTR_UNDERSCORE_3 \<equiv> 0x400"
abbreviation GRID_ATTR_UNDERSCORE_4 :: u16 where "GRID_ATTR_UNDERSCORE_4 \<equiv> 0x800"
abbreviation GRID_ATTR_UNDERSCORE_5 :: u16 where "GRID_ATTR_UNDERSCORE_5 \<equiv> 0x1000"
abbreviation GRID_ATTR_OVERLINE :: u16 where "GRID_ATTR_OVERLINE \<equiv> 0x2000"

definition GRID_ATTR_ALL_UNDERSCORE :: u16 where
  "GRID_ATTR_ALL_UNDERSCORE = GRID_ATTR_UNDERSCORE OR GRID_ATTR_UNDERSCORE_2 OR GRID_ATTR_UNDERSCORE_3
     OR GRID_ATTR_UNDERSCORE_4 OR GRID_ATTR_UNDERSCORE_5"

definition set_attr :: "u16 \<Rightarrow> grid_cell \<Rightarrow> grid_cell" where
  "set_attr a gc = gc\<lparr>gc_attr := gc_attr gc OR a\<rparr>"

definition clear_attr :: "u16 \<Rightarrow> grid_cell \<Rightarrow> grid_cell" where
  "clear_attr a gc = gc\<lparr>gc_attr := gc_attr gc AND NOT a\<rparr>"

text \<open>The character set in use, with its attribute; the cell is then filled with the character.\<close>

definition charset_cell :: "utf8_data \<Rightarrow> 's input_ctx \<Rightarrow> 's input_ctx" where
  "charset_cell ud ictx =
     (let cell = ic_cell ictx;
          set = (if icl_set cell then icl_g1set cell else icl_g0set cell)
      in gc_update (\<lambda>gc. ((if set then set_attr else clear_attr) GRID_ATTR_CHARSET gc)\<lparr>gc_data := ud\<rparr>) ictx)"

definition input_print :: "'s input_env \<Rightarrow> 's input_ctx \<Rightarrow> 's input_ctx" where
  "input_print env ictx =
     (let ictx1 = charset_cell (utf8_set (ic_ch ictx)) (input_stop_utf8 env ictx);
          ictx2 = act env (SW_collect_add (icl_cell (ic_cell ictx1))) ictx1
      in gc_update (clear_attr GRID_ATTR_CHARSET)
           (ictx2\<lparr>ic_last := utf8_copy (gc_data (icl_cell (ic_cell ictx2))), ic_lastset := True\<rparr>))"

definition bit_test :: "bool list \<Rightarrow> nat \<Rightarrow> bool" where
  "bit_test tabs i \<longleftrightarrow> i < length tabs \<and> tabs ! i"

text \<open>The next tab stop after \<open>cx\<close>, or the last column, and whether the cells up to it have content.\<close>

function next_tab :: "utf8_table \<Rightarrow> screen_view \<Rightarrow> nat \<Rightarrow> grid_cell \<Rightarrow> nat \<Rightarrow> bool \<Rightarrow> nat \<times> bool" where
  "next_tab tab v line first cx has =
     (let gc = grid_get_cell tab (sv_grid v) cx line;
          has' = (has \<or> ud_size (gc_data gc) \<noteq> 1 \<or> ud_data (gc_data gc) ! 0 \<noteq> 0x20 \<or> \<not> grid_cells_look_equal gc first)
      in if bit_test (sv_tabs v) (Suc cx) \<or> Suc (Suc cx) \<ge> gd_sx (sv_grid v) then (Suc cx, has')
         else next_tab tab v line first (Suc cx) has')"
  by pat_completeness auto

termination by (relation "measure (\<lambda>(tab, v, line, first, cx, has). gd_sx (sv_grid v) - cx)") auto

declare next_tab.simps [simp del]

text \<open>A screen has at least one column.\<close>

definition input_tab :: "'s input_env \<Rightarrow> 's input_ctx \<Rightarrow> 's input_ctx" where
  "input_tab env ictx =
     (let v = view env ictx; cx0 = sv_cx v; line = sv_cy v + hsize (sv_grid v)
      in if Suc cx0 \<ge> gd_sx (sv_grid v) then ictx
         else
           (let first = grid_get_cell (ie_cells env) (sv_grid v) cx0 line;
                (cx, has) = next_tab (ie_cells env) v line first cx0 False;
                width = cx - cx0
            in if has \<or> width > UTF8_SIZE then act env (SC_set_cx cx) ictx
               else act env (SW_collect_add (grid_set_tab (grid_get_cell (ie_cells env) (sv_grid v) cx0 line) (of_nat width))) ictx))"

definition input_c0_dispatch :: "'s input_env \<Rightarrow> 's input_ctx \<Rightarrow> 's input_ctx" where
  "input_c0_dispatch env ictx =
     (let ictx1 = input_stop_utf8 env ictx; ch = ic_ch ictx1; bg = cell_bg ictx1;
          ictx2 =
            (if ch = 0x07 then (if ie_pane env then act env WP_bell ictx1 else ictx1)
             else if ch = 0x08 then act env SW_backspace ictx1
             else if ch = 0x09 then input_tab env ictx1
             else if ch = 0x0a \<or> ch = 0x0b \<or> ch = 0x0c then
               (let ictx2 = act env (SW_linefeed False bg) ictx1
                in if sv_mode (view env ictx2) AND MODE_CRLF \<noteq> 0 then act env SW_carriagereturn ictx2 else ictx2)
             else if ch = 0x0d then act env SW_carriagereturn ictx1
             else if ch = 0x0e then ictx1\<lparr>ic_cell := (ic_cell ictx1)\<lparr>icl_set := True\<rparr>\<rparr>
             else if ch = 0x0f then ictx1\<lparr>ic_cell := (ic_cell ictx1)\<lparr>icl_set := False\<rparr>\<rparr>
             else ictx1)
      in ictx2\<lparr>ic_lastset := False\<rparr>)"

text \<open>A byte with the top bit set: open a UTF-8 character or append to it.\<close>

definition input_top_bit_set :: "'s input_env \<Rightarrow> 's input_ctx \<Rightarrow> 's input_ctx option" where
  "input_top_bit_set env ictx =
     (let ictx0 = ictx\<lparr>ic_lastset := False\<rparr>
      in if \<not> ic_utf8started ictx0 then
           map_option
             (\<lambda>(more, ud).
               (let ictx1 = ictx0\<lparr>ic_utf8started := True, ic_utf8 := ud\<rparr>
                in if more \<noteq> UTF8_MORE then input_stop_utf8 env ictx1 else ictx1))
             (utf8_open (ie_utf8 env) (ic_ch ictx0))
         else
           map_option
             (\<lambda>(more, ud).
               (let ictx1 = ictx0\<lparr>ic_utf8 := ud\<rparr>
                in case more of
                     UTF8_MORE \<Rightarrow> ictx1
                   | UTF8_ERROR \<Rightarrow> input_stop_utf8 env ictx1
                   | UTF8_DONE \<Rightarrow>
                       (let ictx2 = gc_update (\<lambda>gc. gc\<lparr>gc_data := utf8_copy ud\<rparr>) (ictx1\<lparr>ic_utf8started := False\<rparr>);
                            ictx3 = act env (SW_collect_add (icl_cell (ic_cell ictx2))) ictx2
                        in ictx3\<lparr>ic_last := utf8_copy (gc_data (icl_cell (ic_cell ictx3))), ic_lastset := True\<rparr>)))
             (utf8_append (ie_utf8 env) (ic_utf8 ictx0) (ic_ch ictx0)))"

section \<open>Escape sequences\<close>

datatype input_esc_type =
    INPUT_ESC_DECALN | INPUT_ESC_DECKPAM | INPUT_ESC_DECKPNM | INPUT_ESC_DECRC | INPUT_ESC_DECSC | INPUT_ESC_HTS
  | INPUT_ESC_IND | INPUT_ESC_NEL | INPUT_ESC_RI | INPUT_ESC_RIS | INPUT_ESC_SCSG0_OFF | INPUT_ESC_SCSG0_ON
  | INPUT_ESC_SCSG1_OFF | INPUT_ESC_SCSG1_ON | INPUT_ESC_ST

definition input_esc_table :: "(char \<times> string \<times> input_esc_type) list" where
  "input_esc_table =
    [(CHR ''0'', ''('', INPUT_ESC_SCSG0_ON), (CHR ''0'', '')'', INPUT_ESC_SCSG1_ON), (CHR ''7'', '''', INPUT_ESC_DECSC),
     (CHR ''8'', '''', INPUT_ESC_DECRC), (CHR ''8'', ''#'', INPUT_ESC_DECALN), (CHR ''='', '''', INPUT_ESC_DECKPAM),
     (CHR ''>'', '''', INPUT_ESC_DECKPNM), (CHR ''B'', ''('', INPUT_ESC_SCSG0_OFF), (CHR ''B'', '')'', INPUT_ESC_SCSG1_OFF),
     (CHR ''D'', '''', INPUT_ESC_IND), (CHR ''E'', '''', INPUT_ESC_NEL), (CHR ''H'', '''', INPUT_ESC_HTS),
     (CHR ''M'', '''', INPUT_ESC_RI), (CHR 0x5C, '''', INPUT_ESC_ST), (CHR ''c'', '''', INPUT_ESC_RIS)]"

text \<open>\<^verbatim>\<open>bsearch\<close> in a table ordered by character and intermediate string.\<close>

definition table_find :: "(char \<times> string \<times> 'a) list \<Rightarrow> 's input_ctx \<Rightarrow> 'a option" where
  "table_find table ictx =
     map_option (\<lambda>(c, interm, t). t)
       (find (\<lambda>(c, interm, t). c = char_of (unat (ic_ch ictx)) \<and> interm = chars (ic_interm ictx)) table)"

definition set_cell :: "(input_cell \<Rightarrow> input_cell) \<Rightarrow> 's input_ctx \<Rightarrow> 's input_ctx" where
  "set_cell f ictx = ictx\<lparr>ic_cell := f (ic_cell ictx)\<rparr>"

definition input_esc_run :: "'s input_env \<Rightarrow> input_esc_type \<Rightarrow> 's input_ctx \<Rightarrow> 's input_ctx" where
  "input_esc_run env t ictx =
     (let bg = cell_bg ictx; v = view env ictx
      in case t of
           INPUT_ESC_RIS \<Rightarrow>
             act env SW_fullredraw (act env SW_reset
               (input_reset_cell (ictx\<lparr>ic_palette := colour_palette_clear (ic_palette ictx)\<rparr>)))
         | INPUT_ESC_IND \<Rightarrow> act env (SW_linefeed False bg) ictx
         | INPUT_ESC_NEL \<Rightarrow> act env (SW_linefeed False bg) (act env SW_carriagereturn ictx)
         | INPUT_ESC_HTS \<Rightarrow> if sv_cx v < gd_sx (sv_grid v) then act env (SC_set_tab (sv_cx v)) ictx else ictx
         | INPUT_ESC_RI \<Rightarrow> act env (SW_reverseindex bg) ictx
         | INPUT_ESC_DECKPAM \<Rightarrow> act env (SW_mode_set MODE_KKEYPAD) ictx
         | INPUT_ESC_DECKPNM \<Rightarrow> act env (SW_mode_clear MODE_KKEYPAD) ictx
         | INPUT_ESC_DECSC \<Rightarrow> input_save_state env ictx
         | INPUT_ESC_DECRC \<Rightarrow> input_restore_state env ictx
         | INPUT_ESC_DECALN \<Rightarrow> act env SW_alignmenttest ictx
         | INPUT_ESC_SCSG0_ON \<Rightarrow> set_cell (icl_g0set_update (\<lambda>_. True)) ictx
         | INPUT_ESC_SCSG0_OFF \<Rightarrow> set_cell (icl_g0set_update (\<lambda>_. False)) ictx
         | INPUT_ESC_SCSG1_ON \<Rightarrow> set_cell (icl_g1set_update (\<lambda>_. True)) ictx
         | INPUT_ESC_SCSG1_OFF \<Rightarrow> set_cell (icl_g1set_update (\<lambda>_. False)) ictx
         | INPUT_ESC_ST \<Rightarrow> ictx)"

definition input_esc_dispatch :: "'s input_env \<Rightarrow> 's input_ctx \<Rightarrow> 's input_ctx" where
  "input_esc_dispatch env ictx =
     (if ic_discard ictx then ictx
      else
        (case table_find input_esc_table ictx of
           None \<Rightarrow> ictx
         | Some t \<Rightarrow> (input_esc_run env t ictx)\<lparr>ic_lastset := False\<rparr>))"

end
