(* ===== verification/Input_Sgr.thy ===== *)
theory Input_Sgr
  imports Input_Csi
begin

text \<open>
  The attributes and colours of the current cell, \<^verbatim>\<open>input_csi_dispatch_sgr\<close> of \<^verbatim>\<open>terminal/input.c\<close> and its helpers.
  They change the current cell only, so they are functions on cells, given the parameters.
\<close>

definition input_csi_dispatch_sgr_256_do :: "int \<Rightarrow> int \<Rightarrow> grid_cell \<Rightarrow> grid_cell" where
  "input_csi_dispatch_sgr_256_do fgbg c gc =
     (if c = - 1 \<or> c > 255 then
        (if fgbg = 38 then gc\<lparr>gc_fg := 8\<rparr> else if fgbg = 48 then gc\<lparr>gc_bg := 8\<rparr> else gc)
      else
        (let colour = word_of_int c OR COLOUR_FLAG_256
         in if fgbg = 38 then gc\<lparr>gc_fg := colour\<rparr> else if fgbg = 48 then gc\<lparr>gc_bg := colour\<rparr>
            else if fgbg = 58 then gc\<lparr>gc_us := colour\<rparr> else gc))"

definition input_csi_dispatch_sgr_rgb_do :: "int \<Rightarrow> int \<Rightarrow> int \<Rightarrow> int \<Rightarrow> grid_cell \<Rightarrow> bool \<times> grid_cell" where
  "input_csi_dispatch_sgr_rgb_do fgbg r g b gc =
     (if r = - 1 \<or> r > 255 \<or> g = - 1 \<or> g > 255 \<or> b = - 1 \<or> b > 255 then (False, gc)
      else
        (let colour = colour_join_rgb (word_of_int r) (word_of_int g) (word_of_int b)
         in (True, if fgbg = 38 then gc\<lparr>gc_fg := colour\<rparr> else if fgbg = 48 then gc\<lparr>gc_bg := colour\<rparr>
                   else if fgbg = 58 then gc\<lparr>gc_us := colour\<rparr> else gc)))"

text \<open>\<^verbatim>\<open>input_get\<close> on a list of parameters.\<close>

definition param_get :: "input_param list \<Rightarrow> nat \<Rightarrow> int \<Rightarrow> int \<Rightarrow> int" where
  "param_get ps validx minval defval =
     (if validx \<ge> length ps then defval
      else
        (case ps ! validx of
           INPUT_MISSING \<Rightarrow> defval
         | INPUT_STRING s \<Rightarrow> - 1
         | INPUT_NUMBER n \<Rightarrow> if n < minval then minval else n))"

lemma input_get_param: "input_get ictx = param_get (ic_params ictx)"
  by (intro ext) (simp add: input_get_def param_get_def)

text \<open>The results are the index of the last parameter used, and the cell.\<close>

definition input_csi_dispatch_sgr_256 :: "input_param list \<Rightarrow> int \<Rightarrow> nat \<Rightarrow> grid_cell \<Rightarrow> nat \<times> grid_cell" where
  "input_csi_dispatch_sgr_256 ps fgbg i gc =
     (Suc i, input_csi_dispatch_sgr_256_do fgbg (param_get ps (i + 1) 0 (- 1)) gc)"

definition input_csi_dispatch_sgr_rgb :: "input_param list \<Rightarrow> int \<Rightarrow> nat \<Rightarrow> grid_cell \<Rightarrow> nat \<times> grid_cell" where
  "input_csi_dispatch_sgr_rgb ps fgbg i gc =
     (case input_csi_dispatch_sgr_rgb_do fgbg (param_get ps (i + 1) 0 (- 1)) (param_get ps (i + 2) 0 (- 1))
             (param_get ps (i + 3) 0 (- 1)) gc of
        (ok, gc') \<Rightarrow> (if ok then i + 3 else i, gc'))"

text \<open>
  The fields of a parameter with colons: eight places, of which the last is never used; no value for an empty field;
  \<open>None\<close> when there are too many or one is not a number.
\<close>

fun colon_fields :: "u8 list list \<Rightarrow> int list \<Rightarrow> int list option" where
  "colon_fields [] p = Some p"
| "colon_fields (out # outs) p =
     (if out \<noteq> [] then
        (case strtonum (chars out) 0 INT_MAX of
           None \<Rightarrow> None
         | Some v \<Rightarrow> if Suc (length p) = 8 then None else colon_fields outs (p @ [v]))
      else if Suc (length p) = 8 then None
      else colon_fields outs (p @ [- 1]))"

definition field :: "int list \<Rightarrow> nat \<Rightarrow> int" where
  "field p i = (if i < length p then p ! i else - 1)"

definition underscore_style :: "int \<Rightarrow> grid_cell \<Rightarrow> grid_cell" where
  "underscore_style v gc =
     (let off = clear_attr GRID_ATTR_ALL_UNDERSCORE gc
      in if v = 0 then off
         else if v = 1 then set_attr GRID_ATTR_UNDERSCORE off
         else if v = 2 then set_attr GRID_ATTR_UNDERSCORE_2 off
         else if v = 3 then set_attr GRID_ATTR_UNDERSCORE_3 off
         else if v = 4 then set_attr GRID_ATTR_UNDERSCORE_4 off
         else if v = 5 then set_attr GRID_ATTR_UNDERSCORE_5 off
         else gc)"

definition input_csi_dispatch_sgr_colon :: "u8 list \<Rightarrow> grid_cell \<Rightarrow> grid_cell" where
  "input_csi_dispatch_sgr_colon s gc =
     (case colon_fields (strsep_all 0x3a s) [] of
        None \<Rightarrow> gc
      | Some p \<Rightarrow>
          (let n = length p
           in if n = 0 then gc
              else if field p 0 = 4 then (if n \<noteq> 2 then gc else underscore_style (field p 1) gc)
              else if n < 2 \<or> field p 0 \<noteq> 38 \<and> field p 0 \<noteq> 48 \<and> field p 0 \<noteq> 58 then gc
              else if field p 1 = 2 then
                (let i = (if n = 5 then 2 else 3)
                 in if n < 3 \<or> n < i + 3 then gc
                    else snd (input_csi_dispatch_sgr_rgb_do (field p 0) (field p i) (field p (i + 1)) (field p (i + 2)) gc))
              else if field p 1 = 5 then
                (if n < 3 then gc else input_csi_dispatch_sgr_256_do (field p 0) (field p 2) gc)
              else gc))"

definition sgr_one :: "int \<Rightarrow> grid_cell \<Rightarrow> grid_cell" where
  "sgr_one n gc =
     (if n = 0 then grid_default_cell\<lparr>gc_link := gc_link gc\<rparr>
      else if n = 1 then set_attr GRID_ATTR_BRIGHT gc
      else if n = 2 then set_attr GRID_ATTR_DIM gc
      else if n = 3 then set_attr GRID_ATTR_ITALICS gc
      else if n = 4 then set_attr GRID_ATTR_UNDERSCORE (clear_attr GRID_ATTR_ALL_UNDERSCORE gc)
      else if n = 5 \<or> n = 6 then set_attr GRID_ATTR_BLINK gc
      else if n = 7 then set_attr GRID_ATTR_REVERSE gc
      else if n = 8 then set_attr GRID_ATTR_HIDDEN gc
      else if n = 9 then set_attr GRID_ATTR_STRIKETHROUGH gc
      else if n = 21 then set_attr GRID_ATTR_UNDERSCORE_2 (clear_attr GRID_ATTR_ALL_UNDERSCORE gc)
      else if n = 22 then clear_attr (GRID_ATTR_BRIGHT OR GRID_ATTR_DIM) gc
      else if n = 23 then clear_attr GRID_ATTR_ITALICS gc
      else if n = 24 then clear_attr GRID_ATTR_ALL_UNDERSCORE gc
      else if n = 25 then clear_attr GRID_ATTR_BLINK gc
      else if n = 27 then clear_attr GRID_ATTR_REVERSE gc
      else if n = 28 then clear_attr GRID_ATTR_HIDDEN gc
      else if n = 29 then clear_attr GRID_ATTR_STRIKETHROUGH gc
      else if 30 \<le> n \<and> n \<le> 37 then gc\<lparr>gc_fg := word_of_int (n - 30)\<rparr>
      else if n = 39 then gc\<lparr>gc_fg := 8\<rparr>
      else if 40 \<le> n \<and> n \<le> 47 then gc\<lparr>gc_bg := word_of_int (n - 40)\<rparr>
      else if n = 49 then gc\<lparr>gc_bg := 8\<rparr>
      else if n = 53 then set_attr GRID_ATTR_OVERLINE gc
      else if n = 55 then clear_attr GRID_ATTR_OVERLINE gc
      else if n = 59 then gc\<lparr>gc_us := 8\<rparr>
      else if 90 \<le> n \<and> n \<le> 97 then gc\<lparr>gc_fg := word_of_int n\<rparr>
      else if 100 \<le> n \<and> n \<le> 107 then gc\<lparr>gc_bg := word_of_int (n - 10)\<rparr>
      else gc)"

lemma sgr_256_index: "fst (input_csi_dispatch_sgr_256 ps fgbg i gc) = Suc i"
  by (simp add: input_csi_dispatch_sgr_256_def)

lemma sgr_rgb_index: "i \<le> fst (input_csi_dispatch_sgr_rgb ps fgbg i gc)"
  by (simp add: input_csi_dispatch_sgr_rgb_def split: prod.split)

text \<open>One turn of the loop over the parameters: the index that the next turn has, and the cell.\<close>

definition sgr_turn :: "input_param list \<Rightarrow> nat \<Rightarrow> grid_cell \<Rightarrow> nat \<times> grid_cell" where
  "sgr_turn ps i gc =
     (case ps ! i of
        INPUT_STRING s \<Rightarrow> (Suc i, input_csi_dispatch_sgr_colon s gc)
      | _ \<Rightarrow>
          (let n = param_get ps i 0 0
           in if n = - 1 then (Suc i, gc)
              else if n = 38 \<or> n = 48 \<or> n = 58 then
                (let m = param_get ps (Suc i) 0 (- 1)
                 in if m = 2 then map_prod Suc id (input_csi_dispatch_sgr_rgb ps n (Suc i) gc)
                    else if m = 5 then map_prod Suc id (input_csi_dispatch_sgr_256 ps n (Suc i) gc)
                    else (Suc (Suc i), gc))
              else (Suc i, sgr_one n gc)))"

lemma sgr_turn_later: "sgr_turn ps i gc = (j, gc') \<Longrightarrow> i < j"
  using sgr_256_index [of ps _ "Suc i" gc] sgr_rgb_index [of "Suc i" ps _ gc]
  by (auto simp: sgr_turn_def Let_def map_prod_def Suc_le_eq split: input_param.splits if_splits prod.splits)
    (metis Suc_lessD fst_conv less_SucI Suc_le_lessD lessI)+

function sgr_loop :: "input_param list \<Rightarrow> nat \<Rightarrow> grid_cell \<Rightarrow> grid_cell" where
  "sgr_loop ps i gc =
     (if i < length ps then (case sgr_turn ps i gc of (j, gc') \<Rightarrow> sgr_loop ps j gc') else gc)"
  by pat_completeness auto

termination
  by (relation "measure (\<lambda>x. length (fst x) - fst (snd x))") (auto intro: diff_less_mono2 sgr_turn_later [OF prod.collapse [symmetric]])

declare sgr_loop.simps [simp del]

definition input_csi_dispatch_sgr :: "'s input_ctx \<Rightarrow> 's input_ctx" where
  "input_csi_dispatch_sgr ictx =
     (if ic_params ictx = [] then gc_update (\<lambda>gc. grid_default_cell) ictx
      else gc_update (sgr_loop (ic_params ictx) 0) ictx)"

end
