(* ===== verification/Input_Dispatch.thy ===== *)
theory Input_Dispatch
  imports Input_Sgr
begin

text \<open>
  Control sequences, \<^verbatim>\<open>input_csi_dispatch\<close> of \<^verbatim>\<open>terminal/input.c\<close>: cursor movement, erasing, modes, reports. The
  program is built without SIXEL images.
\<close>

section \<open>Modes\<close>

definition mode_set :: "'s input_env \<Rightarrow> u32 \<Rightarrow> 's input_ctx \<Rightarrow> 's input_ctx" where
  "mode_set env m = act env (SW_mode_set m)"

definition mode_clear :: "'s input_env \<Rightarrow> u32 \<Rightarrow> 's input_ctx \<Rightarrow> 's input_ctx" where
  "mode_clear env m = act env (SW_mode_clear m)"

definition on_pane :: "'s input_env \<Rightarrow> sw_action \<Rightarrow> 's input_ctx \<Rightarrow> 's input_ctx" where
  "on_pane env a ictx = (if ie_pane env then act env a ictx else ictx)"

definition rm_one :: "'s input_env \<Rightarrow> int \<Rightarrow> 's input_ctx \<Rightarrow> 's input_ctx" where
  "rm_one env n ictx =
     (if n = 4 then mode_clear env MODE_INSERT ictx
      else if n = 34 then mode_set env MODE_CURSOR_VERY_VISIBLE ictx
      else ictx)"

definition sm_one :: "'s input_env \<Rightarrow> int \<Rightarrow> 's input_ctx \<Rightarrow> 's input_ctx" where
  "sm_one env n ictx =
     (if n = 4 then mode_set env MODE_INSERT ictx
      else if n = 34 then mode_clear env MODE_CURSOR_VERY_VISIBLE ictx
      else ictx)"

definition rm_private_one :: "'s input_env \<Rightarrow> int \<Rightarrow> 's input_ctx \<Rightarrow> 's input_ctx" where
  "rm_private_one env n ictx =
     (let home = act env (SW_cursormove 0 0 True); gc = icl_cell (ic_cell ictx)
      in if n = 1 then mode_clear env MODE_KCURSOR ictx
         else if n = 3 then act env (SW_clearscreen (gc_bg gc)) (home ictx)
         else if n = 6 then home (mode_clear env MODE_ORIGIN ictx)
         else if n = 7 then mode_clear env MODE_WRAP ictx
         else if n = 12 then mode_set env MODE_CURSOR_BLINKING_SET (mode_clear env MODE_CURSOR_BLINKING ictx)
         else if n = 25 then mode_clear env MODE_CURSOR ictx
         else if n = 1000 \<or> n = 1001 \<or> n = 1002 \<or> n = 1003 then mode_clear env ALL_MOUSE_MODES ictx
         else if n = 1004 then mode_clear env MODE_FOCUSON ictx
         else if n = 1005 then mode_clear env MODE_MOUSE_UTF8 ictx
         else if n = 1006 then mode_clear env MODE_MOUSE_SGR ictx
         else if n = 47 \<or> n = 1047 then act env (SW_alternateoff gc False) ictx
         else if n = 1049 then act env (SW_alternateoff gc True) ictx
         else if n = 2004 then mode_clear env MODE_BRACKETPASTE ictx
         else if n = 2031 then on_pane env (WP_clear_flags PANE_THEMECHANGED) (mode_clear env MODE_THEME_UPDATES ictx)
         else if n = 2026 then on_pane env (WP_set_flags PANE_REDRAW) (act env SW_stop_sync ictx)
         else ictx)"

definition sm_private_one :: "'s input_env \<Rightarrow> int \<Rightarrow> 's input_ctx \<Rightarrow> 's input_ctx" where
  "sm_private_one env n ictx =
     (let home = act env (SW_cursormove 0 0 True); gc = icl_cell (ic_cell ictx);
          mouse = (\<lambda>m. mode_set env m (mode_clear env ALL_MOUSE_MODES ictx))
      in if n = 1 then mode_set env MODE_KCURSOR ictx
         else if n = 3 then act env (SW_clearscreen (gc_bg gc)) (home ictx)
         else if n = 6 then home (mode_set env MODE_ORIGIN ictx)
         else if n = 7 then mode_set env MODE_WRAP ictx
         else if n = 12 then mode_set env MODE_CURSOR_BLINKING_SET (mode_set env MODE_CURSOR_BLINKING ictx)
         else if n = 25 then mode_set env MODE_CURSOR ictx
         else if n = 1000 then mouse MODE_MOUSE_STANDARD
         else if n = 1002 then mouse MODE_MOUSE_BUTTON
         else if n = 1003 then mouse MODE_MOUSE_ALL
         else if n = 1004 then mode_set env MODE_FOCUSON ictx
         else if n = 1005 then mode_set env MODE_MOUSE_UTF8 ictx
         else if n = 1006 then mode_set env MODE_MOUSE_SGR ictx
         else if n = 47 \<or> n = 1047 then act env (SW_alternateon gc False) ictx
         else if n = 1049 then act env (SW_alternateon gc True) ictx
         else if n = 2004 then mode_set env MODE_BRACKETPASTE ictx
         else if n = 2031 then
           (let ictx1 = mode_set env MODE_THEME_UPDATES ictx
            in on_pane env (WP_clear_flags PANE_THEMECHANGED)
                 (on_pane env (WP_last_theme (ie_theme env (ic_screen ictx1))) ictx1))
         else if n = 2026 then act env SW_start_sync ictx
         else ictx)"

definition each_param :: "(int \<Rightarrow> 's input_ctx \<Rightarrow> 's input_ctx) \<Rightarrow> 's input_ctx \<Rightarrow> 's input_ctx" where
  "each_param f ictx = fold (\<lambda>i. f (param_get (ic_params ictx) i 0 (- 1))) [0..<length (ic_params ictx)] ictx"

definition input_csi_dispatch_rm :: "'s input_env \<Rightarrow> 's input_ctx \<Rightarrow> 's input_ctx" where
  "input_csi_dispatch_rm env = each_param (rm_one env)"

definition input_csi_dispatch_sm :: "'s input_env \<Rightarrow> 's input_ctx \<Rightarrow> 's input_ctx" where
  "input_csi_dispatch_sm env = each_param (sm_one env)"

definition input_csi_dispatch_rm_private :: "'s input_env \<Rightarrow> 's input_ctx \<Rightarrow> 's input_ctx" where
  "input_csi_dispatch_rm_private env = each_param (rm_private_one env)"

definition input_csi_dispatch_sm_private :: "'s input_env \<Rightarrow> 's input_ctx \<Rightarrow> 's input_ctx" where
  "input_csi_dispatch_sm_private env = each_param (sm_private_one env)"

section \<open>Reports\<close>

abbreviation ESC :: char where "ESC \<equiv> CHR 0x1B"

definition reply :: "'s input_env \<Rightarrow> string \<Rightarrow> 's input_ctx \<Rightarrow> 's input_ctx" where
  "reply env s = act env (SW_reply True s)"

definition show_uint :: "nat \<Rightarrow> string" where
  "show_uint n = show_nat (n mod 2 ^ 32)"

definition report_size :: "'s input_env \<Rightarrow> string \<Rightarrow> nat \<Rightarrow> nat \<Rightarrow> 's input_ctx \<Rightarrow> 's input_ctx" where
  "report_size env code y x = reply env ([ESC] @ ''['' @ code @ '';'' @ show_uint y @ '';'' @ show_uint x @ ''t'')"

definition winops_size :: "'s input_env \<Rightarrow> int \<Rightarrow> 's input_ctx \<Rightarrow> 's input_ctx" where
  "winops_size env n ictx =
     (let x = gd_sx (sv_grid (view env ictx)); y = gd_sy (sv_grid (view env ictx));
          xp = ie_xpixel env; yp = ie_ypixel env
      in if n = 14 then (if ie_pane env then report_size env ''4'' (y * yp) (x * xp) ictx else ictx)
         else if n = 15 then (if ie_pane env then report_size env ''5'' (y * yp) (x * xp) ictx else ictx)
         else if n = 16 then (if ie_pane env then report_size env ''6'' yp xp ictx else ictx)
         else if n = 18 then report_size env ''8'' y x ictx
         else if n = 19 then report_size env ''9'' y x ictx
         else ictx)"

lemma param_get_index: "param_get ps m 0 (- 1) \<noteq> - 1 \<Longrightarrow> m < length ps"
  by (auto simp: param_get_def split: if_splits)

text \<open>\<open>SC_pop_title\<close> includes the notification that the title of the pane changed.\<close>

function winops :: "'s input_env \<Rightarrow> input_param list \<Rightarrow> nat \<Rightarrow> 's input_ctx \<Rightarrow> 's input_ctx" where
  "winops env ps m ictx =
     (let n = param_get ps m 0 (- 1); missing = (\<lambda>k. param_get ps (m + k) 0 (- 1) = - 1)
      in if n = - 1 then ictx
         else if n = 3 \<or> n = 4 \<or> n = 8 then (if missing 1 \<or> missing 2 then ictx else winops env ps (m + 3) ictx)
         else if n = 9 \<or> n = 10 then (if missing 1 then ictx else winops env ps (m + 2) ictx)
         else if n = 22 \<or> n = 23 then
           (let k = param_get ps (m + 1) 0 (- 1)
            in if k = - 1 then ictx
               else winops env ps (m + 2)
                 (if k = 0 \<or> k = 2 then act env (if n = 22 then SC_push_title else SC_pop_title) ictx else ictx))
         else winops env ps (m + 1) (winops_size env n ictx))"
  by pat_completeness auto

termination
  by (relation "measure (\<lambda>(env, ps, m, ictx). length ps - m)") (auto dest: param_get_index)

declare winops.simps [simp del]

definition input_csi_dispatch_winops :: "'s input_env \<Rightarrow> 's input_ctx \<Rightarrow> 's input_ctx" where
  "input_csi_dispatch_winops env ictx = winops env (ic_params ictx) 0 ictx"

definition input_report_current_theme :: "'s input_env \<Rightarrow> 's input_ctx \<Rightarrow> 's input_ctx" where
  "input_report_current_theme env ictx =
     (if \<not> ie_pane env then ictx
      else
        (let theme = ie_theme env (ic_screen ictx);
             ictx1 = act env (WP_clear_flags PANE_THEMECHANGED) (act env (WP_last_theme theme) ictx)
         in case theme of
              THEME_DARK \<Rightarrow> act env (SW_reply False ([ESC] @ ''[?997;1n'')) ictx1
            | THEME_LIGHT \<Rightarrow> act env (SW_reply False ([ESC] @ ''[?997;2n'')) ictx1
            | THEME_UNKNOWN \<Rightarrow> ictx1))"

definition query_private :: "'s input_env \<Rightarrow> int \<Rightarrow> 's input_ctx \<Rightarrow> 's input_ctx" where
  "query_private env n ictx =
     (let v = view env ictx;
          has = (\<lambda>m. if sv_mode v AND m \<noteq> 0 then ''1'' else ''2'');
          report = (\<lambda>a. reply env ([ESC] @ ''[?'' @ show_int n @ '';'' @ a @ ''$y'') ictx)
      in if n = 12 then
           report (if sv_cstyle v \<noteq> SCREEN_CURSOR_DEFAULT \<or> sv_mode v AND MODE_CURSOR_BLINKING_SET \<noteq> 0
             then has MODE_CURSOR_BLINKING
             else if ie_cursor_style env \<in> {1, 3, 5} then ''1'' else ''2'')
         else if n = 1004 then report (has MODE_FOCUSON)
         else if n = 1006 then report (has MODE_MOUSE_SGR)
         else if n = 2004 then report (has MODE_BRACKETPASTE)
         else if n = 2026 then report (has MODE_SYNC)
         else if n = 2031 then report ''2''
         else ictx)"

definition screen_set_cursor_style :: "int \<Rightarrow> screen_cursor_style \<Rightarrow> u32 \<Rightarrow> screen_cursor_style \<times> u32" where
  "screen_set_cursor_style style cstyle mode =
     (let blink = mode OR MODE_CURSOR_BLINKING; steady = mode AND NOT MODE_CURSOR_BLINKING
      in if style = 0 then (SCREEN_CURSOR_DEFAULT, mode)
         else if style = 1 then (SCREEN_CURSOR_BLOCK, blink)
         else if style = 2 then (SCREEN_CURSOR_BLOCK, steady)
         else if style = 3 then (SCREEN_CURSOR_UNDERLINE, blink)
         else if style = 4 then (SCREEN_CURSOR_UNDERLINE, steady)
         else if style = 5 then (SCREEN_CURSOR_BAR, blink)
         else if style = 6 then (SCREEN_CURSOR_BAR, steady)
         else (cstyle, mode))"

section \<open>Tabs and repetition\<close>

text \<open>The tab stop before a column other than the first, and \<open>n\<close> times.\<close>

fun prev_tab :: "bool list \<Rightarrow> nat \<Rightarrow> nat" where
  "prev_tab tabs 0 = 0"
| "prev_tab tabs (Suc cx) = (if cx > 0 \<and> \<not> bit_test tabs cx then prev_tab tabs cx else cx)"

fun prev_tabs :: "bool list \<Rightarrow> nat \<Rightarrow> nat \<Rightarrow> nat" where
  "prev_tabs tabs cx 0 = cx"
| "prev_tabs tabs cx (Suc n) = (if cx > 0 then prev_tabs tabs (prev_tab tabs cx) n else cx)"

definition back_tab :: "'s input_env \<Rightarrow> 's input_ctx \<Rightarrow> 's input_ctx" where
  "back_tab env ictx =
     (let v = view env ictx; cx = min (sv_cx v) (gd_sx (sv_grid v) - 1); n = input_get ictx 0 1 1
      in if n = - 1 then ictx else act env (SC_set_cx (prev_tabs (sv_tabs v) cx (nat n))) ictx)"

definition repeat_last :: "'s input_env \<Rightarrow> 's input_ctx \<Rightarrow> 's input_ctx" where
  "repeat_last env ictx =
     (let n = input_get ictx 0 1 1; v = view env ictx;
          m = int (gd_sx (sv_grid v)) - int (sv_cx v); k = (if n > m then m else n)
      in if n = - 1 \<or> \<not> ic_lastset ictx then ictx
         else
           (let ictx1 = charset_cell (utf8_copy (ic_last ictx)) ictx
            in (act env (SW_collect_add (icl_cell (ic_cell ictx1))) ^^ nat k) ictx1))"

section \<open>Control sequences\<close>

datatype input_csi_type =
    INPUT_CSI_CBT | INPUT_CSI_CNL | INPUT_CSI_CPL | INPUT_CSI_CUB | INPUT_CSI_CUD | INPUT_CSI_CUF | INPUT_CSI_CUP
  | INPUT_CSI_CUU | INPUT_CSI_DA | INPUT_CSI_DA_TWO | INPUT_CSI_DCH | INPUT_CSI_DECSCUSR | INPUT_CSI_DECSTBM
  | INPUT_CSI_DL | INPUT_CSI_DSR | INPUT_CSI_DSR_PRIVATE | INPUT_CSI_ECH | INPUT_CSI_ED | INPUT_CSI_EL
  | INPUT_CSI_HPA | INPUT_CSI_ICH | INPUT_CSI_IL | INPUT_CSI_MODOFF | INPUT_CSI_MODSET | INPUT_CSI_QUERY_PRIVATE
  | INPUT_CSI_RCP | INPUT_CSI_REP | INPUT_CSI_RM | INPUT_CSI_RM_PRIVATE | INPUT_CSI_SCP | INPUT_CSI_SD
  | INPUT_CSI_SGR | INPUT_CSI_SM | INPUT_CSI_SM_GRAPHICS | INPUT_CSI_SM_PRIVATE | INPUT_CSI_SU | INPUT_CSI_TBC
  | INPUT_CSI_VPA | INPUT_CSI_WINOPS | INPUT_CSI_XDA

definition input_csi_table :: "(char \<times> string \<times> input_csi_type) list" where
  "input_csi_table =
    [(CHR ''@'', '''', INPUT_CSI_ICH), (CHR ''A'', '''', INPUT_CSI_CUU), (CHR ''B'', '''', INPUT_CSI_CUD),
     (CHR ''C'', '''', INPUT_CSI_CUF), (CHR ''D'', '''', INPUT_CSI_CUB), (CHR ''E'', '''', INPUT_CSI_CNL),
     (CHR ''F'', '''', INPUT_CSI_CPL), (CHR ''G'', '''', INPUT_CSI_HPA), (CHR ''H'', '''', INPUT_CSI_CUP),
     (CHR ''J'', '''', INPUT_CSI_ED), (CHR ''K'', '''', INPUT_CSI_EL), (CHR ''L'', '''', INPUT_CSI_IL),
     (CHR ''M'', '''', INPUT_CSI_DL), (CHR ''P'', '''', INPUT_CSI_DCH), (CHR ''S'', '''', INPUT_CSI_SU),
     (CHR ''S'', ''?'', INPUT_CSI_SM_GRAPHICS), (CHR ''T'', '''', INPUT_CSI_SD), (CHR ''X'', '''', INPUT_CSI_ECH),
     (CHR ''Z'', '''', INPUT_CSI_CBT), (CHR 0x60, '''', INPUT_CSI_HPA), (CHR ''b'', '''', INPUT_CSI_REP),
     (CHR ''c'', '''', INPUT_CSI_DA), (CHR ''c'', ''>'', INPUT_CSI_DA_TWO), (CHR ''d'', '''', INPUT_CSI_VPA),
     (CHR ''f'', '''', INPUT_CSI_CUP), (CHR ''g'', '''', INPUT_CSI_TBC), (CHR ''h'', '''', INPUT_CSI_SM),
     (CHR ''h'', ''?'', INPUT_CSI_SM_PRIVATE), (CHR ''l'', '''', INPUT_CSI_RM), (CHR ''l'', ''?'', INPUT_CSI_RM_PRIVATE),
     (CHR ''m'', '''', INPUT_CSI_SGR), (CHR ''m'', ''>'', INPUT_CSI_MODSET), (CHR ''n'', '''', INPUT_CSI_DSR),
     (CHR ''n'', ''>'', INPUT_CSI_MODOFF), (CHR ''n'', ''?'', INPUT_CSI_DSR_PRIVATE),
     (CHR ''p'', ''?$'', INPUT_CSI_QUERY_PRIVATE), (CHR ''q'', '' '', INPUT_CSI_DECSCUSR),
     (CHR ''q'', ''>'', INPUT_CSI_XDA), (CHR ''r'', '''', INPUT_CSI_DECSTBM), (CHR ''s'', '''', INPUT_CSI_SCP),
     (CHR ''t'', '''', INPUT_CSI_WINOPS), (CHR ''u'', '''', INPUT_CSI_RCP)]"

text \<open>The sequences with one count: missing or small is 1, and nothing happens for a parameter with a colon.\<close>

definition counted :: "'s input_env \<Rightarrow> (int \<Rightarrow> sw_action) \<Rightarrow> 's input_ctx \<Rightarrow> 's input_ctx" where
  "counted env f ictx = (let n = input_get ictx 0 1 1 in if n \<noteq> - 1 then act env (f n) ictx else ictx)"

definition modset :: "'s input_env \<Rightarrow> 's input_ctx \<Rightarrow> 's input_ctx" where
  "modset env ictx =
     (if input_get ictx 0 0 0 \<noteq> 4 \<or> ie_extended_keys env = 0 then ictx
      else
        (let m = input_get ictx 1 0 0; ictx1 = mode_clear env EXTENDED_KEY_MODES ictx
         in if m = 2 then mode_set env MODE_KEYS_EXTENDED_2 ictx1
            else if m = 1 \<or> ie_extended_keys env = 2 then mode_set env MODE_KEYS_EXTENDED ictx1
            else ictx1))"

definition modoff :: "'s input_env \<Rightarrow> 's input_ctx \<Rightarrow> 's input_ctx" where
  "modoff env ictx =
     (if input_get ictx 0 0 0 \<noteq> 4 then ictx
      else
        (let ictx1 = mode_clear env (MODE_KEYS_EXTENDED OR MODE_KEYS_EXTENDED_2) ictx
         in if ie_extended_keys env = 2 then mode_set env MODE_KEYS_EXTENDED ictx1 else ictx1))"

definition input_csi_run :: "'s input_env \<Rightarrow> input_csi_type \<Rightarrow> u32 \<Rightarrow> 's input_ctx \<Rightarrow> 's input_ctx" where
  "input_csi_run env t bg ictx =
     (let first = input_get ictx 0 0 0; n = input_get ictx 0 1 1; v = view env ictx
      in case t of
           INPUT_CSI_CBT \<Rightarrow> back_tab env ictx
         | INPUT_CSI_CUB \<Rightarrow> counted env SW_cursorleft ictx
         | INPUT_CSI_CUD \<Rightarrow> counted env SW_cursordown ictx
         | INPUT_CSI_CUF \<Rightarrow> counted env SW_cursorright ictx
         | INPUT_CSI_CUU \<Rightarrow> counted env SW_cursorup ictx
         | INPUT_CSI_CUP \<Rightarrow>
             (let m = input_get ictx 1 1 1
              in if n \<noteq> - 1 \<and> m \<noteq> - 1 then act env (SW_cursormove (m - 1) (n - 1) True) ictx else ictx)
         | INPUT_CSI_MODSET \<Rightarrow> modset env ictx
         | INPUT_CSI_MODOFF \<Rightarrow> modoff env ictx
         | INPUT_CSI_WINOPS \<Rightarrow> input_csi_dispatch_winops env ictx
         | INPUT_CSI_CNL \<Rightarrow> if n \<noteq> - 1 then act env (SW_cursordown n) (act env SW_carriagereturn ictx) else ictx
         | INPUT_CSI_CPL \<Rightarrow> if n \<noteq> - 1 then act env (SW_cursorup n) (act env SW_carriagereturn ictx) else ictx
         | INPUT_CSI_DA \<Rightarrow> if first = 0 then reply env ([ESC] @ ''[?1;2c'') ictx else ictx
         | INPUT_CSI_DA_TWO \<Rightarrow> if first = 0 then reply env ([ESC] @ ''[>84;0;0c'') ictx else ictx
         | INPUT_CSI_ECH \<Rightarrow> counted env (\<lambda>n. SW_clearcharacter n bg) ictx
         | INPUT_CSI_DCH \<Rightarrow> counted env (\<lambda>n. SW_deletecharacter n bg) ictx
         | INPUT_CSI_DECSTBM \<Rightarrow>
             (let m = input_get ictx 1 1 (int (gd_sy (sv_grid v)))
              in if n \<noteq> - 1 \<and> m \<noteq> - 1 then act env (SW_scrollregion (n - 1) (m - 1)) ictx else ictx)
         | INPUT_CSI_DL \<Rightarrow> counted env (\<lambda>n. SW_deleteline n bg) ictx
         | INPUT_CSI_DSR_PRIVATE \<Rightarrow> if first = 996 then input_report_current_theme env ictx else ictx
         | INPUT_CSI_QUERY_PRIVATE \<Rightarrow> query_private env first ictx
         | INPUT_CSI_DSR \<Rightarrow>
             if first = 5 then reply env ([ESC] @ ''[0n'') ictx
             else if first = 6 then
               reply env ([ESC] @ ''['' @ show_uint (sv_cy v + 1) @ '';'' @ show_uint (sv_cx v + 1) @ ''R'') ictx
             else ictx
         | INPUT_CSI_ED \<Rightarrow>
             if first = 0 then act env (SW_clearendofscreen bg) ictx
             else if first = 1 then act env (SW_clearstartofscreen bg) ictx
             else if first = 2 then act env (SW_clearscreen bg) ictx
             else if first = 3 \<and> input_get ictx 1 0 0 = 0 then act env SW_clearhistory ictx
             else ictx
         | INPUT_CSI_EL \<Rightarrow>
             if first = 0 then act env (SW_clearendofline bg) ictx
             else if first = 1 then act env (SW_clearstartofline bg) ictx
             else if first = 2 then act env (SW_clearline bg) ictx
             else ictx
         | INPUT_CSI_HPA \<Rightarrow> counted env (\<lambda>n. SW_cursormove (n - 1) (- 1) True) ictx
         | INPUT_CSI_ICH \<Rightarrow> counted env (\<lambda>n. SW_insertcharacter n bg) ictx
         | INPUT_CSI_IL \<Rightarrow> counted env (\<lambda>n. SW_insertline n bg) ictx
         | INPUT_CSI_REP \<Rightarrow> repeat_last env ictx
         | INPUT_CSI_RCP \<Rightarrow> input_restore_state env ictx
         | INPUT_CSI_RM \<Rightarrow> input_csi_dispatch_rm env ictx
         | INPUT_CSI_RM_PRIVATE \<Rightarrow> input_csi_dispatch_rm_private env ictx
         | INPUT_CSI_SCP \<Rightarrow> input_save_state env ictx
         | INPUT_CSI_SGR \<Rightarrow> input_csi_dispatch_sgr ictx
         | INPUT_CSI_SM \<Rightarrow> input_csi_dispatch_sm env ictx
         | INPUT_CSI_SM_PRIVATE \<Rightarrow> input_csi_dispatch_sm_private env ictx
         | INPUT_CSI_SM_GRAPHICS \<Rightarrow> ictx
         | INPUT_CSI_SU \<Rightarrow> counted env (\<lambda>n. SW_scrollup n bg) ictx
         | INPUT_CSI_SD \<Rightarrow> counted env (\<lambda>n. SW_scrolldown n bg) ictx
         | INPUT_CSI_TBC \<Rightarrow>
             if first = 0 then (if sv_cx v < gd_sx (sv_grid v) then act env (SC_clear_tab (sv_cx v)) ictx else ictx)
             else if first = 3 then act env (SC_clear_tabs (gd_sx (sv_grid v) - 1)) ictx
             else ictx
         | INPUT_CSI_VPA \<Rightarrow> counted env (\<lambda>n. SW_cursormove (- 1) (n - 1) True) ictx
         | INPUT_CSI_DECSCUSR \<Rightarrow>
             if first = - 1 then ictx
             else
               (case screen_set_cursor_style first (sv_cstyle v) (sv_mode v) of
                  (cstyle, mode) \<Rightarrow>
                    (let ictx1 = act env (SC_set_cursor cstyle mode) ictx
                     in if first = 0 then mode_clear env MODE_CURSOR_BLINKING_SET ictx1 else ictx1))
         | INPUT_CSI_XDA \<Rightarrow>
             if first = 0 then reply env ([ESC] @ ''P>|tmux '' @ ie_version env @ [ESC, CHR 0x5C]) ictx else ictx)"

definition input_csi_dispatch :: "'s input_env \<Rightarrow> 's input_ctx \<Rightarrow> 's input_ctx" where
  "input_csi_dispatch env ictx =
     (if ic_discard ictx then ictx
      else
        (case input_split ictx of
           (False, ictx1) \<Rightarrow> ictx1
         | (True, ictx1) \<Rightarrow>
             (case table_find input_csi_table ictx1 of
                None \<Rightarrow> ictx1
              | Some t \<Rightarrow> (input_csi_run env t (cell_bg ictx1) ictx1)\<lparr>ic_lastset := False\<rparr>)))"

end
