(* ===== verification/Input_Osc.thy ===== *)
theory Input_Osc
  imports Input_Dispatch
begin

text \<open>
  The strings that a program in a pane sends: device control (DCS), operating system commands (OSC), titles (APC) and
  renames, \<^verbatim>\<open>input_dcs_dispatch\<close>, \<^verbatim>\<open>input_exit_osc\<close>, \<^verbatim>\<open>input_exit_apc\<close> and \<^verbatim>\<open>input_exit_rename\<close> of
  \<^verbatim>\<open>terminal/input.c\<close>. \<open>None\<close> is a \<^verbatim>\<open>fatalx\<close>, a read outside an array or a null dereference.
\<close>

section \<open>Numbers\<close>

definition byte_digit :: "u8 \<Rightarrow> bool" where
  "byte_digit b \<longleftrightarrow> 0x30 \<le> b \<and> b \<le> 0x39"

abbreviation LONG_MAX :: int where "LONG_MAX \<equiv> 9223372036854775807"

text \<open>\<^verbatim>\<open>strtol\<close> in base 10: the number and the rest of the string, which is all of it when there are no digits.\<close>

definition strtol :: "u8 list \<Rightarrow> int \<times> u8 list" where
  "strtol s =
     (let s1 = dropWhile (\<lambda>b. b \<in> {0x20, 9, 10, 11, 12, 13}) s;
          neg = (s1 \<noteq> [] \<and> hd s1 = 0x2d);
          s2 = (if s1 \<noteq> [] \<and> hd s1 \<in> {0x2d, 0x2b} then tl s1 else s1);
          ds = takeWhile byte_digit s2;
          n = int (digits_value (chars ds))
      in if ds = [] then (0, s)
         else (if neg then max (- LONG_MAX - 1) (- n) else min LONG_MAX n, dropWhile byte_digit s2))"

lemma strtol_shorter: "length (snd (strtol s)) \<le> length s"
proof -
  have "length (dropWhile byte_digit (tl t)) \<le> length t" "length (dropWhile byte_digit t) \<le> length t" for t :: "u8 list"
    using length_dropWhile_le [of byte_digit "tl t"] length_dropWhile_le [of byte_digit t] by simp_all
  moreover have "length (dropWhile (\<lambda>b. b \<in> {0x20, 9, 10, 11, 12, 13}) s) \<le> length s" by (rule length_dropWhile_le)
  ultimately show ?thesis unfolding strtol_def Let_def
    by (auto split: if_splits intro: order_trans)
qed

text \<open>\<^verbatim>\<open>strsep\<close> once: the first field, and the rest when there is a separator.\<close>

definition strsep_one :: "u8 \<Rightarrow> u8 list \<Rightarrow> u8 list \<times> u8 list option" where
  "strsep_one sep s =
     (takeWhile (\<lambda>b. b \<noteq> sep) s,
      case dropWhile (\<lambda>b. b \<noteq> sep) s of [] \<Rightarrow> None | c # rest \<Rightarrow> Some rest)"

lemma strsep_one_shorter: "snd (strsep_one sep s) = Some rest \<Longrightarrow> length rest < length s"
  using length_dropWhile_le [of "\<lambda>b. b \<noteq> sep" s] by (auto simp: strsep_one_def split: list.splits)

section \<open>Colours\<close>

definition hex4 :: "u8 \<Rightarrow> string" where
  "hex4 w = show_hex2 w @ show_hex2 w"

definition string_end :: "input_end_type \<Rightarrow> string" where
  "string_end e = (case e of INPUT_END_BEL \<Rightarrow> [CHR 0x07] | INPUT_END_ST \<Rightarrow> [ESC, CHR 0x5C])"

definition input_osc_colour_reply :: "'s input_env \<Rightarrow> bool \<Rightarrow> nat \<Rightarrow> int \<Rightarrow> u32 \<Rightarrow> input_end_type \<Rightarrow> 's input_ctx \<Rightarrow> 's input_ctx" where
  "input_osc_colour_reply env add n idx c0 end_type ictx =
     (let c = (if c0 \<noteq> - 1 then colour_force_rgb c0 else c0)
      in if c = - 1 then ictx
         else
           (case colour_split_rgb c of
              (r, g, b) \<Rightarrow>
                act env (SW_reply add ([ESC] @ '']'' @ show_nat n @ (if n = 4 then '';'' @ show_int idx else '''') @
                  '';rgb:'' @ hex4 r @ ''/'' @ hex4 g @ ''/'' @ hex4 b @ string_end end_type)) ictx))"

lemma osc_4_shorter:
  assumes "next \<noteq> []" "(idx, next) = strtol s" "(colour, Some s') = strsep_one sep (tl next)"
  shows "length s' < length s"
proof -
  have "length s' < length (tl next)" using strsep_one_shorter [of sep "tl next" s'] assms(3) [symmetric] by simp
  moreover have "length next \<le> length s" using strtol_shorter [of s] assms(2) [symmetric] by simp
  ultimately show ?thesis using assms(1) by simp
qed

text \<open>The results are whether to redraw, and the context.\<close>

function osc_4_loop :: "'s input_env \<Rightarrow> u8 list \<Rightarrow> bool \<Rightarrow> 's input_ctx \<Rightarrow> (bool \<times> 's input_ctx) option" where
  "osc_4_loop env s redraw ictx =
     (if s = [] then Some (redraw, ictx)
      else
        (case strtol s of
           (idx, next) \<Rightarrow>
             if next = [] \<or> hd next \<noteq> 0x3b then Some (redraw, ictx)
             else if idx < 0 \<or> idx \<ge> 256 then Some (redraw, ictx)
             else
               (case strsep_one 0x3b (tl next) of
                  (colour, rest) \<Rightarrow>
                    (let go_on = (\<lambda>redraw' ictx'. case rest of None \<Rightarrow> Some (redraw', ictx') | Some s' \<Rightarrow> osc_4_loop env s' redraw' ictx')
                     in if colour = [0x3f] then
                          (case colour_palette_get (ic_palette ictx) (word_of_int idx OR COLOUR_FLAG_256) of
                             None \<Rightarrow> None
                           | Some c \<Rightarrow>
                               if c \<noteq> - 1 then go_on redraw (input_osc_colour_reply env True 4 idx c (ic_end ictx) ictx)
                               else go_on redraw (act env (SW_add_request INPUT_REQUEST_PALETTE idx (ic_end ictx)) ictx))
                        else if ie_parseX11 env colour = - 1 then go_on redraw ictx
                        else
                          (case colour_palette_set (ic_palette ictx) idx (ie_parseX11 env colour) of
                             (changed, palette) \<Rightarrow> go_on (redraw \<or> changed) (ictx\<lparr>ic_palette := palette\<rparr>))))))"
  by pat_completeness auto

termination
  by (relation "measure (\<lambda>(env, s, redraw, ictx). length s)") (auto intro: osc_4_shorter)

declare osc_4_loop.simps [simp del]

definition input_osc_4 :: "'s input_env \<Rightarrow> u8 list \<Rightarrow> 's input_ctx \<Rightarrow> 's input_ctx option" where
  "input_osc_4 env p ictx =
     map_option (\<lambda>(redraw, ictx'). if redraw then act env SW_fullredraw ictx' else ictx') (osc_4_loop env p False ictx)"

lemma osc_104_shorter: "s \<noteq> [] \<Longrightarrow> (idx, rest) = strtol s \<Longrightarrow> length rest - 1 < length s"
  using strtol_shorter [of s] by (cases "strtol s") (auto simp: le_imp_diff_is_add less_Suc_eq_le neq_Nil_conv)

function osc_104_loop :: "u8 list \<Rightarrow> bool \<Rightarrow> colour_palette option \<Rightarrow> bool \<times> colour_palette option" where
  "osc_104_loop s redraw palette =
     (if s = [] then (redraw, palette)
      else
        (case strtol s of
           (idx, rest) \<Rightarrow>
             if rest \<noteq> [] \<and> hd rest \<noteq> 0x3b then (redraw, palette)
             else if idx < 0 \<or> idx \<ge> 256 then (redraw, palette)
             else
               (case colour_palette_set palette idx (- 1) of
                  (changed, palette') \<Rightarrow> osc_104_loop (tl rest) (redraw \<or> changed) palette')))"
  by pat_completeness auto

termination
  by (relation "measure (\<lambda>(s, redraw, palette). length s)") (auto dest: osc_104_shorter)

declare osc_104_loop.simps [simp del]

definition input_osc_104 :: "'s input_env \<Rightarrow> u8 list \<Rightarrow> 's input_ctx \<Rightarrow> 's input_ctx" where
  "input_osc_104 env p ictx =
     (if p = [] then act env SW_fullredraw (ictx\<lparr>ic_palette := colour_palette_clear (ic_palette ictx)\<rparr>)
      else
        (case osc_104_loop p False (ic_palette ictx) of
           (redraw, palette) \<Rightarrow>
             (let ictx1 = ictx\<lparr>ic_palette := palette\<rparr> in if redraw then act env SW_fullredraw ictx1 else ictx1)))"

text \<open>Setting the foreground or background of the palette of the pane, if it has one.\<close>

definition set_default_colour ::
    "'s input_env \<Rightarrow> (colour_palette \<Rightarrow> colour_palette) \<Rightarrow> u32 \<Rightarrow> 's input_ctx \<Rightarrow> 's input_ctx" where
  "set_default_colour env f flags ictx =
     (case ic_palette ictx of
        None \<Rightarrow> ictx
      | Some p \<Rightarrow> act env SW_fullredraw (on_pane env (WP_set_flags flags) (ictx\<lparr>ic_palette := Some (f p)\<rparr>)))"

definition input_osc_10 :: "'s input_env \<Rightarrow> u8 list \<Rightarrow> 's input_ctx \<Rightarrow> 's input_ctx" where
  "input_osc_10 env p ictx =
     (if p = [0x3f] then
        (if ie_pane env then input_osc_colour_reply env True 10 0 (ie_foreground env (ic_screen ictx)) (ic_end ictx) ictx else ictx)
      else if ie_parseX11 env p = - 1 then ictx
      else set_default_colour env (cp_fg_update (\<lambda>_. ie_parseX11 env p)) PANE_STYLECHANGED ictx)"

definition input_osc_110 :: "'s input_env \<Rightarrow> u8 list \<Rightarrow> 's input_ctx \<Rightarrow> 's input_ctx" where
  "input_osc_110 env p ictx =
     (if p \<noteq> [] then ictx else set_default_colour env (cp_fg_update (\<lambda>_. 8)) PANE_STYLECHANGED ictx)"

definition input_osc_11 :: "'s input_env \<Rightarrow> u8 list \<Rightarrow> 's input_ctx \<Rightarrow> 's input_ctx" where
  "input_osc_11 env p ictx =
     (if p = [0x3f] then
        (if ie_pane env then input_osc_colour_reply env True 11 0 (ie_background env (ic_screen ictx)) (ic_end ictx) ictx else ictx)
      else if ie_parseX11 env p = - 1 then ictx
      else set_default_colour env (cp_bg_update (\<lambda>_. ie_parseX11 env p)) (PANE_STYLECHANGED OR PANE_THEMECHANGED) ictx)"

definition input_osc_111 :: "'s input_env \<Rightarrow> u8 list \<Rightarrow> 's input_ctx \<Rightarrow> 's input_ctx" where
  "input_osc_111 env p ictx =
     (if p \<noteq> [] then ictx
      else set_default_colour env (cp_bg_update (\<lambda>_. 8)) (PANE_STYLECHANGED OR PANE_THEMECHANGED) ictx)"

definition input_osc_12 :: "'s input_env \<Rightarrow> u8 list \<Rightarrow> 's input_ctx \<Rightarrow> 's input_ctx" where
  "input_osc_12 env p ictx =
     (if p = [0x3f] then
        (if ie_pane env then
           (let v = view env ictx; c = (if sv_ccolour v = - 1 then sv_default_ccolour v else sv_ccolour v)
            in input_osc_colour_reply env True 12 0 c (ic_end ictx) ictx)
         else ictx)
      else if ie_parseX11 env p = - 1 then ictx
      else act env (SC_set_cursor_colour (ie_parseX11 env p)) ictx)"

definition input_osc_112 :: "'s input_env \<Rightarrow> u8 list \<Rightarrow> 's input_ctx \<Rightarrow> 's input_ctx" where
  "input_osc_112 env p ictx = (if p = [] then act env (SC_set_cursor_colour (- 1)) ictx else ictx)"

end
