(* ===== verification/Input_String.thy ===== *)
theory Input_String
  imports Input_Osc
begin

text \<open>
  The ends of the strings that a program in a pane sends, \<^verbatim>\<open>terminal/input.c\<close>: hyperlinks, progress, prompts and the
  clipboard among the operating system commands; device control strings; titles; renames.
\<close>

section \<open>Hyperlinks, progress, prompts\<close>

lemma tl_dropWhile_shorter: "dropWhile P s \<noteq> [] \<Longrightarrow> length (tl (dropWhile P s)) < length s"
  using length_dropWhile_le [of P s] by (cases "dropWhile P s") auto

text \<open>The address and the identifier of OSC 8; \<open>None\<close> when the parameters are bad.\<close>

function osc_8_params :: "u8 list \<Rightarrow> u8 list option \<Rightarrow> (u8 list \<times> u8 list option) option" where
  "osc_8_params start ident =
     (let seg = takeWhile (\<lambda>b. b \<noteq> 0x3a \<and> b \<noteq> 0x3b) start; rest = dropWhile (\<lambda>b. b \<noteq> 0x3a \<and> b \<noteq> 0x3b) start
      in if rest = [] then None
         else
           (let is_id = (length seg \<ge> 4 \<and> take 3 seg = [0x69, 0x64, 0x3d])
            in if is_id \<and> ident \<noteq> None then None
               else
                 (let ident1 = (if is_id then Some (drop 3 seg) else ident)
                  in if hd rest = 0x3b then Some (tl rest, ident1) else osc_8_params (tl rest) ident1)))"
  by pat_completeness auto

termination
  by (relation "measure (\<lambda>(start, ident). length start)") (auto intro: tl_dropWhile_shorter [simplified])

declare osc_8_params.simps [simp del]

definition input_osc_8 :: "'s input_env \<Rightarrow> u8 list \<Rightarrow> 's input_ctx \<Rightarrow> 's input_ctx" where
  "input_osc_8 env p ictx =
     (case osc_8_params p None of
        None \<Rightarrow> ictx
      | Some (uri, ident) \<Rightarrow>
          if uri = [] then gc_update (\<lambda>gc. gc\<lparr>gc_link := 0\<rparr>) ictx
          else
            (case ie_hyperlinks_put env (ic_screen ictx) uri ident of
               (s, link) \<Rightarrow> gc_update (\<lambda>gc. gc\<lparr>gc_link := link\<rparr>) (ictx\<lparr>ic_screen := s\<rparr>)))"

text \<open>The digits of a progress; \<open>None\<close> when more follow a number over 100.\<close>

fun progress_value :: "u8 list \<Rightarrow> nat \<Rightarrow> (nat \<times> u8 list) option" where
  "progress_value [] n = Some (n, [])"
| "progress_value (b # bs) n =
     (if byte_digit b then (if n > 100 then None else progress_value bs (n * 10 + (unat b - 48))) else Some (n, b # bs))"

definition input_osc_9 :: "'s input_env \<Rightarrow> u8 list \<Rightarrow> 's input_ctx \<Rightarrow> 's input_ctx" where
  "input_osc_9 env p ictx =
     (case p of
        b # sep # st # rest \<Rightarrow>
          if b \<noteq> 0x34 \<or> sep \<noteq> 0x3b \<or> st < 0x30 \<or> st > 0x34 then ictx
          else
            (let set_bar = (\<lambda>n. act env (SC_progress_bar (unat st - 48) n) ictx)
             in if rest = [] \<or> rest = [0x3b] then set_bar (- 1)
                else if hd rest \<noteq> 0x3b then ictx
                else
                  (case progress_value (tl rest) 0 of
                     Some (n, []) \<Rightarrow> if n > 100 then ictx else set_bar (int n)
                   | _ \<Rightarrow> ictx))
      | _ \<Rightarrow> ictx)"

abbreviation GRID_LINE_START_PROMPT :: u32 where "GRID_LINE_START_PROMPT \<equiv> 0x8"
abbreviation GRID_LINE_START_OUTPUT :: u32 where "GRID_LINE_START_OUTPUT \<equiv> 0x10"

definition input_osc_133 :: "'s input_env \<Rightarrow> u8 list \<Rightarrow> 's input_ctx \<Rightarrow> 's input_ctx" where
  "input_osc_133 env p ictx =
     (let v = view env ictx; gd = sv_grid v; line = sv_cy v + hsize gd
      in if line \<ge> hsize gd + gd_sy gd \<or> p = [] then ictx
         else if hd p = 0x41 then act env (SC_line_flag line GRID_LINE_START_PROMPT) ictx
         else if hd p = 0x43 then act env (SC_line_flag line GRID_LINE_START_OUTPUT) ictx
         else ictx)"

section \<open>The clipboard\<close>

text \<open>Writing to the event of the parser: a null dereference when it has none.\<close>

definition input_reply_clipboard :: "'s input_env \<Rightarrow> u8 list \<Rightarrow> input_end_type \<Rightarrow> string \<Rightarrow> 's input_ctx \<Rightarrow> 's input_ctx option" where
  "input_reply_clipboard env buf e clip ictx =
     (let finish = (\<lambda>out. if ie_event env
            then Some (act env (SW_write ([ESC] @ '']52;'' @ clip @ '';'' @ out @ string_end e)) ictx) else None)
      in if buf = [] then finish ''''
         else if length buf \<ge> nat INT_MAX * 3 div 4 - 1 then Some ictx
         else (case ie_b64_ntop env buf of None \<Rightarrow> Some ictx | Some out \<Rightarrow> finish out))"

definition input_osc_52_reply :: "'s input_env \<Rightarrow> string \<Rightarrow> 's input_ctx \<Rightarrow> 's input_ctx option" where
  "input_osc_52_reply env clip ictx =
     (if ie_get_clipboard env = 0 then Some ictx
      else if ie_get_clipboard env = 1 then
        (case ie_paste_top env of
           None \<Rightarrow> Some ictx
         | Some buf \<Rightarrow> input_reply_clipboard env buf (ic_end ictx) clip ictx)
      else
        Some (act env (SW_add_request INPUT_REQUEST_CLIPBOARD (case ic_end ictx of INPUT_END_ST \<Rightarrow> 0 | INPUT_END_BEL \<Rightarrow> 1)
          (ic_end ictx)) ictx))"

text \<open>The letters of the clipboards in the order of their first use, at most one of each.\<close>

definition clip_letters :: "u8 list \<Rightarrow> string" where
  "clip_letters s = fold (\<lambda>c clip. if c \<in> set ''cpqs01234567'' \<and> c \<notin> set clip then clip @ [c] else clip) (chars s) ''''"

definition input_osc_52 :: "'s input_env \<Rightarrow> u8 list \<Rightarrow> 's input_ctx \<Rightarrow> 's input_ctx option" where
  "input_osc_52 env p ictx =
     (if ie_set_clipboard env \<noteq> 2 then Some ictx
      else
        (case strsep_one 0x3b p of
           (_, None) \<Rightarrow> Some ictx
         | (sel, Some data) \<Rightarrow>
             (let clip = clip_letters sel
              in if data = [] then Some ictx
                 else if data = [0x3f] then input_osc_52_reply env (take 1 clip) ictx
                 else
                   (case ie_b64_pton env data of
                      None \<Rightarrow> Some ictx
                    | Some out \<Rightarrow>
                        if ie_pane env \<or> ie_client env then Some (act env (WP_clipboard clip out) ictx) else Some ictx))))"

section \<open>Operating system commands\<close>

text \<open>The number before the first semicolon, modulo \<open>2\<^sup>3\<^sup>2\<close>.\<close>

definition osc_option :: "u8 list \<Rightarrow> u32" where
  "osc_option ds = foldl (\<lambda>n b. n * 10 + ucast b - 0x30) 0 ds"

definition set_title :: "'s input_env \<Rightarrow> u8 list \<Rightarrow> 's input_ctx \<Rightarrow> 's input_ctx" where
  "set_title env p ictx = (if ie_pane env \<and> ie_allow_set_title env then act env (SC_set_title p) ictx else ictx)"

definition osc_run :: "'s input_env \<Rightarrow> u32 \<Rightarrow> u8 list \<Rightarrow> 's input_ctx \<Rightarrow> 's input_ctx option" where
  "osc_run env n p ictx =
     (if n = 0 \<or> n = 2 then Some (set_title env p ictx)
      else if n = 4 then input_osc_4 env p ictx
      else if n = 7 then Some (act env (SC_set_path p) ictx)
      else if n = 8 then Some (input_osc_8 env p ictx)
      else if n = 9 then Some (input_osc_9 env p ictx)
      else if n = 10 then Some (input_osc_10 env p ictx)
      else if n = 11 then Some (input_osc_11 env p ictx)
      else if n = 12 then Some (input_osc_12 env p ictx)
      else if n = 52 then input_osc_52 env p ictx
      else if n = 104 then Some (input_osc_104 env p ictx)
      else if n = 110 then Some (input_osc_110 env p ictx)
      else if n = 111 then Some (input_osc_111 env p ictx)
      else if n = 112 then Some (input_osc_112 env p ictx)
      else if n = 133 then Some (input_osc_133 env p ictx)
      else Some ictx)"

definition input_exit_osc :: "'s input_env \<Rightarrow> 's input_ctx \<Rightarrow> 's input_ctx option" where
  "input_exit_osc env ictx =
     (if ic_discard ictx then Some ictx
      else if ic_input ictx = [] \<or> \<not> byte_digit (hd (ic_input ictx)) then Some ictx
      else
        (let ds = takeWhile byte_digit (ic_input ictx); rest = dropWhile byte_digit (ic_input ictx)
         in if rest \<noteq> [] \<and> hd rest \<noteq> 0x3b then Some ictx
            else osc_run env (osc_option ds) (tl rest) ictx))"

section \<open>Titles and renames\<close>

definition input_exit_apc :: "'s input_env \<Rightarrow> 's input_ctx \<Rightarrow> 's input_ctx" where
  "input_exit_apc env ictx = (if ic_discard ictx then ictx else set_title env (ic_input ictx) ictx)"

text \<open>\<open>WP_rename None\<close> restores automatic renaming, otherwise the window gets the name.\<close>

definition input_exit_rename :: "'s input_env \<Rightarrow> 's input_ctx \<Rightarrow> 's input_ctx option" where
  "input_exit_rename env ictx =
     (if \<not> ie_pane env \<or> ic_discard ictx \<or> \<not> ie_allow_rename env then Some ictx
      else
        (case utf8_isvalid (ie_utf8 env) (ic_input ictx) of
           None \<Rightarrow> None
         | Some False \<Rightarrow> Some ictx
         | Some True \<Rightarrow> Some (act env (WP_rename (if ic_input ictx = [] then None else Some (ic_input ictx))) ictx)))"

section \<open>Device control strings\<close>

definition cursor_report :: "'s input_env \<Rightarrow> screen_view \<Rightarrow> int" where
  "cursor_report env v =
     (let blinking = sv_mode v AND MODE_CURSOR_BLINKING \<noteq> 0
      in case sv_cstyle v of
           SCREEN_CURSOR_BLOCK \<Rightarrow> if blinking then 1 else 2
         | SCREEN_CURSOR_UNDERLINE \<Rightarrow> if blinking then 3 else 4
         | SCREEN_CURSOR_BAR \<Rightarrow> if blinking then 5 else 6
         | SCREEN_CURSOR_DEFAULT \<Rightarrow> if ie_cursor_style env < 0 \<or> ie_cursor_style env > 6 then 0 else ie_cursor_style env)"

definition input_handle_decrqss :: "'s input_env \<Rightarrow> 's input_ctx \<Rightarrow> 's input_ctx" where
  "input_handle_decrqss env ictx =
     (let buf = ic_input ictx
      in if length buf < 3 \<or> buf ! 1 \<noteq> 0x20 \<or> buf ! 2 \<noteq> 0x71
         then reply env ([ESC] @ ''P0$r'' @ [ESC, CHR 0x5C]) ictx
         else reply env ([ESC] @ ''P1$r q'' @ show_int (cursor_report env (view env ictx)) @ '' q'' @ [ESC, CHR 0x5C]) ictx)"

definition tmux_prefix :: "u8 list" where
  "tmux_prefix = [0x74, 0x6d, 0x75, 0x78, 0x3b]"

definition input_dcs_dispatch :: "'s input_env \<Rightarrow> 's input_ctx \<Rightarrow> 's input_ctx" where
  "input_dcs_dispatch env ictx =
     (let buf = ic_input ictx
      in if ic_discard ictx then ictx
         else if ic_interm ictx = [0x24] \<and> buf \<noteq> [] \<and> hd buf = 0x71 then input_handle_decrqss env ictx
         else if ie_allow_passthrough env = 0 then ictx
         else if take 5 buf = tmux_prefix
         then act env (SW_rawstring (drop 5 buf) (ie_allow_passthrough env = 2)) ictx
         else ictx)"

end
