(* ===== verification/Input.thy ===== *)
theory Input
  imports Input_String
begin

text \<open>
  The state machine of the input parser, \<^verbatim>\<open>input_parse\<close> of \<^verbatim>\<open>terminal/input.c\<close>: seventeen states, each with a
  table of transitions from ranges of bytes to a handler and a next state, and what is done on entering and leaving a
  state. Every handler of the tables returns 0, so the state is always switched after it.
\<close>

section \<open>The tables\<close>

datatype input_handler =
    H_print | H_intermediate | H_parameter | H_input | H_c0_dispatch | H_esc_dispatch | H_csi_dispatch
  | H_dcs_dispatch | H_top_bit_set | H_end_bel

text \<open>The first and last byte, the handler and the next state, if any.\<close>

type_synonym input_transition = "nat \<times> nat \<times> input_handler option \<times> input_state option"

definition input_state_anywhere :: "input_transition list" where
  "input_state_anywhere =
     [(0x18, 0x18, Some H_c0_dispatch, Some Ground), (0x1a, 0x1a, Some H_c0_dispatch, Some Ground),
      (0x1b, 0x1b, None, Some Esc_enter)]"

definition input_state_ground_table :: "input_transition list" where
  "input_state_ground_table = input_state_anywhere @
     [(0x00, 0x17, Some H_c0_dispatch, None), (0x19, 0x19, Some H_c0_dispatch, None),
      (0x1c, 0x1f, Some H_c0_dispatch, None), (0x20, 0x7e, Some H_print, None), (0x7f, 0x7f, None, None),
      (0x80, 0xff, Some H_top_bit_set, None)]"

definition input_state_esc_enter_table :: "input_transition list" where
  "input_state_esc_enter_table = input_state_anywhere @
     [(0x00, 0x17, Some H_c0_dispatch, None), (0x19, 0x19, Some H_c0_dispatch, None),
      (0x1c, 0x1f, Some H_c0_dispatch, None), (0x20, 0x2f, Some H_intermediate, Some Esc_intermediate),
      (0x30, 0x4f, Some H_esc_dispatch, Some Ground), (0x50, 0x50, None, Some Dcs_enter),
      (0x51, 0x57, Some H_esc_dispatch, Some Ground), (0x58, 0x58, None, Some Consume_st),
      (0x59, 0x59, Some H_esc_dispatch, Some Ground), (0x5a, 0x5a, Some H_esc_dispatch, Some Ground),
      (0x5b, 0x5b, None, Some Csi_enter), (0x5c, 0x5c, Some H_esc_dispatch, Some Ground),
      (0x5d, 0x5d, None, Some Osc_string), (0x5e, 0x5e, None, Some Consume_st),
      (0x5f, 0x5f, None, Some Apc_string), (0x60, 0x6a, Some H_esc_dispatch, Some Ground),
      (0x6b, 0x6b, None, Some Rename_string), (0x6c, 0x7e, Some H_esc_dispatch, Some Ground),
      (0x7f, 0xff, None, None)]"

definition input_state_esc_intermediate_table :: "input_transition list" where
  "input_state_esc_intermediate_table = input_state_anywhere @
     [(0x00, 0x17, Some H_c0_dispatch, None), (0x19, 0x19, Some H_c0_dispatch, None),
      (0x1c, 0x1f, Some H_c0_dispatch, None), (0x20, 0x2f, Some H_intermediate, None),
      (0x30, 0x7e, Some H_esc_dispatch, Some Ground), (0x7f, 0xff, None, None)]"

definition input_state_csi_enter_table :: "input_transition list" where
  "input_state_csi_enter_table = input_state_anywhere @
     [(0x00, 0x17, Some H_c0_dispatch, None), (0x19, 0x19, Some H_c0_dispatch, None),
      (0x1c, 0x1f, Some H_c0_dispatch, None), (0x20, 0x2f, Some H_intermediate, Some Csi_intermediate),
      (0x30, 0x39, Some H_parameter, Some Csi_parameter), (0x3a, 0x3a, Some H_parameter, Some Csi_parameter),
      (0x3b, 0x3b, Some H_parameter, Some Csi_parameter), (0x3c, 0x3f, Some H_intermediate, Some Csi_parameter),
      (0x40, 0x7e, Some H_csi_dispatch, Some Ground), (0x7f, 0xff, None, None)]"

definition input_state_csi_parameter_table :: "input_transition list" where
  "input_state_csi_parameter_table = input_state_anywhere @
     [(0x00, 0x17, Some H_c0_dispatch, None), (0x19, 0x19, Some H_c0_dispatch, None),
      (0x1c, 0x1f, Some H_c0_dispatch, None), (0x20, 0x2f, Some H_intermediate, Some Csi_intermediate),
      (0x30, 0x39, Some H_parameter, None), (0x3a, 0x3a, Some H_parameter, None),
      (0x3b, 0x3b, Some H_parameter, None), (0x3c, 0x3f, None, Some Csi_ignore),
      (0x40, 0x7e, Some H_csi_dispatch, Some Ground), (0x7f, 0xff, None, None)]"

definition input_state_csi_intermediate_table :: "input_transition list" where
  "input_state_csi_intermediate_table = input_state_anywhere @
     [(0x00, 0x17, Some H_c0_dispatch, None), (0x19, 0x19, Some H_c0_dispatch, None),
      (0x1c, 0x1f, Some H_c0_dispatch, None), (0x20, 0x2f, Some H_intermediate, None),
      (0x30, 0x3f, None, Some Csi_ignore), (0x40, 0x7e, Some H_csi_dispatch, Some Ground),
      (0x7f, 0xff, None, None)]"

definition input_state_csi_ignore_table :: "input_transition list" where
  "input_state_csi_ignore_table = input_state_anywhere @
     [(0x00, 0x17, Some H_c0_dispatch, None), (0x19, 0x19, Some H_c0_dispatch, None),
      (0x1c, 0x1f, Some H_c0_dispatch, None), (0x20, 0x3f, None, None), (0x40, 0x7e, None, Some Ground),
      (0x7f, 0xff, None, None)]"

definition input_state_dcs_enter_table :: "input_transition list" where
  "input_state_dcs_enter_table = input_state_anywhere @
     [(0x00, 0x17, None, None), (0x19, 0x19, None, None), (0x1c, 0x1f, None, None),
      (0x20, 0x2f, Some H_intermediate, Some Dcs_intermediate),
      (0x30, 0x39, Some H_parameter, Some Dcs_parameter), (0x3a, 0x3a, None, Some Dcs_ignore),
      (0x3b, 0x3b, Some H_parameter, Some Dcs_parameter), (0x3c, 0x3f, Some H_intermediate, Some Dcs_parameter),
      (0x40, 0x7e, Some H_input, Some Dcs_handler), (0x7f, 0xff, None, None)]"

definition input_state_dcs_parameter_table :: "input_transition list" where
  "input_state_dcs_parameter_table = input_state_anywhere @
     [(0x00, 0x17, None, None), (0x19, 0x19, None, None), (0x1c, 0x1f, None, None),
      (0x20, 0x2f, Some H_intermediate, Some Dcs_intermediate), (0x30, 0x39, Some H_parameter, None),
      (0x3a, 0x3a, None, Some Dcs_ignore), (0x3b, 0x3b, Some H_parameter, None),
      (0x3c, 0x3f, None, Some Dcs_ignore), (0x40, 0x7e, Some H_input, Some Dcs_handler),
      (0x7f, 0xff, None, None)]"

definition input_state_dcs_intermediate_table :: "input_transition list" where
  "input_state_dcs_intermediate_table = input_state_anywhere @
     [(0x00, 0x17, None, None), (0x19, 0x19, None, None), (0x1c, 0x1f, None, None),
      (0x20, 0x2f, Some H_intermediate, None), (0x30, 0x3f, None, Some Dcs_ignore),
      (0x40, 0x7e, Some H_input, Some Dcs_handler), (0x7f, 0xff, None, None)]"

definition input_state_dcs_handler_table :: "input_transition list" where
  "input_state_dcs_handler_table =
     [(0x00, 0x1a, Some H_input, None), (0x1b, 0x1b, None, Some Dcs_escape), (0x1c, 0xff, Some H_input, None)]"

definition input_state_dcs_escape_table :: "input_transition list" where
  "input_state_dcs_escape_table =
     [(0x00, 0x5b, Some H_input, Some Dcs_handler), (0x5c, 0x5c, Some H_dcs_dispatch, Some Ground),
      (0x5d, 0xff, Some H_input, Some Dcs_handler)]"

definition input_state_dcs_ignore_table :: "input_transition list" where
  "input_state_dcs_ignore_table = input_state_anywhere @
     [(0x00, 0x17, None, None), (0x19, 0x19, None, None), (0x1c, 0x1f, None, None), (0x20, 0xff, None, None)]"

definition input_state_osc_string_table :: "input_transition list" where
  "input_state_osc_string_table = input_state_anywhere @
     [(0x00, 0x06, None, None), (0x07, 0x07, Some H_end_bel, Some Ground), (0x08, 0x17, None, None),
      (0x19, 0x19, None, None), (0x1c, 0x1f, None, None), (0x20, 0xff, Some H_input, None)]"

definition input_state_apc_string_table :: "input_transition list" where
  "input_state_apc_string_table = input_state_anywhere @
     [(0x00, 0x17, None, None), (0x19, 0x19, None, None), (0x1c, 0x1f, None, None),
      (0x20, 0xff, Some H_input, None)]"

definition input_state_rename_string_table :: "input_transition list" where
  "input_state_rename_string_table = input_state_anywhere @
     [(0x00, 0x17, None, None), (0x19, 0x19, None, None), (0x1c, 0x1f, None, None),
      (0x20, 0xff, Some H_input, None)]"

definition input_state_consume_st_table :: "input_transition list" where
  "input_state_consume_st_table = input_state_anywhere @
     [(0x00, 0x17, None, None), (0x19, 0x19, None, None), (0x1c, 0x1f, None, None), (0x20, 0xff, None, None)]"

fun transitions :: "input_state \<Rightarrow> input_transition list" where
  "transitions Ground = input_state_ground_table"
| "transitions Esc_enter = input_state_esc_enter_table"
| "transitions Esc_intermediate = input_state_esc_intermediate_table"
| "transitions Csi_enter = input_state_csi_enter_table"
| "transitions Csi_parameter = input_state_csi_parameter_table"
| "transitions Csi_intermediate = input_state_csi_intermediate_table"
| "transitions Csi_ignore = input_state_csi_ignore_table"
| "transitions Dcs_enter = input_state_dcs_enter_table"
| "transitions Dcs_parameter = input_state_dcs_parameter_table"
| "transitions Dcs_intermediate = input_state_dcs_intermediate_table"
| "transitions Dcs_handler = input_state_dcs_handler_table"
| "transitions Dcs_escape = input_state_dcs_escape_table"
| "transitions Dcs_ignore = input_state_dcs_ignore_table"
| "transitions Osc_string = input_state_osc_string_table"
| "transitions Apc_string = input_state_apc_string_table"
| "transitions Rename_string = input_state_rename_string_table"
| "transitions Consume_st = input_state_consume_st_table"

section \<open>Handlers and states\<close>

definition input_end_bel :: "'s input_ctx \<Rightarrow> 's input_ctx" where
  "input_end_bel ictx = ictx\<lparr>ic_end := INPUT_END_BEL\<rparr>"

fun run_handler :: "'s input_env \<Rightarrow> input_handler \<Rightarrow> 's input_ctx \<Rightarrow> 's input_ctx option" where
  "run_handler env H_print ictx = Some (input_print env ictx)"
| "run_handler env H_intermediate ictx = Some (input_intermediate ictx)"
| "run_handler env H_parameter ictx = Some (input_parameter ictx)"
| "run_handler env H_input ictx = input_input env ictx"
| "run_handler env H_c0_dispatch ictx = Some (input_c0_dispatch env ictx)"
| "run_handler env H_esc_dispatch ictx = Some (input_esc_dispatch env ictx)"
| "run_handler env H_csi_dispatch ictx = Some (input_csi_dispatch env ictx)"
| "run_handler env H_dcs_dispatch ictx = Some (input_dcs_dispatch env ictx)"
| "run_handler env H_top_bit_set ictx = input_top_bit_set env ictx"
| "run_handler env H_end_bel ictx = Some (input_end_bel ictx)"

text \<open>\<^verbatim>\<open>input_enter_dcs\<close>, \<^verbatim>\<open>input_enter_osc\<close>, \<^verbatim>\<open>input_enter_apc\<close> and \<^verbatim>\<open>input_enter_rename\<close> are the same.\<close>

definition input_enter_string :: "'s input_ctx \<Rightarrow> 's input_ctx" where
  "input_enter_string ictx = (input_start_ground_timer (input_clear ictx))\<lparr>ic_lastset := False\<rparr>"

definition state_enter :: "input_state \<Rightarrow> 's input_ctx \<Rightarrow> 's input_ctx" where
  "state_enter st ictx =
     (if st = Ground then input_ground ictx
      else if st \<in> {Esc_enter, Csi_enter} then input_clear ictx
      else if st \<in> {Dcs_enter, Osc_string, Apc_string, Rename_string, Consume_st} then input_enter_string ictx
      else ictx)"

definition state_exit :: "'s input_env \<Rightarrow> input_state \<Rightarrow> 's input_ctx \<Rightarrow> 's input_ctx option" where
  "state_exit env st ictx =
     (if st = Osc_string then input_exit_osc env ictx
      else if st = Apc_string then Some (input_exit_apc env ictx)
      else if st = Rename_string then input_exit_rename env ictx
      else Some ictx)"

definition input_set_state :: "'s input_env \<Rightarrow> input_state \<Rightarrow> 's input_ctx \<Rightarrow> 's input_ctx option" where
  "input_set_state env st ictx =
     map_option (\<lambda>ictx1. state_enter st (ictx1\<lparr>ic_state := st\<rparr>)) (state_exit env (ic_state ictx) ictx)"

section \<open>Parsing\<close>

definition in_range :: "u8 \<Rightarrow> input_transition \<Rightarrow> bool" where
  "in_range ch itr = (case itr of (lo, hi, _) \<Rightarrow> lo \<le> unat ch \<and> unat ch \<le> hi)"

definition find_transition :: "input_state \<Rightarrow> u8 \<Rightarrow> input_transition option" where
  "find_transition st ch = find (in_range ch) (transitions st)"

text \<open>The transition of the byte before is used again when it was taken in the same state and its range has the byte.\<close>

definition choose_transition :: "(input_state \<times> input_transition) option \<Rightarrow> input_state \<Rightarrow> u8 \<Rightarrow> input_transition option" where
  "choose_transition cache st ch =
     (case cache of
        Some (st', itr) \<Rightarrow> if st' = st \<and> in_range ch itr then Some itr else find_transition st ch
      | None \<Rightarrow> find_transition st ch)"

text \<open>Following a transition with the byte in \<open>ic_ch\<close>.\<close>

definition follow :: "'s input_env \<Rightarrow> input_transition \<Rightarrow> 's input_ctx \<Rightarrow> 's input_ctx option" where
  "follow env itr ictx =
     (case itr of (lo, hi, handler, st) \<Rightarrow>
        do { let ictx1 = (if handler \<noteq> Some H_print then act env SW_collect_end ictx else ictx);
             ictx2 \<leftarrow> (case handler of None \<Rightarrow> Some ictx1 | Some h \<Rightarrow> run_handler env h ictx1);
             ictx3 \<leftarrow> (case st of None \<Rightarrow> Some ictx2 | Some st' \<Rightarrow> input_set_state env st' ictx2);
             Some (if ic_state ictx3 \<noteq> Ground then ictx3\<lparr>ic_since_ground := ic_since_ground ictx3 @ [ic_ch ictx3]\<rparr> else ictx3) })"

fun input_parse_from ::
    "'s input_env \<Rightarrow> (input_state \<times> input_transition) option \<Rightarrow> u8 list \<Rightarrow> 's input_ctx \<Rightarrow> 's input_ctx option" where
  "input_parse_from env cache [] ictx = Some ictx"
| "input_parse_from env cache (b # buf) ictx =
     (let ictx1 = ictx\<lparr>ic_ch := b\<rparr>
      in case choose_transition cache (ic_state ictx1) b of
           None \<Rightarrow> None
         | Some itr \<Rightarrow>
             (case follow env itr ictx1 of
                None \<Rightarrow> None
              | Some ictx2 \<Rightarrow> input_parse_from env (Some (ic_state ictx1, itr)) buf ictx2))"

definition input_parse :: "'s input_env \<Rightarrow> u8 list \<Rightarrow> 's input_ctx \<Rightarrow> 's input_ctx option" where
  "input_parse env buf ictx = input_parse_from env None buf ictx"

definition input_parse_buffer :: "'s input_env \<Rightarrow> u8 list \<Rightarrow> 's input_ctx \<Rightarrow> 's input_ctx option" where
  "input_parse_buffer env buf ictx =
     (if buf = [] then Some ictx
      else
        (let ictx1 = act env (WP_set_flags PANE_CHANGED) (act env WP_activity ictx);
             ictx2 = (if ie_in_mode env then act env (WP_set_flags PANE_UNSEENCHANGES) ictx1 else ictx1);
             ictx3 = (if ie_in_mode env then act env WP_dirty (act env SW_start ictx2) else act env SW_start_pane ictx2)
         in map_option (act env SW_stop) (input_parse env buf ictx3)))"

definition input_parse_screen :: "'s input_env \<Rightarrow> u8 list \<Rightarrow> 's input_ctx \<Rightarrow> 's input_ctx option" where
  "input_parse_screen env buf ictx =
     (if buf = [] then Some ictx
      else map_option (act env SW_stop) (input_parse env buf (act env SW_start_callback ictx)))"

definition input_pending :: "'s input_ctx \<Rightarrow> u8 list" where
  "input_pending ictx = ic_since_ground ictx"

end
