(* ===== verification/Input_Frame.thy ===== *)
theory Input_Frame
  imports Input
begin

text \<open>
  What the handlers of the input parser leave alone: those that write on the screen keep the buffers, the state, the
  timer and the UTF-8 character being read (the core of the context).
\<close>

named_theorems core_simps

definition core where
  "core ictx = (ic_interm ictx, ic_param ictx, ic_input ictx, ic_space ictx, ic_end ictx, ic_params ictx, ic_utf8 ictx,
     ic_utf8started ictx, ic_ch ictx, ic_state ictx, ic_discard ictx, ic_since_ground ictx, ic_timer ictx, ic_palette ictx)"

lemma core_update [core_simps]:
  "core (ictx\<lparr>ic_screen := s\<rparr>) = core ictx" "core (ictx\<lparr>ic_cell := cell\<rparr>) = core ictx"
  "core (ictx\<lparr>ic_old_cell := cell\<rparr>) = core ictx" "core (ictx\<lparr>ic_old_cx := n\<rparr>) = core ictx"
  "core (ictx\<lparr>ic_old_cy := n\<rparr>) = core ictx" "core (ictx\<lparr>ic_old_mode := m\<rparr>) = core ictx"
  "core (ictx\<lparr>ic_last := ud\<rparr>) = core ictx" "core (ictx\<lparr>ic_lastset := b\<rparr>) = core ictx"
  by (simp_all add: core_def)

lemma core_act [core_simps]: "core (act env a ictx) = core ictx"
  by (simp add: act_def core_simps)

lemma core_modes [core_simps]:
  "core (mode_set env m ictx) = core ictx" "core (mode_clear env m ictx) = core ictx"
  "core (on_pane env a ictx) = core ictx" "core (reply env s ictx) = core ictx"
  by (simp_all add: mode_set_def mode_clear_def on_pane_def reply_def core_simps)

lemma core_fold [core_simps]: "(\<And>i ictx. core (f i ictx) = core ictx) \<Longrightarrow> core (fold f is ictx) = core ictx"
  by (induction "is" arbitrary: ictx) auto

lemma core_each_param: "(\<And>n ictx. core (f n ictx) = core ictx) \<Longrightarrow> core (each_param f ictx) = core ictx"
  by (simp add: each_param_def core_simps)

lemma core_one [core_simps]:
  "core (rm_one env n ictx) = core ictx" "core (sm_one env n ictx) = core ictx"
  by (simp_all add: rm_one_def sm_one_def core_simps)

lemma core_rm_private_one [core_simps]: "core (rm_private_one env n ictx) = core ictx"
  by (simp add: rm_private_one_def Let_def core_simps)

lemma core_sm_private_one [core_simps]: "core (sm_private_one env n ictx) = core ictx"
  by (simp add: sm_private_one_def Let_def core_simps)

lemma core_csi_modes [core_simps]:
  "core (input_csi_dispatch_rm env ictx) = core ictx" "core (input_csi_dispatch_sm env ictx) = core ictx"
  "core (input_csi_dispatch_rm_private env ictx) = core ictx" "core (input_csi_dispatch_sm_private env ictx) = core ictx"
  by (simp_all add: input_csi_dispatch_rm_def input_csi_dispatch_sm_def input_csi_dispatch_rm_private_def
      input_csi_dispatch_sm_private_def core_each_param core_simps)

lemma core_winops_size [core_simps]: "core (winops_size env n ictx) = core ictx"
  by (simp add: winops_size_def Let_def report_size_def core_simps)

lemma core_winops [core_simps]: "core (winops env ps m ictx) = core ictx"
proof (induction env ps m ictx rule: winops.induct)
  case (1 env ps m ictx)
  show ?case
    by (subst winops.simps) (use 1 in \<open>simp add: Let_def core_simps\<close>)
qed

lemma core_sgr [core_simps]: "core (input_csi_dispatch_sgr ictx) = core ictx"
  by (simp add: input_csi_dispatch_sgr_def core_simps)

lemma core_save_restore [core_simps]:
  "core (input_save_state env ictx) = core ictx" "core (input_restore_state env ictx) = core ictx"
  by (simp_all add: input_save_state_def input_restore_state_def Let_def core_simps)

lemma core_funpow [core_simps]: "core ((act env a ^^ n) ictx) = core ictx"
  by (induction n) (simp_all add: core_simps)

lemma core_charset_cell [core_simps]: "core (charset_cell ud ictx) = core ictx"
  by (simp add: charset_cell_def Let_def core_simps)

lemma core_tabs [core_simps]:
  "core (input_tab env ictx) = core ictx" "core (back_tab env ictx) = core ictx" "core (repeat_last env ictx) = core ictx"
  by (simp_all add: input_tab_def back_tab_def repeat_last_def Let_def core_simps split: prod.split)

lemma core_reports [core_simps]:
  "core (input_report_current_theme env ictx) = core ictx" "core (query_private env n ictx) = core ictx"
  "core (modset env ictx) = core ictx" "core (modoff env ictx) = core ictx" "core (counted env f ictx) = core ictx"
  by (simp_all add: input_report_current_theme_def query_private_def modset_def modoff_def counted_def Let_def core_simps
      split: client_theme.split)

lemma core_csi_run: "core (input_csi_run env t bg ictx) = core ictx"
  by (cases t) (simp_all add: input_csi_run_def Let_def input_csi_dispatch_winops_def core_simps split: prod.split)

lemma core_osc_reply [core_simps]: "core (input_osc_colour_reply env add n idx c e ictx) = core ictx"
  by (simp add: input_osc_colour_reply_def Let_def core_simps split: prod.split)

lemma core_osc [core_simps]:
  "core (input_osc_8 env p ictx) = core ictx" "core (input_osc_9 env p ictx) = core ictx"
  "core (input_osc_12 env p ictx) = core ictx" "core (input_osc_112 env p ictx) = core ictx"
  "core (input_osc_133 env p ictx) = core ictx" "core (set_title env p ictx) = core ictx"
  by (simp_all add: input_osc_8_def input_osc_9_def input_osc_12_def input_osc_112_def input_osc_133_def set_title_def
      Let_def core_simps split: option.split prod.split list.split)

lemma core_reset_cell [core_simps]: "core (input_reset_cell ictx) = core ictx"
  by (simp add: input_reset_cell_def Let_def core_simps)

text \<open>Reading the fields back.\<close>

lemma core_fields:
  assumes "core ictx' = core ictx"
  shows "ic_interm ictx' = ic_interm ictx" "ic_param ictx' = ic_param ictx" "ic_input ictx' = ic_input ictx"
    "ic_space ictx' = ic_space ictx" "ic_end ictx' = ic_end ictx" "ic_params ictx' = ic_params ictx"
    "ic_utf8 ictx' = ic_utf8 ictx" "ic_utf8started ictx' = ic_utf8started ictx" "ic_ch ictx' = ic_ch ictx"
    "ic_state ictx' = ic_state ictx" "ic_discard ictx' = ic_discard ictx" "ic_since_ground ictx' = ic_since_ground ictx"
    "ic_timer ictx' = ic_timer ictx" "ic_palette ictx' = ic_palette ictx"
  using assms by (simp_all add: core_def)

end
