(* ===== verification/Input_Parse.thy ===== *)
theory Input_Parse
  imports Input
begin

text \<open>
  Choosing transitions: the ranges of every table cover every byte exactly once, so a transition is always found, only
  one can be, and looking at the last one first changes nothing. Parsing is therefore a fold of one step per byte,
  and does not depend on how the input is cut into pieces.
\<close>

section \<open>The tables cover every byte once\<close>

text \<open>The ranges of a list follow one another from \<open>k\<close> to 255.\<close>

fun ranges_from :: "nat \<Rightarrow> input_transition list \<Rightarrow> bool" where
  "ranges_from k [] \<longleftrightarrow> k = 256"
| "ranges_from k ((lo, hi, _) # itrs) \<longleftrightarrow> lo = k \<and> lo \<le> hi \<and> ranges_from (Suc hi) itrs"

lemma ranges_tables: "ranges_from 0 (sort_key fst (transitions st))"
  by (cases st; simp only: transitions.simps; code_simp)

lemma ranges_above: "ranges_from k itrs \<Longrightarrow> (lo, hi, r) \<in> set itrs \<Longrightarrow> k \<le> lo"
  by (induction k itrs rule: ranges_from.induct) auto

lemma byte_small: "unat (b :: u8) < 256"
  using unsigned_less [of b] by simp

lemma ranges_one:
  assumes "ranges_from k itrs" "k \<le> unat ch"
  shows "\<exists>itr. filter (in_range ch) itrs = [itr]"
  using assms
proof (induction k itrs rule: ranges_from.induct)
  case (1 k)
  then show ?case using byte_small [of ch] by simp
next
  case (2 k lo hi r itrs)
  show ?case
  proof (cases "unat ch \<le> hi")
    case True
    have "\<not> in_range ch itr" if "itr \<in> set itrs" for itr
      using ranges_above [of "Suc hi" itrs] 2(2) True that by (cases itr) (force simp: in_range_def)
    then show ?thesis using 2(2,3) True by (simp add: in_range_def filter_empty_conv)
  next
    case False
    then show ?thesis using 2 by (simp add: in_range_def)
  qed
qed

lemma find_filter_one: "length (filter P xs) = 1 \<Longrightarrow> x \<in> set xs \<Longrightarrow> P x \<Longrightarrow> find P xs = Some x"
  by (induction xs) (auto simp: filter_empty_conv split: if_splits)

lemma transition_count: "length (filter (in_range ch) (transitions st)) = 1"
proof -
  have "length (filter (in_range ch) (sort_key fst (transitions st))) = length (filter (in_range ch) (transitions st))"
    by (simp add: filter_sort)
  then show ?thesis using ranges_one [OF ranges_tables, of ch st] by auto
qed

lemma find_transition_some: "\<exists>itr. find_transition st ch = Some itr \<and> itr \<in> set (transitions st) \<and> in_range ch itr"
proof -
  obtain itr where "filter (in_range ch) (transitions st) = [itr]"
    using transition_count [of ch st] by (metis One_nat_def length_0_conv length_Suc_conv)
  then have "itr \<in> set (filter (in_range ch) (transitions st))" by simp
  then have "itr \<in> set (transitions st) \<and> in_range ch itr" by simp
  then show ?thesis unfolding find_transition_def using find_filter_one [OF transition_count] by blast
qed

lemma find_transition_unique: "itr \<in> set (transitions st) \<Longrightarrow> in_range ch itr \<Longrightarrow> find_transition st ch = Some itr"
  unfolding find_transition_def by (rule find_filter_one [OF transition_count])

section \<open>One step per byte\<close>

definition input_step :: "'s input_env \<Rightarrow> u8 \<Rightarrow> 's input_ctx \<Rightarrow> 's input_ctx option" where
  "input_step env b ictx =
     (case find_transition (ic_state ictx) b of None \<Rightarrow> None | Some itr \<Rightarrow> follow env itr (ictx\<lparr>ic_ch := b\<rparr>))"

fun input_steps :: "'s input_env \<Rightarrow> u8 list \<Rightarrow> 's input_ctx \<Rightarrow> 's input_ctx option" where
  "input_steps env [] ictx = Some ictx"
| "input_steps env (b # bs) ictx = Option.bind (input_step env b ictx) (input_steps env bs)"

lemma input_steps_append: "input_steps env (xs @ ys) ictx = Option.bind (input_steps env xs ictx) (input_steps env ys)"
  by (induction xs arbitrary: ictx) (auto split: bind_splits)

definition cache_ok :: "(input_state \<times> input_transition) option \<Rightarrow> bool" where
  "cache_ok cache \<longleftrightarrow> (case cache of None \<Rightarrow> True | Some (st, itr) \<Rightarrow> itr \<in> set (transitions st))"

lemma choose_cached: "cache_ok cache \<Longrightarrow> choose_transition cache st ch = find_transition st ch"
  by (auto simp: cache_ok_def choose_transition_def find_transition_unique split: option.split)

lemma parse_from_steps: "cache_ok cache \<Longrightarrow> input_parse_from env cache buf ictx = input_steps env buf ictx"
proof (induction buf arbitrary: cache ictx)
  case (Cons b buf)
  obtain itr where itr: "find_transition (ic_state ictx) b = Some itr" "itr \<in> set (transitions (ic_state ictx))"
    using find_transition_some by blast
  then have "cache_ok (Some (ic_state ictx, itr))" by (simp add: cache_ok_def)
  then show ?case using itr Cons.IH choose_cached [OF Cons.prems]
    by (auto simp: input_step_def Let_def split: option.split)
qed simp

lemma parse_steps: "input_parse env buf ictx = input_steps env buf ictx"
  unfolding input_parse_def by (rule parse_from_steps) (simp add: cache_ok_def)

text \<open>
  C18. The result of parsing does not depend on how the bytes are cut into reads: parsing two pieces one after the other
  is parsing them together, in every environment and from every context. The transition remembered from one byte
  to the next, which is lost between the pieces, makes no difference, because it is only used where a search of
  the table would find the same one.
\<close>

theorem input_parse_append:
  "input_parse env (xs @ ys) ictx = Option.bind (input_parse env xs ictx) (input_parse env ys)"
proof -
  have "input_parse env ys = input_steps env ys" by (rule ext) (rule parse_steps)
  then show ?thesis by (simp add: parse_steps input_steps_append)
qed

end
