(* ===== verification/Input_Safe.thy ===== *)
theory Input_Safe
  imports Input_Frame Input_Parse
begin

text \<open>
  The invariant of the input parser: the buffers stay within their arrays (in the ground state the string buffer may
  have been shrunk below its old contents, which are cleared before it is used again), a character being read is incomplete, the
  palette arrays have 256 entries, and the ground timer runs exactly in the states that wait for the end of a string.
  Every step keeps it and no step fails.
\<close>

section \<open>The invariant\<close>

definition string_states :: "input_state set" where
  "string_states = {Dcs_enter, Dcs_parameter, Dcs_intermediate, Dcs_handler, Dcs_escape, Dcs_ignore, Osc_string,
     Apc_string, Rename_string, Consume_st}"

definition palette_ok :: "colour_palette option \<Rightarrow> bool" where
  "palette_ok po \<longleftrightarrow> (\<forall>p\<in>set_option po. \<forall>arr\<in>set_option (cp_palette p) \<union> set_option (cp_default_palette p). length arr = 256)"

definition utf8_reading :: "bool \<Rightarrow> utf8_data \<Rightarrow> bool" where
  "utf8_reading started ud \<longleftrightarrow> (started \<longrightarrow> (\<exists>bytes. ud_holds ud bytes) \<and> ud_have ud < ud_size ud)"

definition buffers_ok :: "nat \<Rightarrow> 's input_ctx \<Rightarrow> bool" where
  "buffers_ok limit ictx \<longleftrightarrow> length (ic_interm ictx) \<le> 3 \<and> length (ic_param ictx) \<le> 63 \<and>
     (ic_state ictx \<noteq> Ground \<longrightarrow> length (ic_input ictx) < ic_space ictx) \<and> INPUT_BUF_START \<le> ic_space ictx \<and>
     ic_space ictx \<le> max INPUT_BUF_START limit \<and> length (ic_params ictx) \<le> 24"

definition input_wf :: "'s input_env \<Rightarrow> 's input_ctx \<Rightarrow> bool" where
  "input_wf env ictx \<longleftrightarrow> buffers_ok (ie_buffer_size env) ictx \<and> utf8_reading (ic_utf8started ictx) (ic_utf8 ictx) \<and>
     palette_ok (ic_palette ictx) \<and> (ic_timer ictx \<longleftrightarrow> ic_state ictx \<in> string_states)"

text \<open>A change that keeps the core apart from the palette, which stays good.\<close>

definition keeps :: "'s input_ctx \<Rightarrow> 's input_ctx \<Rightarrow> bool" where
  "keeps ictx ictx' \<longleftrightarrow> core (ictx'\<lparr>ic_palette := None\<rparr>) = core (ictx\<lparr>ic_palette := None\<rparr>) \<and>
     (palette_ok (ic_palette ictx) \<longrightarrow> palette_ok (ic_palette ictx'))"

lemma keeps_core: "core ictx' = core ictx \<Longrightarrow> keeps ictx ictx'"
  by (simp add: keeps_def core_def)

lemma keeps_trans: "keeps a b \<Longrightarrow> keeps b c \<Longrightarrow> keeps a c"
  by (simp add: keeps_def)

lemma keeps_refl [simp]: "keeps a a"
  by (simp add: keeps_def)

lemma keeps_then: "core b' = core b \<Longrightarrow> keeps a b \<Longrightarrow> keeps a b'"
  by (rule keeps_trans [OF _ keeps_core])

lemma keeps_palette: "(palette_ok (ic_palette ictx) \<Longrightarrow> palette_ok po) \<Longrightarrow> keeps ictx (ictx\<lparr>ic_palette := po\<rparr>)"
  by (simp add: keeps_def)

lemma keeps_wf: "keeps ictx ictx' \<Longrightarrow> input_wf env ictx \<Longrightarrow> input_wf env ictx'"
  by (simp add: keeps_def input_wf_def core_def buffers_ok_def)

lemma keeps_fields:
  assumes "keeps ictx ictx'"
  shows "ic_state ictx' = ic_state ictx" "ic_ch ictx' = ic_ch ictx" "ic_since_ground ictx' = ic_since_ground ictx"
    "ic_interm ictx' = ic_interm ictx" "ic_param ictx' = ic_param ictx" "ic_input ictx' = ic_input ictx"
    "ic_end ictx' = ic_end ictx" "ic_discard ictx' = ic_discard ictx" "ic_timer ictx' = ic_timer ictx"
    "ic_space ictx' = ic_space ictx" "ic_utf8started ictx' = ic_utf8started ictx" "ic_utf8 ictx' = ic_utf8 ictx"
    "ic_params ictx' = ic_params ictx"
  using assms by (simp_all add: keeps_def core_def)

section \<open>Palettes\<close>

lemma palette_clear_ok: "palette_ok po \<Longrightarrow> palette_ok (colour_palette_clear po)"
  by (auto simp: palette_ok_def colour_palette_clear_def)

lemma palette_set_ok: "palette_ok po \<Longrightarrow> palette_ok (snd (colour_palette_set po n c))"
  by (auto simp: palette_ok_def colour_palette_set_def Let_def split: option.split)

lemma palette_entry_some: "\<forall>cs\<in>set_option arr. length cs = 256 \<Longrightarrow> unat n < 256 \<Longrightarrow> \<exists>c. palette_entry arr n = Some c"
  by (cases arr) (auto simp: palette_entry_def)

lemma index_256:
  assumes "0 \<le> i" "i < 256"
  shows "\<not> 0x5A \<le> word_of_int i OR COLOUR_FLAG_256 \<or> \<not> word_of_int i OR COLOUR_FLAG_256 \<le> (0x61 :: u32)"
    "(word_of_int i OR COLOUR_FLAG_256) AND COLOUR_FLAG_256 \<noteq> (0 :: u32)"
    "unat ((word_of_int i OR COLOUR_FLAG_256) AND NOT COLOUR_FLAG_256 :: u32) < 256"
proof -
  have "list_all (\<lambda>n. (\<not> 0x5A \<le> of_nat n OR COLOUR_FLAG_256 \<or> \<not> of_nat n OR COLOUR_FLAG_256 \<le> (0x61 :: u32)) \<and>
      (of_nat n OR COLOUR_FLAG_256) AND COLOUR_FLAG_256 \<noteq> (0 :: u32) \<and>
      unat ((of_nat n OR COLOUR_FLAG_256) AND NOT COLOUR_FLAG_256 :: u32) < 256) [0..<256]"
    by code_simp
  moreover have "word_of_int i = (of_nat (nat i) :: u32)" "nat i \<in> set [0..<256]" using assms by auto
  ultimately show "\<not> 0x5A \<le> word_of_int i OR COLOUR_FLAG_256 \<or> \<not> word_of_int i OR COLOUR_FLAG_256 \<le> (0x61 :: u32)"
    "(word_of_int i OR COLOUR_FLAG_256) AND COLOUR_FLAG_256 \<noteq> (0 :: u32)"
    "unat ((word_of_int i OR COLOUR_FLAG_256) AND NOT COLOUR_FLAG_256 :: u32) < 256"
    by (simp_all only: list_all_iff) blast+
qed

lemma palette_get_some:
  assumes "palette_ok po" "0 \<le> i" "i < 256"
  shows "\<exists>c. colour_palette_get po (word_of_int i OR COLOUR_FLAG_256) = Some c"
proof (cases po)
  case (Some p)
  let ?n = "(word_of_int i OR COLOUR_FLAG_256) AND NOT COLOUR_FLAG_256 :: u32"
  have arrs: "\<forall>cs\<in>set_option (cp_palette p). length cs = 256" "\<forall>cs\<in>set_option (cp_default_palette p). length cs = 256"
    using assms(1) Some by (auto simp: palette_ok_def)
  from palette_entry_some [OF arrs(1) index_256(3) [OF assms(2,3)]] palette_entry_some [OF arrs(2) index_256(3) [OF assms(2,3)]]
  obtain c d where "palette_entry (cp_palette p) ?n = Some c" "palette_entry (cp_default_palette p) ?n = Some d" by blast
  then show ?thesis using Some index_256(1,2) [OF assms(2,3)]
    by (auto simp only: colour_palette_get_def option.case Let_def split: if_splits)
qed (simp add: colour_palette_get_def)

section \<open>Strings\<close>

lemma keeps_act: "keeps a b \<Longrightarrow> keeps a (act env x b)"
  by (rule keeps_then [OF core_act])

text \<open>The environment does not crash the parser: it has an event, or is not asked for the clipboard.\<close>

definition reply_ok :: "'s input_env \<Rightarrow> bool" where
  "reply_ok env \<longleftrightarrow> ie_event env \<or> ie_set_clipboard env \<noteq> 2 \<or> ie_get_clipboard env \<noteq> 1 \<or> ie_paste_top env = None"

lemma osc_4_keeps:
  "palette_ok (ic_palette ictx) \<Longrightarrow> \<exists>r ictx'. osc_4_loop env s redraw ictx = Some (r, ictx') \<and> keeps ictx ictx'"
proof (induction env s redraw ictx rule: osc_4_loop.induct)
  case (1 env s redraw ictx)
  obtain idx nxt where st: "strtol s = (idx, nxt)" by fastforce
  obtain colour rest where sep: "strsep_one 0x3b (tl nxt) = (colour, rest)" by fastforce
  show ?case
  proof (cases "s = [] \<or> nxt = [] \<or> hd nxt \<noteq> 0x3b \<or> idx < 0 \<or> idx \<ge> 256")
    case True
    then show ?thesis using st by (subst osc_4_loop.simps) auto
  next
    case False
    then have idx: "0 \<le> idx" "idx < 256" by auto
    obtain c where c: "colour_palette_get (ic_palette ictx) (word_of_int idx OR COLOUR_FLAG_256) = Some c"
      using palette_get_some [OF 1(2) idx] by blast
    have go_on: "\<exists>r ictx''. (case rest of None \<Rightarrow> Some (red, ictx') | Some s' \<Rightarrow> osc_4_loop env s' red ictx') = Some (r, ictx'') \<and>
        keeps ictx ictx''" if k: "keeps ictx ictx'" for red ictx'
    proof (cases rest)
      case (Some s')
      have "palette_ok (ic_palette ictx')" using k 1(2) by (simp add: keeps_def)
      from 1(1) [of idx nxt colour rest s' ictx' red, OF _ _ _ _ _ _ this] Some False st sep
      obtain r ictx'' where "osc_4_loop env s' red ictx' = Some (r, ictx'')" "keeps ictx' ictx''" by auto
      then show ?thesis using Some k by (auto intro: keeps_trans)
    qed (use k in simp)
    have set_keeps: "keeps ictx (ictx\<lparr>ic_palette := po\<rparr>)" if "colour_palette_set (ic_palette ictx) idx c' = (changed, po)" for po changed c'
      using palette_set_ok [of "ic_palette ictx" idx c'] that by (intro keeps_palette) simp
    show ?thesis using False st sep c
      by (subst osc_4_loop.simps)
        (auto simp: Let_def split: prod.split intro!: go_on set_keeps keeps_core [OF core_act] keeps_core [OF core_osc_reply])
  qed
qed

lemma input_osc_4_keeps:
  assumes "palette_ok (ic_palette ictx)"
  shows "\<exists>ictx'. input_osc_4 env p ictx = Some ictx' \<and> keeps ictx ictx'"
proof -
  from osc_4_keeps [OF assms, of env p False] obtain r ictx' where
    "osc_4_loop env p False ictx = Some (r, ictx')" "keeps ictx ictx'" by blast
  then show ?thesis by (simp add: input_osc_4_def keeps_act)
qed

lemma osc_104_ok: "palette_ok po \<Longrightarrow> palette_ok (snd (osc_104_loop s redraw po))"
proof (induction s redraw po rule: osc_104_loop.induct)
  case (1 s redraw po)
  have "palette_ok po'" if "colour_palette_set po idx (- 1) = (changed, po')" for idx changed po'
    using palette_set_ok [OF 1(2), of idx "- 1"] that by simp
  with 1 show ?case
    by (subst osc_104_loop.simps) (auto split: prod.split)
qed

lemma input_osc_104_keeps: "palette_ok (ic_palette ictx) \<Longrightarrow> keeps ictx (input_osc_104 env p ictx)"
  using osc_104_ok [of "ic_palette ictx" p False] palette_clear_ok [of "ic_palette ictx"]
  by (auto simp: input_osc_104_def Let_def split: prod.split intro!: keeps_act keeps_palette)

lemma on_pane_keeps: "keeps a b \<Longrightarrow> keeps a (on_pane env x b)"
  by (simp add: on_pane_def keeps_act)

lemma default_colour_keeps:
  "(\<And>p. cp_palette (f p) = cp_palette p \<and> cp_default_palette (f p) = cp_default_palette p) \<Longrightarrow>
     keeps ictx (set_default_colour env f flags ictx)"
  by (auto simp: set_default_colour_def split: option.split intro!: keeps_act on_pane_keeps keeps_palette)
    (simp add: palette_ok_def)

lemma osc_colours_keep:
  "keeps ictx (input_osc_10 env p ictx)" "keeps ictx (input_osc_11 env p ictx)"
  "keeps ictx (input_osc_110 env p ictx)" "keeps ictx (input_osc_111 env p ictx)"
  by (auto simp: input_osc_10_def input_osc_11_def input_osc_110_def input_osc_111_def
      intro!: default_colour_keeps keeps_core [OF core_osc_reply])

lemma reply_clipboard_keeps:
  "ie_event env \<Longrightarrow> \<exists>ictx'. input_reply_clipboard env buf e clip ictx = Some ictx' \<and> keeps ictx ictx'"
  by (auto simp: input_reply_clipboard_def Let_def split: option.split intro: keeps_core [OF core_act])

lemma input_osc_52_keeps:
  assumes "reply_ok env"
  shows "\<exists>ictx'. input_osc_52 env p ictx = Some ictx' \<and> keeps ictx ictx'"
proof -
  have "\<exists>ictx'. input_osc_52_reply env clip ictx = Some ictx' \<and> keeps ictx ictx'" if "ie_set_clipboard env = 2" for clip
    using assms that reply_clipboard_keeps [of env]
    by (auto simp: input_osc_52_reply_def reply_ok_def split: option.split intro: keeps_core [OF core_act])
  then show ?thesis
    by (auto simp: input_osc_52_def Let_def split: prod.split option.split intro: keeps_core [OF core_act])
qed

lemma osc_run_keeps:
  assumes "reply_ok env" "palette_ok (ic_palette ictx)"
  shows "\<exists>ictx'. osc_run env n p ictx = Some ictx' \<and> keeps ictx ictx'"
  unfolding osc_run_def
  using input_osc_4_keeps [OF assms(2), of env p] input_osc_52_keeps [OF assms(1), of p ictx]
    input_osc_104_keeps [OF assms(2), of env p] osc_colours_keep [of ictx env p]
  by (simp add: keeps_core core_simps)

lemma exit_osc_keeps:
  assumes "reply_ok env" "palette_ok (ic_palette ictx)"
  shows "\<exists>ictx'. input_exit_osc env ictx = Some ictx' \<and> keeps ictx ictx'"
  unfolding input_exit_osc_def using osc_run_keeps [OF assms] by (simp add: Let_def)

lemma isvalid_some: "utf8_isvalid env s \<noteq> None"
proof (induction env s rule: utf8_isvalid.induct)
  case (2 env ch s)
  then show ?case using read_holds [of env ch s]
    by (auto split: option.split prod.split utf8_state.split)
qed simp

lemma exit_rename_keeps: "\<exists>ictx'. input_exit_rename env ictx = Some ictx' \<and> keeps ictx ictx'"
  using isvalid_some [of "ie_utf8 env" "ic_input ictx"]
  by (auto simp: input_exit_rename_def split: option.split bool.split intro: keeps_core [OF core_act])

lemma state_exit_keeps:
  assumes "reply_ok env" "palette_ok (ic_palette ictx)"
  shows "\<exists>ictx'. state_exit env st ictx = Some ictx' \<and> keeps ictx ictx'"
  unfolding state_exit_def
  using exit_osc_keeps [OF assms] exit_rename_keeps [of env ictx]
  by (simp add: input_exit_apc_def keeps_core core_simps)

end
