(* ===== verification/Input_Invariant.thy ===== *)
theory Input_Invariant
  imports Input_Safe
begin

text \<open>
  Every handler and every change of state of the input parser keeps its invariant and does not fail, so parsing never
  fails; and what follows for the states: three bytes bring every parser back to the ground state.
\<close>

section \<open>Handlers\<close>

text \<open>A handler that runs, keeps the invariant, and leaves the state, the byte and the pending input.\<close>

definition handled :: "'s input_env \<Rightarrow> 's input_ctx \<Rightarrow> 's input_ctx \<Rightarrow> bool" where
  "handled env ictx ictx' \<longleftrightarrow> input_wf env ictx' \<and> ic_state ictx' = ic_state ictx \<and> ic_ch ictx' = ic_ch ictx \<and>
     ic_since_ground ictx' = ic_since_ground ictx"

lemma keeps_handled: "keeps ictx ictx' \<Longrightarrow> input_wf env ictx \<Longrightarrow> handled env ictx ictx'"
  by (auto simp: handled_def keeps_wf keeps_fields)

lemma core_handled: "core ictx' = core ictx \<Longrightarrow> input_wf env ictx \<Longrightarrow> handled env ictx ictx'"
  by (rule keeps_handled [OF keeps_core])

lemma core_started: "core a = core b \<Longrightarrow> core (a\<lparr>ic_utf8started := x\<rparr>) = core (b\<lparr>ic_utf8started := x\<rparr>)"
  by (simp add: core_def)

lemma core_stop_utf8: "core (input_stop_utf8 env ictx) = core (ictx\<lparr>ic_utf8started := False\<rparr>)"
  unfolding input_stop_utf8_def Let_def by (auto intro!: core_started simp: core_simps)

lemma stopped_handled:
  assumes "core ictx' = core (ictx\<lparr>ic_utf8started := False\<rparr>)" "input_wf env ictx"
  shows "handled env ictx ictx'"
proof -
  have "input_wf env (ictx\<lparr>ic_utf8started := False\<rparr>)"
    using assms(2) by (simp add: input_wf_def buffers_ok_def utf8_reading_def)
  then have "handled env (ictx\<lparr>ic_utf8started := False\<rparr>) ictx'" by (rule core_handled [OF assms(1)])
  then show ?thesis by (simp add: handled_def)
qed

lemma print_handled: "input_wf env ictx \<Longrightarrow> handled env ictx (input_print env ictx)"
  by (rule stopped_handled) (simp add: input_print_def Let_def core_simps core_stop_utf8)

lemma c0_handled: "input_wf env ictx \<Longrightarrow> handled env ictx (input_c0_dispatch env ictx)"
  by (rule stopped_handled) (simp_all add: input_c0_dispatch_def Let_def core_simps core_stop_utf8)

lemma intermediate_handled: "input_wf env ictx \<Longrightarrow> handled env ictx (input_intermediate ictx)"
  by (auto simp: handled_def input_wf_def buffers_ok_def input_intermediate_def)

lemma parameter_handled: "input_wf env ictx \<Longrightarrow> handled env ictx (input_parameter ictx)"
  by (auto simp: handled_def input_wf_def buffers_ok_def input_parameter_def)

lemma grow_some:
  "32 \<le> space \<Longrightarrow> \<exists>space' ok. input_grow limit n space = Some (space', ok) \<and> space \<le> space' \<and> space' \<le> max space limit \<and>
     (ok \<longrightarrow> n + 1 < space')"
proof (induction limit n space rule: input_grow.induct)
  case (1 limit n space)
  consider (fits) "n + 1 < space" | (full) "\<not> n + 1 < space" "2 * space > limit" | (more) "\<not> n + 1 < space" "2 * space \<le> limit"
    by linarith
  then show ?case
  proof cases
    case more
    have "32 \<le> 2 * space" "space \<noteq> 0" "\<not> 2 * space > limit" using 1(2) more(2) by simp_all
    with 1(1) [OF more(1) this(2,3) this(1)] more show ?thesis
      by (subst input_grow.simps) auto
  next
    case fits
    then show ?thesis by (subst input_grow.simps) auto
  next
    case full
    then show ?thesis using 1(2) by (subst input_grow.simps) auto
  qed
qed

lemma input_handled:
  assumes "input_wf env ictx"
  shows "\<exists>ictx'. input_input env ictx = Some ictx' \<and> handled env ictx ictx'"
proof -
  have space: "32 \<le> ic_space ictx" using assms by (simp add: input_wf_def buffers_ok_def)
  from grow_some [OF space, of "ie_buffer_size env" "length (ic_input ictx)"] obtain space' ok where
    grow: "input_grow (ie_buffer_size env) (length (ic_input ictx)) (ic_space ictx) = Some (space', ok)"
      "ic_space ictx \<le> space'" "space' \<le> max (ic_space ictx) (ie_buffer_size env)" "ok \<longrightarrow> length (ic_input ictx) + 1 < space'"
    by blast
  then show ?thesis using assms
    by (auto simp: input_input_def handled_def input_wf_def buffers_ok_def)
qed

lemma esc_keeps: "keeps ictx (input_esc_dispatch env ictx)"
proof -
  have reset: "keeps ictx (act env SW_fullredraw (act env SW_reset
      (input_reset_cell (ictx\<lparr>ic_palette := colour_palette_clear (ic_palette ictx)\<rparr>))))"
    by (intro keeps_act keeps_then [OF core_reset_cell] keeps_palette palette_clear_ok)
  have "keeps ictx (input_esc_run env t ictx)" for t
    by (cases "t = INPUT_ESC_RIS")
      (auto simp: input_esc_run_def Let_def set_cell_def core_simps reset intro!: keeps_core split: input_esc_type.split)
  then show ?thesis
    by (auto simp: input_esc_dispatch_def core_simps split: option.split intro!: keeps_then [OF core_update(8)])
qed

lemma esc_handled: "input_wf env ictx \<Longrightarrow> handled env ictx (input_esc_dispatch env ictx)"
  by (rule keeps_handled [OF esc_keeps])

lemma split_params_length: "length ps \<le> 24 \<Longrightarrow> length ps < 24 \<Longrightarrow> length (snd (split_params outs ps)) \<le> 24"
  by (induction outs ps rule: split_params.induct) (auto simp: Let_def split: option.split)

lemma csi_handled:
  assumes "input_wf env ictx"
  shows "handled env ictx (input_csi_dispatch env ictx)"
proof -
  have "\<exists>ok ps. input_split ictx = (ok, ictx\<lparr>ic_params := ps\<rparr>) \<and> length ps \<le> 24"
  proof (cases "ic_param ictx = []")
    case True
    then show ?thesis by (intro exI [of _ True] exI [of _ "[]"]) (simp add: input_split_def)
  next
    case False
    obtain ok ps where ps: "split_params (strsep_all 0x3b (ic_param ictx)) [] = (ok, ps)" by fastforce
    then have "length ps \<le> 24" using split_params_length [of "[]" "strsep_all 0x3b (ic_param ictx)"] by simp
    then show ?thesis using False ps by (intro exI [of _ ok] exI [of _ ps]) (simp add: input_split_def)
  qed
  then obtain ok ps where split: "input_split ictx = (ok, ictx\<lparr>ic_params := ps\<rparr>)" "length ps \<le> 24" by blast
  then have wf: "handled env ictx (ictx\<lparr>ic_params := ps\<rparr>)"
    using assms by (auto simp: handled_def input_wf_def buffers_ok_def)
  have "handled env (ictx\<lparr>ic_params := ps\<rparr>) (input_csi_run env t bg (ictx\<lparr>ic_params := ps\<rparr>)\<lparr>ic_lastset := False\<rparr>)" for t bg
    by (rule core_handled) (use wf in \<open>auto simp: core_simps core_csi_run handled_def\<close>)
  with wf assms split(1) show ?thesis
    by (auto simp: input_csi_dispatch_def handled_def split: bool.split option.split)
qed

lemma dcs_handled: "input_wf env ictx \<Longrightarrow> handled env ictx (input_dcs_dispatch env ictx)"
  by (rule core_handled) (simp_all add: input_dcs_dispatch_def input_handle_decrqss_def Let_def core_simps)

lemma end_bel_handled: "input_wf env ictx \<Longrightarrow> handled env ictx (input_end_bel ictx)"
  by (simp add: input_end_bel_def handled_def input_wf_def buffers_ok_def)

text \<open>A UTF-8 character that is being read has been opened and is not complete.\<close>

lemma top_bit_handled:
  assumes "input_wf env ictx"
  shows "\<exists>ictx'. input_top_bit_set env ictx = Some ictx' \<and> handled env ictx ictx'"
proof (cases "ic_utf8started ictx")
  case False
  from open_holds [of "ie_utf8 env" "ic_ch ictx"] obtain more ud where
    o: "utf8_open (ie_utf8 env) (ic_ch ictx) = Some (more, ud)"
      "more = UTF8_MORE \<Longrightarrow> ud_holds ud [ic_ch ictx] \<and> ud_have ud \<noteq> ud_size ud"
    by auto
  then have "more = UTF8_MORE \<Longrightarrow> utf8_reading True ud"
    by (auto simp: utf8_reading_def ud_holds_def order.strict_iff_order)
  with o(1) assms False show ?thesis
    using core_stop_utf8 [of env "ictx\<lparr>ic_lastset := False, ic_utf8started := True, ic_utf8 := ud\<rparr>"]
    by (auto simp: input_top_bit_set_def Let_def handled_def input_wf_def buffers_ok_def core_def utf8_reading_def)
next
  case True
  with assms obtain bytes where "ud_holds (ic_utf8 ictx) bytes" "ud_have (ic_utf8 ictx) < ud_size (ic_utf8 ictx)"
    by (auto simp: input_wf_def utf8_reading_def)
  from append_holds [OF this, of "ie_utf8 env" "ic_ch ictx"] obtain more ud where
    a: "utf8_append (ie_utf8 env) (ic_utf8 ictx) (ic_ch ictx) = Some (more, ud)" "ud_holds ud (bytes @ [ic_ch ictx])"
      "more = UTF8_MORE \<longleftrightarrow> ud_have ud \<noteq> ud_size ud"
    by metis
  then have "more = UTF8_MORE \<Longrightarrow> utf8_reading True ud"
    by (auto simp: utf8_reading_def ud_holds_def order.strict_iff_order)
  with a(1) assms True show ?thesis
    using core_stop_utf8 [of env "ictx\<lparr>ic_lastset := False, ic_utf8 := ud\<rparr>"]
    by (cases more) (auto simp: input_top_bit_set_def Let_def handled_def input_wf_def buffers_ok_def core_def utf8_reading_def act_def)
qed

lemma run_handler_handled:
  assumes "input_wf env ictx"
  shows "\<exists>ictx'. run_handler env h ictx = Some ictx' \<and> handled env ictx ictx'"
  using print_handled [OF assms] c0_handled [OF assms] intermediate_handled [OF assms] parameter_handled [OF assms]
    input_handled [OF assms] esc_handled [OF assms] csi_handled [OF assms] dcs_handled [OF assms]
    end_bel_handled [OF assms] top_bit_handled [OF assms]
  by (cases h) auto

section \<open>Steps\<close>

text \<open>The states that are entered with an action, and all others, which keep the timer and the buffers.\<close>

definition entering :: "input_state set" where
  "entering = {Ground, Esc_enter, Csi_enter, Dcs_enter, Osc_string, Apc_string, Rename_string, Consume_st}"

lemma transition_class:
  assumes "(lo, hi, h, Some st') \<in> set (transitions st)" "st' \<notin> entering"
  shows "(st' \<in> string_states \<longleftrightarrow> st \<in> string_states) \<and> st \<noteq> Ground"
proof -
  have "list_all (\<lambda>(lo, hi, h, to). case to of None \<Rightarrow> True | Some st' \<Rightarrow>
      st' \<in> entering \<or> (st' \<in> string_states \<longleftrightarrow> st \<in> string_states) \<and> st \<noteq> Ground) (transitions st)"
    by (cases st; simp only: transitions.simps; code_simp)
  then show ?thesis using assms by (auto simp: list_all_iff split: option.splits)
qed

lemma state_enter_wf:
  assumes "input_wf env ictx" "st \<notin> entering \<Longrightarrow> (st \<in> string_states \<longleftrightarrow> ic_state ictx \<in> string_states) \<and> ic_state ictx \<noteq> Ground"
  shows "input_wf env (state_enter st (ictx\<lparr>ic_state := st\<rparr>))"
  using assms
  by (cases st) (auto simp: state_enter_def entering_def string_states_def input_wf_def buffers_ok_def input_ground_def
      input_clear_def input_enter_string_def input_start_ground_timer_def Let_def)

lemma state_enter_fields:
  "ic_state (state_enter st ictx) = ic_state ictx" "ic_ch (state_enter st ictx) = ic_ch ictx"
  "ic_since_ground (state_enter st ictx) = (if st = Ground then [] else ic_since_ground ictx)"
  by (auto simp: state_enter_def input_ground_def input_clear_def input_enter_string_def input_start_ground_timer_def Let_def)

lemma set_state_wf:
  assumes "input_wf env ictx" "reply_ok env"
    "st \<notin> entering \<Longrightarrow> (st \<in> string_states \<longleftrightarrow> ic_state ictx \<in> string_states) \<and> ic_state ictx \<noteq> Ground"
  shows "\<exists>ictx'. input_set_state env st ictx = Some ictx' \<and> input_wf env ictx' \<and> ic_state ictx' = st \<and>
    ic_ch ictx' = ic_ch ictx \<and> ic_since_ground ictx' = (if st = Ground then [] else ic_since_ground ictx)"
proof -
  have "palette_ok (ic_palette ictx)" using assms(1) by (simp add: input_wf_def)
  from state_exit_keeps [OF assms(2) this] obtain ictx1 where
    x: "state_exit env (ic_state ictx) ictx = Some ictx1" "keeps ictx ictx1" by blast
  have "input_wf env ictx1" by (rule keeps_wf [OF x(2) assms(1)])
  then have "input_wf env (state_enter st (ictx1\<lparr>ic_state := st\<rparr>))"
    by (rule state_enter_wf) (use assms(3) keeps_fields(1) [OF x(2)] in simp)
  then show ?thesis using x(1) keeps_fields(2,3) [OF x(2)]
    by (simp add: input_set_state_def state_enter_fields)
qed

text \<open>The state after a step, and what becomes of the pending input.\<close>

definition next_state :: "input_state \<Rightarrow> u8 \<Rightarrow> input_state" where
  "next_state st b =
     (case find_transition st b of Some (lo, hi, h, Some st') \<Rightarrow> st' | _ \<Rightarrow> st)"

definition next_pending :: "input_state \<Rightarrow> u8 \<Rightarrow> u8 list \<Rightarrow> u8 list" where
  "next_pending st b pending =
     (if next_state st b \<noteq> Ground then pending @ [b]
      else case find_transition st b of Some (lo, hi, h, Some st') \<Rightarrow> [] | _ \<Rightarrow> pending)"

lemma step_wf:
  assumes "input_wf env ictx" "reply_ok env"
  shows "\<exists>ictx'. input_step env b ictx = Some ictx' \<and> input_wf env ictx' \<and> ic_state ictx' = next_state (ic_state ictx) b \<and>
    ic_since_ground ictx' = next_pending (ic_state ictx) b (ic_since_ground ictx)"
proof -
  obtain lo hi h to where itr: "find_transition (ic_state ictx) b = Some (lo, hi, h, to)"
    "(lo, hi, h, to) \<in> set (transitions (ic_state ictx))"
    using find_transition_some by (metis prod_cases4)
  define ictx0 where "ictx0 = (if h \<noteq> Some H_print then act env SW_collect_end (ictx\<lparr>ic_ch := b\<rparr>) else ictx\<lparr>ic_ch := b\<rparr>)"
  have wf0: "handled env (ictx\<lparr>ic_ch := b\<rparr>) ictx0"
    unfolding ictx0_def using assms(1) by (intro core_handled) (simp_all add: core_simps input_wf_def buffers_ok_def)
  have "\<exists>ictx1. (case h of None \<Rightarrow> Some ictx0 | Some h' \<Rightarrow> run_handler env h' ictx0) = Some ictx1 \<and> handled env (ictx\<lparr>ic_ch := b\<rparr>) ictx1"
    using run_handler_handled [of env ictx0] wf0 by (cases h) (auto simp: handled_def)
  then obtain ictx1 where h: "(case h of None \<Rightarrow> Some ictx0 | Some h' \<Rightarrow> run_handler env h' ictx0) = Some ictx1"
    "input_wf env ictx1" "ic_state ictx1 = ic_state ictx" "ic_ch ictx1 = b" "ic_since_ground ictx1 = ic_since_ground ictx"
    by (auto simp: handled_def)
  have pend: "input_wf env (x\<lparr>ic_since_ground := bs\<rparr>)" if "input_wf env x" for x and bs :: "u8 list"
    using that by (simp add: input_wf_def buffers_ok_def)
  have step: "input_step env b ictx =
      Option.bind (case to of None \<Rightarrow> Some ictx1 | Some st' \<Rightarrow> input_set_state env st' ictx1)
        (\<lambda>x. Some (if ic_state x \<noteq> Ground then x\<lparr>ic_since_ground := ic_since_ground x @ [ic_ch x]\<rparr> else x))"
    by (simp only: input_step_def itr(1) option.case follow_def prod.case Let_def ictx0_def [symmetric] h(1) Option.bind.bind_lunit)
  show ?thesis
  proof (cases to)
    case None
    then show ?thesis using itr(1) h(2-) pend [OF h(2)]
      by (auto simp: step next_state_def next_pending_def)
  next
    case (Some st)
    have "\<exists>ictx2. input_set_state env st ictx1 = Some ictx2 \<and> input_wf env ictx2 \<and> ic_state ictx2 = st \<and>
        ic_ch ictx2 = ic_ch ictx1 \<and> ic_since_ground ictx2 = (if st = Ground then [] else ic_since_ground ictx1)"
      by (rule set_state_wf [OF h(2) assms(2)]) (use transition_class [of lo hi h st] itr(2) Some h(3) in simp)
    then obtain ictx2 where s: "input_set_state env st ictx1 = Some ictx2" "input_wf env ictx2" "ic_state ictx2 = st"
      "ic_ch ictx2 = ic_ch ictx1" "ic_since_ground ictx2 = (if st = Ground then [] else ic_since_ground ictx1)" by blast
    then show ?thesis using itr(1) h(4,5) Some pend [OF s(2)]
      by (auto simp: step next_state_def next_pending_def)
  qed
qed

fun states_after :: "input_state \<Rightarrow> u8 list \<Rightarrow> input_state" where
  "states_after st [] = st"
| "states_after st (b # bs) = states_after (next_state st b) bs"

fun pending_after :: "input_state \<Rightarrow> u8 list \<Rightarrow> u8 list \<Rightarrow> u8 list" where
  "pending_after st [] pending = pending"
| "pending_after st (b # bs) pending = pending_after (next_state st b) bs (next_pending st b pending)"

lemma parse_wf:
  assumes "input_wf env ictx" "reply_ok env"
  shows "\<exists>ictx'. input_parse env buf ictx = Some ictx' \<and> input_wf env ictx' \<and> ic_state ictx' = states_after (ic_state ictx) buf \<and>
    ic_since_ground ictx' = pending_after (ic_state ictx) buf (ic_since_ground ictx)"
  unfolding parse_steps using assms(1)
proof (induction buf arbitrary: ictx)
  case (Cons b buf)
  from step_wf [OF Cons.prems assms(2), of b] obtain ictx1 where
    "input_step env b ictx = Some ictx1" "input_wf env ictx1" "ic_state ictx1 = next_state (ic_state ictx) b"
    "ic_since_ground ictx1 = next_pending (ic_state ictx) b (ic_since_ground ictx)" by blast
  with Cons.IH [of ictx1] show ?case by simp
qed simp

end
