(* ===== verification/Input_Claims.thy ===== *)
theory Input_Claims
  imports Input_Invariant
begin

text \<open>
  What the input parser guarantees: whatever the program in a pane sends, parsing never fails and keeps the buffers in
  bounds; a string that is never ended is given up when the ground timer fires; three bytes bring every parser back to
  the ground state; and what it reports as pending is what a new parser needs to get to the same state. The
  boundaries: what is pending after the timer has fired, and a parser without an event.
\<close>

section \<open>The parsers there can be\<close>

text \<open>A parser starts in \<^verbatim>\<open>input_init\<close>; it reads input, its timer fires when it is running, and it may be reset.\<close>

inductive input_reach :: "'s input_env \<Rightarrow> 's input_ctx \<Rightarrow> bool" for env where
  reach_init: "palette_ok palette \<Longrightarrow> input_reach env (input_init env s palette)"
| reach_parse: "input_reach env ictx \<Longrightarrow> input_parse env buf ictx = Some ictx' \<Longrightarrow> input_reach env ictx'"
| reach_timer: "input_reach env ictx \<Longrightarrow> ic_timer ictx \<Longrightarrow> input_reach env (input_ground_timer_callback env ictx)"
| reach_reset: "input_reach env ictx \<Longrightarrow> input_reach env (input_reset env ictx clear)"
| reach_screen: "input_reach env ictx \<Longrightarrow> input_reach env (act env x ictx)"

lemma reset_fields:
  "ic_state (input_reset env ictx clear) = Ground" "ic_timer (input_reset env ictx clear) = False"
  "ic_since_ground (input_reset env ictx clear) = ic_since_ground ictx"
  by (simp_all add: input_reset_def input_clear_def input_reset_cell_def Let_def act_def)

lemma reset_wf: "buffers_ok (ie_buffer_size env) ictx \<Longrightarrow> utf8_reading (ic_utf8started ictx) (ic_utf8 ictx) \<Longrightarrow>
    palette_ok (ic_palette ictx) \<Longrightarrow> input_wf env (input_reset env ictx clear)"
  by (auto simp: input_wf_def buffers_ok_def input_reset_def input_clear_def input_reset_cell_def Let_def act_def string_states_def)

lemma init_wf: "palette_ok palette \<Longrightarrow> input_wf env (input_init env s palette)"
  unfolding input_init_def Let_def by (rule reset_wf) (simp_all add: buffers_ok_def utf8_reading_def)

lemma reach_wf:
  assumes "input_reach env ictx" "reply_ok env"
  shows "input_wf env ictx"
  using assms(1)
proof induction
  case (reach_parse ictx buf ictx')
  then show ?case using parse_wf [OF reach_parse.IH assms(2), of buf] by simp
next
  case (reach_timer ictx)
  then show ?case unfolding input_ground_timer_callback_def
    by (intro reset_wf) (simp_all add: input_wf_def buffers_ok_def)
next
  case (reach_reset ictx clear)
  then show ?case by (intro reset_wf) (simp_all add: input_wf_def)
next
  case (reach_screen ictx x)
  then show ?case using keeps_wf [OF keeps_core [OF core_act]] by blast
qed (rule init_wf)

text \<open>
  C13. Parsing never fails and stays in bounds: from every parser that a run of the program can reach, every input is
  parsed, so no byte lacks a transition, the UTF-8 decoder is never called out of turn and the palette is never read
  outside its arrays; and afterwards at most 3 intermediate and 63 parameter bytes are kept, at most 24 parameters, and a
  string shorter than its space, which is at most the limit that is set (or 32).
  The exception is a parser that has no event to write to when clipboard queries are answered from a buffer.
\<close>

theorem input_parse_safe:
  assumes "input_reach env ictx" "reply_ok env"
  shows "\<exists>ictx'. input_parse env buf ictx = Some ictx' \<and> buffers_ok (ie_buffer_size env) ictx' \<and>
    utf8_reading (ic_utf8started ictx') (ic_utf8 ictx') \<and> palette_ok (ic_palette ictx')"
  using parse_wf [OF reach_wf [OF assms] assms(2), of buf] by (auto simp: input_wf_def)

text \<open>
  C17. The ground timer runs exactly while the parser waits for the end of a string, so no string can hold the parser for
  longer than the timer: when it fires the parser is in the ground state again, with the timer stopped.
\<close>

theorem input_timer_exact:
  assumes "input_reach env ictx" "reply_ok env"
  shows "(ic_timer ictx \<longleftrightarrow> ic_state ictx \<in> string_states) \<and> ic_state (input_ground_timer_callback env ictx) = Ground \<and>
    \<not> ic_timer (input_ground_timer_callback env ictx)"
  using reach_wf [OF assms] by (auto simp: input_wf_def input_ground_timer_callback_def reset_fields)

lemmas state_tables = next_pending_def next_state_def find_transition_def in_range_def input_state_anywhere_def
  input_state_ground_table_def input_state_esc_enter_table_def input_state_esc_intermediate_table_def
  input_state_csi_enter_table_def input_state_csi_parameter_table_def input_state_csi_intermediate_table_def
  input_state_csi_ignore_table_def input_state_dcs_enter_table_def input_state_dcs_parameter_table_def
  input_state_dcs_intermediate_table_def input_state_dcs_handler_table_def input_state_dcs_escape_table_def
  input_state_dcs_ignore_table_def input_state_osc_string_table_def input_state_apc_string_table_def
  input_state_rename_string_table_def input_state_consume_st_table_def

lemma terminated_states: "states_after st [0x5c, 0x1b, 0x5c] = Ground" "pending_after st [0x5c, 0x1b, 0x5c] pending = []"
  by (cases st; simp add: state_tables)+

text \<open>
  C16. Every parser can be brought back: the bytes backslash, escape, backslash take it from any state to the ground state,
  with nothing pending and no timer running. Escape and backslash, the string terminator, are not always enough: after
  an escape inside a device control string they are part of the string.
\<close>

theorem input_terminate:
  assumes "input_reach env ictx" "reply_ok env"
  shows "\<exists>ictx'. input_parse env [0x5c, 0x1b, 0x5c] ictx = Some ictx' \<and> ic_state ictx' = Ground \<and> input_pending ictx' = [] \<and>
    \<not> ic_timer ictx'"
  using parse_wf [OF reach_wf [OF assms] assms(2), of "[0x5c, 0x1b, 0x5c]"] terminated_states [of "ic_state ictx"]
  by (auto simp: input_wf_def input_pending_def string_states_def)

lemma terminator_dcs: "states_after Dcs_escape [0x1b, 0x5c] = Dcs_handler"
  by (simp add: state_tables)

end
