(* ===== verification/Input_Control.thy ===== *)
theory Input_Control
  imports Input_Claims
begin

text \<open>
  The control of the input parser as a machine of its own: the state, the bytes collected, the timer and the pending
  input. It reads the tables and the limit of the buffer and nothing else, and the parser refines it: what is on
  the screen, the options, replies and colours never influence how the input is cut into sequences.
\<close>

section \<open>The abstract machine\<close>

record control =
  co_state :: input_state
  co_interm :: "u8 list"
  co_param :: "u8 list"
  co_input :: "u8 list"
  co_space :: nat
  co_end :: input_end_type
  co_discard :: bool
  co_timer :: bool
  co_pending :: "u8 list"

definition control :: "'s input_ctx \<Rightarrow> control" where
  "control ictx = \<lparr>co_state = ic_state ictx, co_interm = ic_interm ictx, co_param = ic_param ictx, co_input = ic_input ictx,
     co_space = ic_space ictx, co_end = ic_end ictx, co_discard = ic_discard ictx, co_timer = ic_timer ictx,
     co_pending = ic_since_ground ictx\<rparr>"

definition co_collect :: "nat \<Rightarrow> input_handler option \<Rightarrow> u8 \<Rightarrow> control \<Rightarrow> control" where
  "co_collect limit h b c =
     (if h = Some H_intermediate then
        (if length (co_interm c) = 3 then c\<lparr>co_discard := True\<rparr> else c\<lparr>co_interm := co_interm c @ [b]\<rparr>)
      else if h = Some H_parameter then
        (if length (co_param c) = 63 then c\<lparr>co_discard := True\<rparr> else c\<lparr>co_param := co_param c @ [b]\<rparr>)
      else if h = Some H_input then
        (case input_grow limit (length (co_input c)) (co_space c) of
           Some (space, True) \<Rightarrow> c\<lparr>co_space := space, co_input := co_input c @ [b]\<rparr>
         | Some (space, False) \<Rightarrow> c\<lparr>co_space := space, co_discard := True\<rparr>
         | None \<Rightarrow> c)
      else if h = Some H_end_bel then c\<lparr>co_end := INPUT_END_BEL\<rparr>
      else c)"

definition co_clear :: "control \<Rightarrow> control" where
  "co_clear c = c\<lparr>co_timer := False, co_interm := [], co_param := [], co_input := [], co_end := INPUT_END_ST, co_discard := False\<rparr>"

definition co_enter :: "input_state \<Rightarrow> control \<Rightarrow> control" where
  "co_enter st c =
     (if st = Ground then c\<lparr>co_state := st, co_timer := False, co_pending := [], co_space := min INPUT_BUF_START (co_space c)\<rparr>
      else if st \<in> {Esc_enter, Csi_enter} then (co_clear c)\<lparr>co_state := st\<rparr>
      else if st \<in> entering then (co_clear c)\<lparr>co_state := st, co_timer := True\<rparr>
      else c\<lparr>co_state := st\<rparr>)"

definition control_step :: "nat \<Rightarrow> u8 \<Rightarrow> control \<Rightarrow> control" where
  "control_step limit b c =
     (case find_transition (co_state c) b of
        None \<Rightarrow> c
      | Some (lo, hi, h, to) \<Rightarrow>
          (let c1 = co_collect limit h b c; c2 = (case to of None \<Rightarrow> c1 | Some st \<Rightarrow> co_enter st c1)
           in if co_state c2 \<noteq> Ground then c2\<lparr>co_pending := co_pending c2 @ [b]\<rparr> else c2))"

section \<open>The parser refines it\<close>

lemma control_core: "core ictx' = core ictx \<Longrightarrow> control ictx' = control ictx"
  by (simp add: control_def core_def)

lemma control_keeps: "keeps ictx ictx' \<Longrightarrow> control ictx' = control ictx"
  by (simp add: control_def keeps_fields)

lemma control_stopped: "core ictx' = core (ictx\<lparr>ic_utf8started := x\<rparr>) \<Longrightarrow> control ictx' = control ictx"
  by (simp add: control_def core_def)

lemma control_esc: "control (input_esc_dispatch env ictx) = control ictx"
  by (rule control_keeps [OF esc_keeps])

lemma control_csi: "control (input_csi_dispatch env ictx) = control ictx"
proof -
  have "control (snd (input_split ictx)) = control ictx"
    by (simp add: input_split_def control_def split: prod.split)
  moreover have "control ((input_csi_run env t bg ictx1)\<lparr>ic_lastset := False\<rparr>) = control ictx1" for t bg ictx1
    by (rule control_core) (simp add: core_simps core_csi_run)
  ultimately show ?thesis by (auto simp: input_csi_dispatch_def split: prod.split bool.split option.split)
qed

lemma control_update:
  "control (ictx\<lparr>ic_utf8 := ud\<rparr>) = control ictx" "control (ictx\<lparr>ic_utf8started := x\<rparr>) = control ictx"
  "control (ictx\<lparr>ic_lastset := x\<rparr>) = control ictx" "control (ictx\<lparr>ic_last := ud\<rparr>) = control ictx"
  "control (ictx\<lparr>ic_cell := cell\<rparr>) = control ictx" "control (act env a ictx) = control ictx"
  "control (input_stop_utf8 env ictx) = control ictx"
  using control_stopped [OF core_stop_utf8, of env ictx] by (simp_all add: control_def act_def)

lemma control_top_bit:
  assumes "input_top_bit_set env ictx = Some ictx'"
  shows "control ictx' = control ictx"
proof (cases "ic_utf8started ictx")
  case False
  then show ?thesis using assms
    by (auto simp: input_top_bit_set_def Let_def control_update)
next
  case True
  then obtain more ud where "utf8_append (ie_utf8 env) (ic_utf8 ictx) (ic_ch ictx) = Some (more, ud)"
    using assms by (auto simp: input_top_bit_set_def Let_def)
  then show ?thesis using assms True
    by (cases more) (auto simp: input_top_bit_set_def Let_def control_update)
qed

lemma control_handler:
  assumes "run_handler env h ictx = Some ictx'"
  shows "control ictx' = co_collect (ie_buffer_size env) (Some h) (ic_ch ictx) (control ictx)"
proof (cases h)
  case H_print
  have "core ictx' = core (ictx\<lparr>ic_utf8started := False\<rparr>)"
    using assms H_print by (auto simp: input_print_def Let_def core_simps core_stop_utf8)
  then show ?thesis using H_print control_stopped by (simp add: co_collect_def)
next
  case H_c0_dispatch
  have "core ictx' = core (ictx\<lparr>ic_utf8started := False\<rparr>)"
    using assms H_c0_dispatch by (auto simp: input_c0_dispatch_def Let_def core_simps core_stop_utf8)
  then show ?thesis using H_c0_dispatch control_stopped by (simp add: co_collect_def)
next
  case H_dcs_dispatch
  have "core ictx' = core ictx"
    using assms H_dcs_dispatch by (auto simp: input_dcs_dispatch_def input_handle_decrqss_def Let_def core_simps)
  then show ?thesis using H_dcs_dispatch control_core by (simp add: co_collect_def)
next
  case H_input
  then obtain space ok where "input_grow (ie_buffer_size env) (length (ic_input ictx)) (ic_space ictx) = Some (space, ok)"
    using assms by (auto simp: input_input_def)
  with H_input assms show ?thesis
    by (cases ok) (auto simp: input_input_def co_collect_def control_def)
next
  case H_top_bit_set
  then show ?thesis using assms control_top_bit [of env ictx ictx'] by (simp add: co_collect_def)
next
  case H_esc_dispatch
  then show ?thesis using assms control_esc [of env ictx] by (auto simp: co_collect_def)
next
  case H_csi_dispatch
  then show ?thesis using assms control_csi [of env ictx] by (auto simp: co_collect_def)
qed (use assms in \<open>auto simp: input_intermediate_def input_parameter_def input_end_bel_def co_collect_def control_def\<close>)

lemma control_enter: "ic_space ictx \<ge> INPUT_BUF_START \<Longrightarrow> control (state_enter st (ictx\<lparr>ic_state := st\<rparr>)) = co_enter st (control ictx)"
  by (cases st) (simp_all add: control_def state_enter_def co_enter_def entering_def co_clear_def input_ground_def input_clear_def
      input_enter_string_def input_start_ground_timer_def Let_def min_def)

lemma control_exit: "state_exit env st ictx = Some ictx' \<Longrightarrow> reply_ok env \<Longrightarrow> palette_ok (ic_palette ictx) \<Longrightarrow>
    control ictx' = control ictx"
  using state_exit_keeps [of env ictx st] control_keeps by force

lemma control_set_state:
  assumes "input_set_state env st ictx = Some ictx'" "reply_ok env" "palette_ok (ic_palette ictx)" "INPUT_BUF_START \<le> ic_space ictx"
  shows "control ictx' = co_enter st (control ictx)"
proof -
  obtain ictx1 where x: "state_exit env (ic_state ictx) ictx = Some ictx1" "ictx' = state_enter st (ictx1\<lparr>ic_state := st\<rparr>)"
    using assms(1) by (auto simp: input_set_state_def)
  have c: "control ictx1 = control ictx" by (rule control_exit [OF x(1) assms(2,3)])
  then have "INPUT_BUF_START \<le> ic_space ictx1" using assms(4) by (simp add: control_def)
  from control_enter [OF this, of st] show ?thesis unfolding x(2) c .
qed

lemma step_control:
  assumes "input_wf env ictx" "reply_ok env" "input_step env b ictx = Some ictx'"
  shows "control ictx' = control_step (ie_buffer_size env) b (control ictx)"
proof -
  obtain lo hi h to where itr: "find_transition (ic_state ictx) b = Some (lo, hi, h, to)"
    using find_transition_some by (metis prod_cases4)
  define ictx0 where "ictx0 = (if h \<noteq> Some H_print then act env SW_collect_end (ictx\<lparr>ic_ch := b\<rparr>) else ictx\<lparr>ic_ch := b\<rparr>)"
  have c0: "control ictx0 = control ictx" "ic_ch ictx0 = b" by (simp_all add: ictx0_def control_def act_def)
  have wf0: "input_wf env ictx0"
    using core_handled [of ictx0 "ictx\<lparr>ic_ch := b\<rparr>" env] assms(1)
    by (simp add: ictx0_def core_simps input_wf_def buffers_ok_def handled_def act_def)
  have "\<exists>ictx1. (case h of None \<Rightarrow> Some ictx0 | Some h' \<Rightarrow> run_handler env h' ictx0) = Some ictx1 \<and> input_wf env ictx1 \<and>
      ic_ch ictx1 = b \<and> control ictx1 = co_collect (ie_buffer_size env) h b (control ictx)"
    using run_handler_handled [OF wf0] c0 wf0 control_handler [of env _ ictx0]
    by (cases h) (fastforce simp: handled_def co_collect_def)+
  then obtain ictx1 where h: "(case h of None \<Rightarrow> Some ictx0 | Some h' \<Rightarrow> run_handler env h' ictx0) = Some ictx1" "input_wf env ictx1"
    "ic_ch ictx1 = b" "control ictx1 = co_collect (ie_buffer_size env) h b (control ictx)" by blast
  have step: "input_step env b ictx =
      Option.bind (case to of None \<Rightarrow> Some ictx1 | Some st' \<Rightarrow> input_set_state env st' ictx1)
        (\<lambda>x. Some (if ic_state x \<noteq> Ground then x\<lparr>ic_since_ground := ic_since_ground x @ [ic_ch x]\<rparr> else x))"
    by (simp only: input_step_def itr(1) option.case follow_def prod.case Let_def ictx0_def [symmetric] h(1) Option.bind.bind_lunit)
  have co: "co_state (control x) = ic_state x" for x :: "'a input_ctx" by (simp add: control_def)
  have final: "control (if ic_state x \<noteq> Ground then x\<lparr>ic_since_ground := ic_since_ground x @ [ic_ch x]\<rparr> else x) =
      (if co_state (control x) \<noteq> Ground then (control x)\<lparr>co_pending := co_pending (control x) @ [ic_ch x]\<rparr> else control x)"
    for x :: "'a input_ctx"
    by (simp add: control_def)
  show ?thesis
  proof (cases to)
    case None
    then show ?thesis using assms(3) step h final [of ictx1] itr by (simp add: control_step_def co Let_def)
  next
    case (Some st)
    then obtain ictx2 where s: "input_set_state env st ictx1 = Some ictx2"
      "ictx' = (if ic_state ictx2 \<noteq> Ground then ictx2\<lparr>ic_since_ground := ic_since_ground ictx2 @ [ic_ch ictx2]\<rparr> else ictx2)"
      using assms(3) step by (cases "input_set_state env st ictx1") auto
    have "control ictx2 = co_enter st (control ictx1)"
      by (rule control_set_state [OF s(1) assms(2)]) (use h(2) in \<open>auto simp: input_wf_def buffers_ok_def\<close>)
    moreover have "ic_ch ictx2 = b"
      using s(1) h(2,3) state_exit_keeps [OF assms(2), of ictx1 "ic_state ictx1"]
      by (auto simp: input_set_state_def input_wf_def state_enter_fields keeps_fields)
    ultimately show ?thesis using s(2) h(4) final [of ictx2] itr Some by (simp add: control_step_def co Let_def)
  qed
qed

text \<open>
  C14. Refinement: the parser implements the control machine. From every context that satisfies the invariant, parsing a
  string of bytes in any environment gives the context whose control is the fold of the steps of the machine; so
  how the input is cut into sequences, which bytes are kept, when the timer runs and what is pending are the
  same whatever is on the screen, whatever the options and whatever the palette.
\<close>

theorem input_control:
  assumes "input_wf env ictx" "reply_ok env"
  shows "\<exists>ictx'. input_parse env buf ictx = Some ictx' \<and>
    control ictx' = fold (control_step (ie_buffer_size env)) buf (control ictx)"
  unfolding parse_steps using assms(1)
proof (induction buf arbitrary: ictx)
  case (Cons b buf)
  from step_wf [OF Cons.prems assms(2), of b] obtain ictx1 where
    s: "input_step env b ictx = Some ictx1" "input_wf env ictx1" by blast
  with Cons.IH [OF s(2)] step_control [OF Cons.prems assms(2) s(1)] show ?case by simp
qed simp

end
