(* ===== verification/Input_Replay.thy ===== *)
theory Input_Replay
  imports Input_Control
begin

text \<open>
  The pending input, which \<^verbatim>\<open>capture-pane -P\<close> shows: giving it to a new parser brings that to the same point in the
  same sequence. It is shown for the control machine, which the parser refines.
\<close>

definition control_init :: control where
  "control_init = \<lparr>co_state = Ground, co_interm = [], co_param = [], co_input = [], co_space = INPUT_BUF_START,
     co_end = INPUT_END_ST, co_discard = False, co_timer = False, co_pending = []\<rparr>"

lemma control_input_init: "control (input_init env s palette) = control_init"
  by (simp add: input_init_def input_reset_def input_reset_cell_def input_clear_def control_def control_init_def Let_def)

text \<open>In the ground state nothing is pending; in others the pending bytes lead there from the start.\<close>

definition replayable :: "nat \<Rightarrow> control \<Rightarrow> bool" where
  "replayable limit c \<longleftrightarrow> INPUT_BUF_START \<le> co_space c \<and>
     (if co_state c = Ground then co_pending c = [] \<and> co_space c = INPUT_BUF_START \<and> \<not> co_timer c
      else fold (control_step limit) (co_pending c) control_init = c)"

lemma ground_transition:
  assumes "(lo, hi, h, to) \<in> set (transitions Ground)"
  shows "h \<notin> {Some H_intermediate, Some H_parameter, Some H_input, Some H_end_bel} \<and> to \<in> {None, Some Ground, Some Esc_enter}"
  using assms by (auto simp: input_state_ground_table_def input_state_anywhere_def)

lemma collect_fields:
  "co_state (co_collect limit h b c) = co_state c" "co_pending (co_collect limit h b c) = co_pending c"
  by (auto simp: co_collect_def split: option.split prod.split bool.split)

lemma collect_space: "INPUT_BUF_START \<le> co_space c \<Longrightarrow> INPUT_BUF_START \<le> co_space (co_collect limit h b c)"
  using grow_some [of "co_space c" limit "length (co_input c)"]
  by (auto simp: co_collect_def split: option.split prod.split bool.split)

lemma enter_fields:
  "co_state (co_enter st c) = st" "st \<noteq> Ground \<Longrightarrow> co_pending (co_enter st c) = co_pending c"
  "st \<noteq> Ground \<Longrightarrow> co_space (co_enter st c) = co_space c"
  by (auto simp: co_enter_def co_clear_def)

lemma control_step_replayable:
  assumes "replayable limit c"
  shows "replayable limit (control_step limit b c)"
proof -
  obtain lo hi h to where itr: "find_transition (co_state c) b = Some (lo, hi, h, to)"
    "(lo, hi, h, to) \<in> set (transitions (co_state c))"
    using find_transition_some by (metis prod_cases4)
  let ?c1 = "co_collect limit h b c"
  show ?thesis
  proof (cases "co_state c = Ground")
    case True
    note t = ground_transition [of lo hi h to]
    have same: "co_collect limit h b c' = c'" for c' using t itr(2) True by (auto simp: co_collect_def)
    have g: "co_pending c = []" "co_space c = INPUT_BUF_START" "\<not> co_timer c"
      using assms True by (simp_all add: replayable_def)
    consider "to = None" | "to = Some Ground" | "to = Some Esc_enter" using t itr(2) True by auto
    then show ?thesis
    proof cases
      case 3
      have "control_step limit b c = control_step limit b control_init"
        using 3 itr(1) True g same
        by (simp add: control_step_def co_enter_def co_clear_def control_init_def Let_def)
      moreover have "co_pending (control_step limit b c) = [b]" "co_state (control_step limit b c) = Esc_enter"
        "co_space (control_step limit b c) = INPUT_BUF_START"
        using 3 itr(1) True g same by (simp_all add: control_step_def co_enter_def co_clear_def Let_def)
      ultimately show ?thesis by (simp add: replayable_def)
    qed (use itr(1) True g same in \<open>simp_all add: control_step_def co_enter_def replayable_def Let_def\<close>)
  next
    case False
    have space: "INPUT_BUF_START \<le> co_space ?c1" using assms collect_space by (simp add: replayable_def)
    show ?thesis
    proof (cases "to = Some Ground")
      case True
      then show ?thesis using itr(1) False space
        by (simp add: control_step_def co_enter_def replayable_def Let_def min_def)
    next
      case False
      have "co_pending (control_step limit b c) = co_pending c @ [b]" "co_state (control_step limit b c) \<noteq> Ground"
        "INPUT_BUF_START \<le> co_space (control_step limit b c)"
        using False itr(1) \<open>co_state c \<noteq> Ground\<close> space
        by (auto simp: control_step_def Let_def collect_fields enter_fields split: option.split)
      moreover have "fold (control_step limit) (co_pending c) control_init = c"
        using assms \<open>co_state c \<noteq> Ground\<close> by (simp add: replayable_def)
      ultimately show ?thesis by (simp add: replayable_def)
    qed
  qed
qed

lemma fold_replayable: "replayable limit c \<Longrightarrow> replayable limit (fold (control_step limit) buf c)"
  by (induction buf arbitrary: c) (simp_all add: control_step_replayable)

text \<open>
  C15. The pending input is what it says: after any input to a new parser, giving what \<^verbatim>\<open>input_pending\<close> returns to
  another new parser, with another screen and palette, brings it to the same state with the same
  bytes pending; and inside a sequence, with the same intermediate, parameter and string bytes collected,
  the same end and the same decision to discard it.
\<close>

theorem input_pending_replay:
  assumes "palette_ok palette" "palette_ok palette'" "reply_ok env"
    "input_parse env buf (input_init env s palette) = Some ictx"
  shows "\<exists>ictx'. input_parse env (input_pending ictx) (input_init env s' palette') = Some ictx' \<and>
    ic_state ictx' = ic_state ictx \<and> input_pending ictx' = input_pending ictx \<and>
    (ic_state ictx \<noteq> Ground \<longrightarrow> ic_interm ictx' = ic_interm ictx \<and> ic_param ictx' = ic_param ictx \<and>
      ic_input ictx' = ic_input ictx \<and> ic_end ictx' = ic_end ictx \<and> ic_discard ictx' = ic_discard ictx)"
proof -
  let ?limit = "ie_buffer_size env"
  have c: "control ictx = fold (control_step ?limit) buf control_init"
    using input_control [OF init_wf [OF assms(1)] assms(3), of buf s] assms(4) by (simp add: control_input_init)
  have "replayable ?limit control_init" by (simp add: replayable_def control_init_def)
  then have "replayable ?limit (control ictx)" unfolding c by (rule fold_replayable)
  then have r: "if ic_state ictx = Ground then input_pending ictx = []
      else fold (control_step ?limit) (input_pending ictx) control_init = control ictx"
    by (simp add: replayable_def control_def input_pending_def split: if_splits)
  obtain ictx' where p: "input_parse env (input_pending ictx) (input_init env s' palette') = Some ictx'"
    "control ictx' = fold (control_step ?limit) (input_pending ictx) control_init"
    using input_control [OF init_wf [OF assms(2)] assms(3), of "input_pending ictx" s'] by (auto simp: control_input_init)
  show ?thesis
  proof (cases "ic_state ictx = Ground")
    case True
    then have "input_pending ictx = []" "control ictx' = control_init" using r p(2) by simp_all
    then show ?thesis using p(1) True by (auto simp: control_def control_init_def input_pending_def)
  next
    case False
    then have "control ictx' = control ictx" using r p(2) by simp
    then show ?thesis using p(1) by (auto simp: control_def input_pending_def)
  qed
qed

end
