(* ===== verification/Input_Examples.thy ===== *)
theory Input_Examples
  imports Input_Replay
begin

text \<open>
  Where the guarantees of the input parser end (a string that times out stays pending, a clipboard query crashes a
  parser without an event, numbers wrap, an escape does not end a UTF-8 character), and a concrete
  environment, which records the actions, at which the hypotheses of the claims hold.
\<close>

section \<open>Timeouts\<close>

text \<open>
  C19. A string that times out is reported as pending for ever after: when a new parser has read some input and waits for
  the end of a string, and the timer fires, the parser is in the ground state but the pending input is still the
  start of the string (and is never empty), because resetting does not drain it as entering the ground state does.
\<close>

theorem input_timeout_pending:
  assumes "palette_ok palette" "reply_ok env" "input_parse env buf (input_init env s palette) = Some ictx" "ic_timer ictx"
  shows "ic_state (input_ground_timer_callback env ictx) = Ground \<and>
    input_pending (input_ground_timer_callback env ictx) = input_pending ictx \<and> input_pending ictx \<noteq> []"
proof -
  have wf: "input_wf env ictx" and c: "control ictx = fold (control_step (ie_buffer_size env)) buf control_init"
    using input_control [OF init_wf [OF assms(1)] assms(2), of buf s] parse_wf [OF init_wf [OF assms(1)] assms(2), of buf s]
      assms(3) by (simp_all add: control_input_init)
  have "replayable (ie_buffer_size env) control_init" by (simp add: replayable_def control_init_def)
  then have "replayable (ie_buffer_size env) (control ictx)" unfolding c by (rule fold_replayable)
  moreover have "ic_state ictx \<noteq> Ground" using wf assms(4) by (auto simp: input_wf_def string_states_def)
  ultimately have "fold (control_step (ie_buffer_size env)) (input_pending ictx) control_init = control ictx"
    by (simp add: replayable_def control_def input_pending_def)
  moreover have "control ictx \<noteq> control_init" using \<open>ic_state ictx \<noteq> Ground\<close> by (simp add: control_def control_init_def)
  ultimately have "input_pending ictx \<noteq> []" by auto
  then show ?thesis by (simp add: input_ground_timer_callback_def reset_fields input_pending_def)
qed

section \<open>The clipboard of a parser without an event\<close>

lemma before_separator: "c \<notin> set s \<Longrightarrow> takeWhile (\<lambda>b. b \<noteq> c) (s @ c # t) = s"
  by (induction s) auto

lemma after_separator: "c \<notin> set s \<Longrightarrow> dropWhile (\<lambda>b. b \<noteq> c) (s @ c # t) = c # t"
  by (induction s) auto

text \<open>
  C20. The exception in the safety of parsing is real: a parser without an event (those of the view mode and of popups
  without a program) that reads the end of a query of the clipboard, OSC 52 with a question mark, while queries are
  answered from a buffer and there is one, writes to its event, a null dereference.
\<close>

theorem input_clipboard_crash:
  assumes "ic_state ictx = Osc_string" "\<not> ic_discard ictx" "ic_input ictx = [0x35, 0x32, 0x3b] @ sel @ [0x3b, 0x3f]"
    "0x3b \<notin> set sel" "\<not> ie_event env" "ie_set_clipboard env = 2" "ie_get_clipboard env = 1"
    "ie_paste_top env = Some buf" "buf = [] \<or> length buf < 1000 \<and> ie_b64_ntop env buf \<noteq> None"
  shows "input_parse env [0x07] ictx = None"
proof -
  have sep: "strsep_one 0x3b (sel @ [0x3b, 0x3f]) = (sel, Some [0x3f])"
    using assms(4) by (simp add: strsep_one_def before_separator after_separator)
  have "input_osc_52 env (sel @ [0x3b, 0x3f]) x = None" for x
    using assms(5-9) sep
    by (auto simp: input_osc_52_def input_osc_52_reply_def input_reply_clipboard_def Let_def split: option.split)
  then have "input_exit_osc env x = None" if "ic_input x = ic_input ictx" "\<not> ic_discard x" for x
    using that assms(3) by (simp add: input_exit_osc_def byte_digit_def osc_option_def osc_run_def Let_def)
  then have "state_exit env Osc_string x = None" if "ic_input x = ic_input ictx" "\<not> ic_discard x" for x
    using that by (simp add: state_exit_def)
  moreover have "find_transition Osc_string 0x07 = Some (7, 7, Some H_end_bel, Some Ground)"
    by (simp add: find_transition_def in_range_def input_state_osc_string_table_def input_state_anywhere_def)
  ultimately show ?thesis using assms(1,2)
    by (simp add: parse_steps input_step_def follow_def input_end_bel_def input_set_state_def act_def Let_def)
qed

section \<open>Numbers\<close>

text \<open>The number of an operating system command is taken modulo \<open>2\<^sup>3\<^sup>2\<close>: 4294967298 is 2 and sets the title.\<close>

lemma osc_option_value: "\<forall>b\<in>set ds. byte_digit b \<Longrightarrow> osc_option ds = of_nat (digits_value (chars ds))"
proof (induction ds rule: rev_induct)
  case (snoc b ds)
  have d: "unat b \<ge> 48" using snoc.prems by (simp add: byte_digit_def word_le_nat_alt)
  have "(ucast b :: u32) = of_nat (unat b)" by (simp add: unsigned_of_nat)
  then have "ucast b - (0x30 :: u32) = of_nat (unat b - 48)" using d by (simp add: of_nat_diff)
  then show ?case using snoc by (simp add: osc_option_def digits_value_def chars_def add_diff_eq [symmetric] mod_less [OF byte_small])
qed (simp add: osc_option_def digits_value_def chars_def)

lemma osc_option_wraps: "osc_option [0x34, 0x32, 0x39, 0x34, 0x39, 0x36, 0x37, 0x32, 0x39, 0x38] = 2"
  by (simp add: osc_option_def)

text \<open>
  An escape sequence does not end a UTF-8 character: a character begun before a sequence that resets the attributes is
  still being read after it, and a later byte completes it, while every control character ends it.
\<close>

lemma csi_utf8: "ic_utf8 (input_csi_dispatch env ictx) = ic_utf8 ictx" "ic_utf8started (input_csi_dispatch env ictx) = ic_utf8started ictx"
proof -
  have split: "ic_utf8 (snd (input_split ictx)) = ic_utf8 ictx" "ic_utf8started (snd (input_split ictx)) = ic_utf8started ictx"
    by (simp_all add: input_split_def split: prod.split)
  have run: "ic_utf8 (input_csi_run env t bg x) = ic_utf8 x" "ic_utf8started (input_csi_run env t bg x) = ic_utf8started x" for t bg x
    by (rule core_fields(7) [OF core_csi_run], rule core_fields(8) [OF core_csi_run])
  show "ic_utf8 (input_csi_dispatch env ictx) = ic_utf8 ictx" "ic_utf8started (input_csi_dispatch env ictx) = ic_utf8started ictx"
    using split by (auto simp: input_csi_dispatch_def run split: prod.split bool.split option.split)
qed

lemma csi_state: "ic_state (input_csi_dispatch env ictx) = ic_state ictx"
  using arg_cong [OF control_csi, of co_state env ictx] by (simp add: control_def)

lemma input_utf8_interrupted:
  assumes "ic_state ictx = Ground"
  shows "\<exists>ictx'. input_parse env [0x1b, 0x5b, 0x6d] ictx = Some ictx' \<and> ic_utf8 ictx' = ic_utf8 ictx \<and>
    ic_utf8started ictx' = ic_utf8started ictx"
  using assms
  by (simp add: parse_steps input_step_def follow_def state_tables input_set_state_def state_exit_def state_enter_def
      input_clear_def input_ground_def act_def Let_def csi_utf8 csi_state)

section \<open>A concrete environment\<close>

definition log_view :: screen_view where
  "log_view = \<lparr>sv_grid = grid_create 80 24 2000, sv_cx = 0, sv_cy = 0, sv_mode = MODE_CURSOR OR MODE_WRAP,
     sv_tabs = replicate 80 False, sv_cstyle = SCREEN_CURSOR_DEFAULT, sv_ccolour = - 1, sv_default_ccolour = - 1\<rparr>"

definition log_env :: "sw_action list input_env" where
  "log_env = \<lparr>ie_do = (\<lambda>a s. s @ [a]), ie_view = (\<lambda>s. log_view), ie_hyperlinks_put = (\<lambda>s uri ident. (s, 1)),
     ie_theme = (\<lambda>s. THEME_DARK), ie_foreground = (\<lambda>s. 8), ie_background = (\<lambda>s. 8), ie_cells = utf8_empty,
     ie_utf8 = \<lparr>utf8_no_width = True, utf8_width_cache = [], mbtowc = (\<lambda>s. None), wcwidth = (\<lambda>c. 1)\<rparr>,
     ie_pane = True, ie_in_mode = False, ie_event = True, ie_client = False, ie_xpixel = 16, ie_ypixel = 32,
     ie_buffer_size = 1048576, ie_extended_keys = 0, ie_cursor_style = 0, ie_get_clipboard = 1, ie_set_clipboard = 2,
     ie_allow_passthrough = 0, ie_allow_set_title = True, ie_allow_rename = False, ie_paste_top = Some [0x61],
     ie_parseX11 = (\<lambda>s. - 1), ie_b64_pton = (\<lambda>s. None), ie_b64_ntop = (\<lambda>s. Some ''YQ==''), ie_version = ''3.6''\<rparr>"

lemma log_reply_ok: "reply_ok log_env"
  by (simp add: reply_ok_def log_env_def)

lemma log_reach: "input_reach log_env (input_init log_env [] None)"
  by (rule reach_init) (simp add: palette_ok_def)

theorem input_parse_safe_witness:
  "\<exists>ictx'. input_parse log_env [0x1b, 0x5d, 0x34, 0xe2, 0x28] (input_init log_env [] None) = Some ictx' \<and>
     buffers_ok 1048576 ictx'"
  using input_parse_safe [OF log_reach log_reply_ok, of "[0x1b, 0x5d, 0x34, 0xe2, 0x28]"]
  by (auto simp: log_env_def)

theorem input_timer_exact_witness:
  "(ic_timer (input_init log_env [] None) \<longleftrightarrow> ic_state (input_init log_env [] None) \<in> string_states) \<and>
     ic_state (input_ground_timer_callback log_env (input_init log_env [] None)) = Ground"
  using input_timer_exact [OF log_reach log_reply_ok] by blast

theorem input_terminate_witness:
  "\<exists>ictx'. input_parse log_env [0x5c, 0x1b, 0x5c] (input_init log_env [] None) = Some ictx' \<and> ic_state ictx' = Ground"
  using input_terminate [OF log_reach log_reply_ok] by blast

theorem input_control_witness:
  "\<exists>ictx'. input_parse log_env [0x1b, 0x5b, 0x33, 0x31] (input_init log_env [] None) = Some ictx' \<and>
     control ictx' = fold (control_step 1048576) [0x1b, 0x5b, 0x33, 0x31] control_init"
  using input_control [OF init_wf log_reply_ok, of None "[0x1b, 0x5b, 0x33, 0x31]" "[]"]
  by (simp add: palette_ok_def control_input_init) (simp add: log_env_def)

text \<open>A device control string that has not ended: its bytes are pending.\<close>

lemma log_dcs:
  "\<exists>ictx. input_parse log_env [0x41, 0x1b, 0x50, 0x71] (input_init log_env [] None) = Some ictx \<and>
     ic_state ictx = Dcs_handler \<and> ic_timer ictx \<and> ic_since_ground ictx = [0x1b, 0x50, 0x71]"
proof -
  obtain ictx where p: "input_parse log_env [0x41, 0x1b, 0x50, 0x71] (input_init log_env [] None) = Some ictx"
    "input_wf log_env ictx" "ic_state ictx = states_after Ground [0x41, 0x1b, 0x50, 0x71]"
    "ic_since_ground ictx = pending_after Ground [0x41, 0x1b, 0x50, 0x71] []"
    using parse_wf [OF init_wf log_reply_ok, of None "[0x41, 0x1b, 0x50, 0x71]" "[]"]
    by (auto simp: palette_ok_def input_init_def reset_fields Let_def)
  moreover have "ic_state ictx = Dcs_handler" "ic_since_ground ictx = [0x1b, 0x50, 0x71]"
    using p(3,4) by (simp_all add: state_tables)
  ultimately show ?thesis by (auto simp: input_wf_def string_states_def)
qed

theorem input_pending_replay_witness:
  "\<exists>ictx ictx'. input_parse log_env [0x41, 0x1b, 0x50, 0x71] (input_init log_env [] None) = Some ictx \<and>
     input_parse log_env [0x1b, 0x50, 0x71] (input_init log_env [SW_reset] None) = Some ictx' \<and> ic_state ictx' = Dcs_handler"
proof -
  obtain ictx where i: "input_parse log_env [0x41, 0x1b, 0x50, 0x71] (input_init log_env [] None) = Some ictx"
    "ic_state ictx = Dcs_handler" "ic_since_ground ictx = [0x1b, 0x50, 0x71]" using log_dcs by blast
  from input_pending_replay [OF _ _ log_reply_ok i(1), of None "[SW_reset]"] i show ?thesis
    by (auto simp: palette_ok_def input_pending_def)
qed

theorem input_timeout_pending_witness:
  "\<exists>ictx. ic_state (input_ground_timer_callback log_env ictx) = Ground \<and>
     input_pending (input_ground_timer_callback log_env ictx) = [0x1b, 0x50, 0x71]"
proof -
  obtain ictx where i: "input_parse log_env [0x41, 0x1b, 0x50, 0x71] (input_init log_env [] None) = Some ictx"
    "ic_timer ictx" "ic_since_ground ictx = [0x1b, 0x50, 0x71]" using log_dcs by blast
  from input_timeout_pending [OF _ log_reply_ok i(1,2)] i(3) show ?thesis
    by (auto simp: palette_ok_def input_pending_def)
qed

text \<open>The parser of the view mode: no pane, no event.\<close>

theorem input_clipboard_crash_witness:
  "input_parse (log_env\<lparr>ie_pane := False, ie_event := False\<rparr>) [0x07]
     ((input_init log_env [] None)\<lparr>ic_state := Osc_string, ic_input := [0x35, 0x32, 0x3b, 0x63, 0x3b, 0x3f], ic_timer := True\<rparr>) = None"
  by (rule input_clipboard_crash [where sel = "[0x63]" and buf = "[0x61]"])
    (simp_all add: log_env_def input_init_def input_reset_def input_clear_def Let_def)

end
