(* ===== verification/Spec2Isabelle.thy ===== *)
theory Spec2Isabelle
  imports Prelude Winlink Utf8 Utf8_Decode Grid Grid_Facts Grid_Cells Grid_History Layout_Examples Layout_Roundtrip Session Recovery_Facts
    Server_Examples Window_Order Order_Examples Wait_For Colour_Facts Colour_Nearest Input_Examples
begin

text \<open>
  The terminal multiplexer of this repository, \<^verbatim>\<open>src/tmux\<close>: tmux with the recovery of closed panes and
  windows (\<^verbatim>\<open>commands/cmd-newmux-recovery.c\<close>) added. The theories follow the C sources file by file and
  function by function, under the names of the sources.

  \<^bold>\<open>How the program hangs together.\<close> A server holds sessions; a session sees windows through
  winlinks, ordered by index; a window holds panes, laid out by a tree of cells; a pane has a screen
  with a grid of cells and a history; a cell holds a packed character. The recovery commands move a
  pane or a window into a hidden session, remember in an item where it was, and move it back.

  \<^bold>\<open>Representation.\<close> Structures are records with the fields that the modelled code reads, flag words
  are words of 32 bits, sizes and coordinates are \<open>nat\<close> where the code has \<^verbatim>\<open>u_int\<close> that cannot wrap
  and \<open>int\<close> or words where they can. A red-black tree is its in-order list, a tail queue its
  list. Objects that the code shares by pointers (winlinks, windows, panes, sessions) have
  numbers and live in the server state. \<^verbatim>\<open>fatalx\<close>, a null dereference and a loop that does not end are
  the value \<open>None\<close>; errors that the code reports are values.

  \<^item> \<open>Prelude\<close>: the ordered lists, the contract of an ordered table (\<open>ordered_table\<close>), the contract of a
    stack of last uses (\<open>mru_stack\<close>), flag words.
  \<^item> \<open>Winlink\<close>: \<^verbatim>\<open>winlink_*\<close> of \<^verbatim>\<open>windows/window.c\<close>; the tree stays ordered, adding takes the first free
    index, shuffling makes room.
  \<^item> \<open>Utf8\<close>, \<open>Utf8_Decode\<close>: \<^verbatim>\<open>terminal/utf8.c\<close>; packing and interning of characters, the incremental
    decoder and the functions on strings, \<^verbatim>\<open>vis\<close> and \<^verbatim>\<open>clean_name\<close>.
  \<^item> \<open>Grid\<close>, \<open>Grid_Facts\<close>, \<open>Grid_Cells\<close>, \<open>Grid_History\<close>: \<^verbatim>\<open>screen/grid.c\<close>; the invariant of grids, reading
    back what was written, the history as a bounded queue, compaction, wrapped positions.
  \<^item> \<open>Layout\<close>, \<open>Layout_Facts\<close>, \<open>Layout_Tree\<close>, \<open>Layout_Resize\<close>, \<open>Layout_Tiling\<close>: \<^verbatim>\<open>windows/layout.c\<close>; an
    operation at one cell keeps a well-formed cell of the same size with consistent sizes below, so
    the tree stays consistent and its panes never overlap.
  \<^item> \<open>Layout_Custom\<close>, \<open>Layout_Roundtrip\<close>: \<^verbatim>\<open>windows/layout-custom.c\<close>; a dumped layout is parsed back,
    and what the parser does with other strings.
  \<^item> \<open>Server\<close>, \<open>Window\<close>, \<open>Session\<close>: the state, \<^verbatim>\<open>windows/window.c\<close>, \<^verbatim>\<open>windows/session.c\<close> and parts of
    \<^verbatim>\<open>server/server-fn.c\<close>; the active pane and the last panes, zooming, references, sessions and groups.
  \<^item> \<open>Recovery_History\<close>, \<open>Recovery\<close>, \<open>Recovery_Facts\<close>, \<open>Window_Order\<close>: \<^verbatim>\<open>commands/cmd-newmux-recovery.c\<close>;
    what is kept of a screen, the stacks of items refine a bounded list (\<open>bounded_stack\<close>), the
    numbers are unique, failing to reopen keeps the item, and a window comes back to its place.
  \<^item> \<open>Wait_For\<close>: \<^verbatim>\<open>commands/cmd-wait-for.c\<close>; items wait in exactly one queue and go on when they should.
  \<^item> \<open>Cstring\<close>, \<open>Colour\<close>, \<open>Colour_Facts\<close>, \<open>Colour_Nearest\<close>: functions on C strings and \<^verbatim>\<open>terminal/colour.c\<close>;
    colours survive printing and reading, and the conversion to the palette picks a nearest entry.
  \<^item> \<open>Input_Base\<close>, \<open>Input_Csi\<close>, \<open>Input_Sgr\<close>, \<open>Input_Dispatch\<close>, \<open>Input_Osc\<close>, \<open>Input_String\<close>, \<open>Input\<close>:
    \<^verbatim>\<open>terminal/input.c\<close>, the parser of what the program in a pane writes, from its buffers and handlers to its
    states. \<open>Input_Parse\<close>: the tables cover every byte once, so parsing is a fold over the bytes;
    \<open>Input_Frame\<close>, \<open>Input_Safe\<close>, \<open>Input_Invariant\<close>, \<open>Input_Claims\<close>: an invariant, by which it never fails and
    always gets back; \<open>Input_Control\<close>, \<open>Input_Replay\<close>: it refines a control machine, and the pending input replays;
    \<open>Input_Examples\<close>: where that ends.
  \<^item> \<open>Layout_Examples\<close>, \<open>Server_Examples\<close>, \<open>Order_Examples\<close>: concrete states at which the hypotheses of
    the claims hold.

  \<^bold>\<open>Parameters.\<close> Code outside the sources is a parameter: \<^verbatim>\<open>mbtowc\<close> and \<^verbatim>\<open>wcwidth\<close> of the C library in
  \<open>utf8_env\<close>; in \<open>input_env\<close> what the actions of the input parser do and the functions it asks; in \<open>host\<close> the name of the process of a pane (\<^verbatim>\<open>osdep_get_name\<close>, from the system), and the
  parts of the program that the models stop at: resizing a screen (reflow), fitting windows to the
  clients (\<open>recalculate_sizes\<close>) and the option values of new sessions and windows. The hypotheses on
  them (\<open>sizes_only\<close>) are instantiated in the examples.

  \<^bold>\<open>Bounds and fuel.\<close> \<open>layout_resize\<close> and its kin loop until nothing changes; the loops are
  fuel-bounded by the number of cells of space to distribute, and the claims prove that the fuel
  is enough or, for spreading out, that no fuel is. \<open>layout_construct\<close> gets twice the length of the string,
  since every two calls read a character. Sizes are bounded by what an \<^verbatim>\<open>int\<close> or \<^verbatim>\<open>u_int\<close> holds where a
  claim says so. The numbers of recovery items are words, hence the bound on the number of commands.

  \<^bold>\<open>Not modelled.\<close> Output to terminals, clients, control mode and processes (sockets, terminfo and
  libevent callbacks), formats (they depend on most of the server), the modes and menus on top
  of windows, images, and the platform code; Ghostty under \<^verbatim>\<open>src/ghostty-src\<close> is written in Zig and
  its C files are vendored libraries. Of the modelled files, notifications, redraws, timers and
  logging leave no trace in the state and are left out; string output and reflow of grids, and the
  searching and input of panes are not modelled.
\<close>

end
